(* ===== verification/Ocr_Prelude.thy ===== *)
theory Ocr_Prelude
  imports Main "HOL-Library.Word" "HOL-Library.Sublist"
begin

text \<open>
  What every component of the development shares: the machine types of the Go code,
  Go's (value, error) results and panics, bytes and strings, durations, and the
  collections of rewrite rules that the component theories fill.

  A Go string is a list of bytes; here it is the type string, whose characters are bytes.
\<close>

section \<open>Collections\<close>

named_theorems outcome_simps "rewriting of results, errors and panics"
named_theorems codec_simps "round trips and field facts of the JSON codecs"
named_theorems fs_simps "facts about the file system of a worker"
named_theorems store_simps "facts about the table of pending requests"

section \<open>Machine types\<close>

type_synonym byte = "8 word"
type_synonym bytes = "byte list"
type_synonym uint = "64 word"
type_synonym uint64 = "64 word"
type_synonym uint32 = "32 word"
type_synonym uint16 = "16 word"
type_synonym uint8 = "8 word"

text \<open>
  A Go error value: None is nil, Some carries the text of Error(). A Go function that
  returns (T, error) returns both components, and the code does return a useful first
  component beside an error, so results are pairs and not a sum. A panic ends the
  computation: it is the second constructor of outcome.
\<close>

type_synonym go_error = "string option"

datatype 'a outcome = Ret 'a | Panic string

definition bind_outcome :: "'a outcome \<Rightarrow> ('a \<Rightarrow> 'b outcome) \<Rightarrow> 'b outcome" where
  "bind_outcome m k = (case m of Ret a \<Rightarrow> k a | Panic p \<Rightarrow> Panic p)"

lemma bind_outcome_simps [simp, outcome_simps]:
  "bind_outcome (Ret a) k = k a"
  "bind_outcome (Panic p) k = Panic p"
  by (simp_all add: bind_outcome_def)

lemma bind_outcome_Ret_iff [outcome_simps]:
  "bind_outcome m k = Ret b \<longleftrightarrow> (\<exists>a. m = Ret a \<and> k a = Ret b)"
  by (cases m) simp_all

lemma bind_outcome_Panic_iff [outcome_simps]:
  "bind_outcome m k = Panic p \<longleftrightarrow> m = Panic p \<or> (\<exists>a. m = Ret a \<and> k a = Panic p)"
  by (cases m) simp_all

definition panics :: "'a outcome \<Rightarrow> bool" where
  "panics m = (case m of Ret _ \<Rightarrow> False | Panic _ \<Rightarrow> True)"

lemma panics_simps [simp, outcome_simps]:
  "\<not> panics (Ret a)" "panics (Panic p)"
  by (simp_all add: panics_def)

section \<open>Bytes and strings\<close>

definition byte_of_char :: "char \<Rightarrow> byte" where
  "byte_of_char c = of_nat (of_char c)"

definition char_of_byte :: "byte \<Rightarrow> char" where
  "char_of_byte b = char_of (unat b)"

definition bytes_of_string :: "string \<Rightarrow> bytes" where
  "bytes_of_string s = map byte_of_char s"

definition string_of_bytes :: "bytes \<Rightarrow> string" where
  "string_of_bytes bs = map char_of_byte bs"

lemma char_of_byte_of_char [simp]: "char_of_byte (byte_of_char c) = c"
proof -
  have "(of_char c :: nat) < 256" by simp
  then have "unat (of_nat (of_char c) :: byte) = of_char c"
    by (simp add: unat_of_nat take_bit_eq_mod)
  then show ?thesis by (simp add: char_of_byte_def byte_of_char_def)
qed

lemma byte_of_char_of_byte [simp]: "byte_of_char (char_of_byte b) = b"
proof -
  have "unat b < 256" using unsigned_less [of b] by simp
  then show ?thesis by (simp add: char_of_byte_def byte_of_char_def)
qed

lemma string_of_bytes_of_string [simp]: "string_of_bytes (bytes_of_string s) = s"
  by (simp add: string_of_bytes_def bytes_of_string_def comp_def)

lemma bytes_of_string_of_bytes [simp]: "bytes_of_string (string_of_bytes bs) = bs"
  by (simp add: string_of_bytes_def bytes_of_string_def comp_def)

lemma length_bytes_of_string [simp]: "length (bytes_of_string s) = length s"
  by (simp add: bytes_of_string_def)

section \<open>Durations\<close>

text \<open>time.Duration of a number of seconds: a product of 64 bits, read as a signed number.\<close>

definition seconds :: "uint \<Rightarrow> int" where
  "seconds n = sint (n * 1000000000)"

lemma sint_small:
  assumes "uint (n :: 64 word) < 2 ^ 63"
  shows "sint n = uint n"
proof -
  have "signed_take_bit 63 (uint n) = uint n"
    using assms by (intro signed_take_bit_int_eq_self) (simp_all add: order_trans [of _ 0])
  then show ?thesis by (simp add: sint_uint)
qed

lemma seconds_exact:
  assumes "uint n < 2 ^ 33"
  shows "seconds n = uint n * 1000000000"
proof -
  have "uint (n * 1000000000) = uint n * 1000000000"
    using assms by (simp add: uint_word_ariths)
  with assms sint_small [of "n * 1000000000"] show ?thesis by (simp add: seconds_def)
qed

section \<open>Sums over lists that are updated\<close>

lemma sum_list_map_update:
  fixes f :: "'a \<Rightarrow> 'b::ab_group_add"
  assumes "i < length xs"
  shows "sum_list (map f (xs[i := v])) = sum_list (map f xs) - f (xs ! i) + f v"
  using assms
proof (induction xs arbitrary: i)
  case (Cons x xs)
  show ?case
  proof (cases i)
    case (Suc k)
    with Cons.prems have "k < length xs" by simp
    from Cons.IH [OF this] Suc show ?thesis by (simp add: algebra_simps)
  qed (simp add: algebra_simps)
qed simp

lemma sum_list_map_less:
  fixes f :: "'a \<Rightarrow> nat"
  assumes "i < length xs" "f v < f (xs ! i)"
  shows "sum_list (map f (xs[i := v])) < sum_list (map f xs)"
  using assms
proof (induction xs arbitrary: i)
  case (Cons x xs)
  then show ?case by (cases i) auto
qed simp

lemma sum_list_map_swap:
  fixes f :: "'a \<Rightarrow> nat"
  assumes "i < length xs"
  shows "sum_list (map f (xs[i := v])) + f (xs ! i) = sum_list (map f xs) + f v"
  using assms
proof (induction xs arbitrary: i)
  case (Cons x xs)
  then show ?case by (cases i) auto
qed simp

lemma map_is_prefix_take: "xs = map f (take n ys) \<Longrightarrow> prefix xs (map f ys)"
  by (metis take_is_prefix take_map)

end
