(* ===== verification/Go_Strings.thy ===== *)
theory Go_Strings
  imports Ocr_Prelude "HOL-Library.Sublist"
begin

text \<open>
  The functions of Go's packages strings and path/filepath that open-ocr calls, on byte
  strings and for a Unix system: ToUpper, HasPrefix, TrimSuffix, Replace with a count of
  one, Ext, Clean and Join of two elements. ToUpper is used by the code only to compare
  with ASCII constants; the two letters outside ASCII whose upper case is an ASCII letter
  (dotless i, U+0131, and long s, U+017F) are mapped as Go maps them, every other byte
  outside ASCII is left as it is.
\<close>

section \<open>Package strings\<close>

definition upper_char :: "char \<Rightarrow> char" where
  "upper_char c = (let n = (of_char c :: nat) in if 97 \<le> n \<and> n \<le> 122 then char_of (n - 32) else c)"

fun to_upper :: "string \<Rightarrow> string" where
  "to_upper [] = []"
| "to_upper [c] = [upper_char c]"
| "to_upper (c # d # cs) =
     (if c = CHR 0xC4 \<and> d = CHR 0xB1 then CHR ''I'' # to_upper cs
      else if c = CHR 0xC5 \<and> d = CHR 0xBF then CHR ''S'' # to_upper cs
      else upper_char c # to_upper (d # cs))"

definition has_prefix :: "string \<Rightarrow> string \<Rightarrow> bool" where
  "has_prefix s p \<longleftrightarrow> take (length p) s = p"

definition trim_suffix :: "string \<Rightarrow> string \<Rightarrow> string" where
  "trim_suffix s suf =
     (if drop (length s - length suf) s = suf then take (length s - length suf) s else s)"

fun replace_first :: "string \<Rightarrow> string \<Rightarrow> string \<Rightarrow> string" where
  "replace_first old new [] = (if old = [] then new else [])"
| "replace_first old new (c # cs) =
     (if has_prefix (c # cs) old then new @ drop (length old) (c # cs)
      else c # replace_first old new cs)"

lemma has_prefix_iff: "has_prefix s p \<longleftrightarrow> prefix p s"
  by (metis append_eq_conv_conj append_take_drop_id has_prefix_def prefix_def)

lemma has_prefix_append [simp]: "has_prefix (p @ s) p"
  by (simp add: has_prefix_def)

lemma trim_suffix_append [simp]: "trim_suffix (s @ suf) suf = s"
  by (simp add: trim_suffix_def)

lemma replace_first_absent: "\<not> sublist old s \<Longrightarrow> replace_first old new s = s"
proof (induction s)
  case Nil
  then show ?case by auto
next
  case (Cons c cs)
  then have "\<not> prefix old (c # cs)" "\<not> sublist old cs"
    by (auto simp: sublist_Cons_right)
  with Cons.IH show ?case by (simp add: has_prefix_iff)
qed

lemma replace_first_present:
  assumes "sublist old s"
  shows "\<exists>pre post. s = pre @ old @ post \<and> replace_first old new s = pre @ new @ post"
  using assms
proof (induction s)
  case Nil
  then show ?case by auto
next
  case (Cons c cs)
  show ?case
  proof (cases "prefix old (c # cs)")
    case True
    then obtain post where "c # cs = old @ post" by (auto simp: prefix_def)
    moreover from True have "replace_first old new (c # cs) = new @ drop (length old) (c # cs)"
      by (simp add: has_prefix_iff)
    ultimately show ?thesis by (metis append_Nil append_eq_conv_conj)
  next
    case False
    with Cons.prems have "sublist old cs" by (auto simp: sublist_Cons_right)
    from Cons.IH [OF this] obtain pre post
      where "cs = pre @ old @ post" "replace_first old new cs = pre @ new @ post" by blast
    with False show ?thesis by (intro exI [of _ "c # pre"] exI [of _ post]) (simp add: has_prefix_iff)
  qed
qed

section \<open>Package path/filepath\<close>

text \<open>Ext: the suffix beginning at the final dot in the final element of the path.\<close>

definition path_ext :: "string \<Rightarrow> string" where
  "path_ext p =
     (let base = takeWhile (\<lambda>c. c \<noteq> CHR ''/'') (rev p) in
      if CHR ''.'' \<in> set base then CHR ''.'' # rev (takeWhile (\<lambda>c. c \<noteq> CHR ''.'') base) else [])"

fun split_slash :: "string \<Rightarrow> string list" where
  "split_slash [] = [[]]"
| "split_slash (c # cs) =
     (if c = CHR ''/'' then [] # split_slash cs
      else (case split_slash cs of [] \<Rightarrow> [[c]] | e # es \<Rightarrow> (c # e) # es))"

fun join_slash :: "string list \<Rightarrow> string" where
  "join_slash [] = []"
| "join_slash [e] = e"
| "join_slash (e # f # es) = e @ ''/'' @ join_slash (f # es)"

text \<open>The elements kept by Clean, on a stack whose head is the last element kept.\<close>

fun clean_step :: "bool \<Rightarrow> string list \<Rightarrow> string \<Rightarrow> string list" where
  "clean_step rooted st e =
     (if e = [] \<or> e = ''.'' then st
      else if e = ''..'' then
        (case st of
           [] \<Rightarrow> if rooted then [] else [''..'']
         | f # st' \<Rightarrow> if f = ''..'' then ''..'' # st else st')
      else e # st)"

definition clean_elems :: "string \<Rightarrow> string list" where
  "clean_elems p =
     rev (foldl (clean_step (p \<noteq> [] \<and> hd p = CHR ''/'')) [] (split_slash p))"

definition path_clean :: "string \<Rightarrow> string" where
  "path_clean p =
     (if p = [] then ''.''
      else if hd p = CHR ''/'' then CHR ''/'' # join_slash (clean_elems p)
      else if clean_elems p = [] then ''.'' else join_slash (clean_elems p))"

definition path_join :: "string \<Rightarrow> string \<Rightarrow> string" where
  "path_join a b =
     (if a \<noteq> [] then path_clean (a @ ''/'' @ b) else if b \<noteq> [] then path_clean b else [])"

lemma split_slash_nonempty [simp]: "split_slash p \<noteq> []"
  by (cases p) (auto split: list.splits)

lemma split_slash_append: "split_slash (a @ CHR ''/'' # b) = split_slash a @ split_slash b"
  by (induction a) (auto split: list.splits)

lemma split_slash_single: "CHR ''/'' \<notin> set p \<Longrightarrow> split_slash p = [p]"
  by (induction p) auto

lemma join_slash_snoc: "es \<noteq> [] \<Longrightarrow> join_slash (es @ [e]) = join_slash es @ ''/'' @ e"
  by (induction es rule: join_slash.induct) auto

text \<open>An element that Clean keeps as it is: a plain file name.\<close>

definition plain_name :: "string \<Rightarrow> bool" where
  "plain_name e \<longleftrightarrow> e \<noteq> [] \<and> e \<noteq> ''.'' \<and> e \<noteq> ''..'' \<and> CHR ''/'' \<notin> set e"

text \<open>A directory as os.TempDir gives it: rooted, clean, and not the root itself.\<close>

definition clean_dir :: "string \<Rightarrow> bool" where
  "clean_dir d \<longleftrightarrow> d \<noteq> [] \<and> hd d = CHR ''/'' \<and> path_clean d = d \<and> clean_elems d \<noteq> []"

lemma path_join_plain:
  assumes "clean_dir d" "plain_name e"
  shows "path_join d e = d @ ''/'' @ e"
proof -
  have e: "split_slash e = [e]" using assms(2) by (simp add: plain_name_def split_slash_single)
  have d: "d \<noteq> []" "hd d = CHR ''/''" "clean_elems d \<noteq> []"
    "d = CHR ''/'' # join_slash (clean_elems d)"
    using assms(1) by (auto simp: clean_dir_def path_clean_def split: if_splits)
  have "clean_elems (d @ ''/'' @ e) = clean_elems d @ [e]"
    using d(1,2) assms(2) by (simp add: clean_elems_def split_slash_append e plain_name_def)
  then have "path_join d e = CHR ''/'' # join_slash (clean_elems d @ [e])"
    using d(1,2) by (simp add: path_join_def path_clean_def)
  also have "\<dots> = d @ ''/'' @ e"
    using d(3,4) by (simp add: join_slash_snoc)
  finally show ?thesis .
qed

text \<open>
  Names the code builds by appending a suffix to a path: the extension of such a name is
  the extension of the suffix.
\<close>

lemma path_ext_append:
  assumes "CHR ''.'' \<notin> set s" "CHR ''/'' \<notin> set s"
  shows "path_ext (p @ CHR ''.'' # s) = CHR ''.'' # s"
proof -
  have "takeWhile (\<lambda>c. c \<noteq> CHR ''/'') (rev (p @ CHR ''.'' # s))
      = rev s @ CHR ''.'' # takeWhile (\<lambda>c. c \<noteq> CHR ''/'') (rev p)"
    by (simp, subst takeWhile_append2) (use assms(2) in auto)
  moreover have "takeWhile (\<lambda>c. c \<noteq> CHR ''.'')
      (rev s @ CHR ''.'' # takeWhile (\<lambda>c. c \<noteq> CHR ''/'') (rev p)) = rev s"
    by (subst takeWhile_append2) (use assms(1) in auto)
  ultimately show ?thesis by (simp add: path_ext_def)
qed

text \<open>A cleaned rooted path has plain elements only, and is left alone by Clean.\<close>

lemma split_slash_no_slash: "e \<in> set (split_slash p) \<Longrightarrow> CHR ''/'' \<notin> set e"
  by (induction p arbitrary: e) (auto split: if_splits list.splits)

lemma clean_step_plain:
  assumes "\<forall>x \<in> set st. plain_name x" "CHR ''/'' \<notin> set e"
  shows "\<forall>x \<in> set (clean_step True st e). plain_name x"
  using assms by (cases st) (auto simp: plain_name_def)

lemma foldl_clean_step_plain:
  assumes "\<forall>x \<in> set st. plain_name x" "\<forall>e \<in> set es. CHR ''/'' \<notin> set e"
  shows "\<forall>x \<in> set (foldl (clean_step True) st es). plain_name x"
  using assms
proof (induction es arbitrary: st)
  case (Cons e es)
  from Cons.IH [OF clean_step_plain [OF Cons.prems(1), of e]] Cons.prems(2)
  show ?case by (simp del: clean_step.simps)
qed simp

lemma clean_elems_plain:
  assumes "p \<noteq> []" "hd p = CHR ''/''"
  shows "\<forall>e \<in> set (clean_elems p). plain_name e"
  using foldl_clean_step_plain [of "[]" "split_slash p"] split_slash_no_slash assms
  by (auto simp: clean_elems_def)

lemma split_join_slash:
  "es \<noteq> [] \<Longrightarrow> \<forall>e \<in> set es. CHR ''/'' \<notin> set e \<Longrightarrow> split_slash (join_slash es) = es"
  by (induction es rule: join_slash.induct) (simp_all add: split_slash_single split_slash_append)

lemma foldl_clean_step_id: "\<forall>e \<in> set es. plain_name e \<Longrightarrow> foldl (clean_step True) st es = rev es @ st"
  by (induction es arbitrary: st) (auto simp: plain_name_def)

lemma clean_elems_join:
  assumes "\<forall>e \<in> set es. plain_name e"
  shows "clean_elems (CHR ''/'' # join_slash es) = es"
proof (cases "es = []")
  case False
  then have "split_slash (join_slash es) = es"
    using assms by (intro split_join_slash) (auto simp: plain_name_def)
  with foldl_clean_step_id [OF assms, of "[]"] show ?thesis by (simp add: clean_elems_def)
qed (simp add: clean_elems_def)

lemma clean_elems_trailing_slash:
  assumes "p \<noteq> []"
  shows "clean_elems (p @ ''/'') = clean_elems p"
  using split_slash_append [of p "[]"] assms by (simp add: clean_elems_def)

lemma last_join_slash:
  assumes "es \<noteq> []" "\<forall>e \<in> set es. plain_name e"
  shows "join_slash es \<noteq> [] \<and> last (join_slash es) \<noteq> CHR ''/''"
  using assms
  by (induction es rule: join_slash.induct) (auto simp: plain_name_def dest: last_in_set)

end
