(* ===== verification/Go_Json.thy ===== *)
theory Go_Json
  imports Go_Strings Go_Base64 "HOL-Library.AList"
begin

text \<open>
  encoding/json as the code uses it, on parsed documents: a message body is a JSON value,
  or no value when the bytes are not a JSON text. What is modelled is the part that gives
  the code its behaviour: struct members are matched by tag, first exactly and then without
  regard to case; a member of the wrong type leaves its field alone, is remembered as the
  error and does not stop the others; an error of an UnmarshalJSON method stops the decoding;
  null leaves a scalar alone and makes a slice or a map nil; a slice of bytes is a base64
  string; a map keeps the last of several equal keys.

  A number is an integer literal or, with a fraction or an exponent, its text. Objects are
  lists of members in document order; a Go map is a list of bindings with distinct keys.
\<close>

section \<open>Documents\<close>

datatype json =
    JNull
  | JBool bool
  | JInt int
  | JFloat string
  | JStr string
  | JArr "json list"
  | JObj "(string \<times> json) list"

type_synonym body = "json option"
type_synonym 'v go_map = "(string \<times> 'v) list"

text \<open>Inserting the members of an object into a Go map, later members winning.\<close>

definition insert_members :: "'v go_map \<Rightarrow> (string \<times> 'v) list \<Rightarrow> 'v go_map" where
  "insert_members m ms = foldl (\<lambda>m (k, v). AList.update k v m) m ms"

text \<open>The value an interface variable receives: equal keys collapse at every depth.\<close>

primrec to_any :: "json \<Rightarrow> json" where
  "to_any JNull = JNull"
| "to_any (JBool b) = JBool b"
| "to_any (JInt n) = JInt n"
| "to_any (JFloat s) = JFloat s"
| "to_any (JStr s) = JStr s"
| "to_any (JArr xs) = JArr (map to_any xs)"
| "to_any (JObj ms) = JObj (insert_members [] (map (map_prod id to_any) ms))"

text \<open>Values that are such a result already.\<close>

fun wf_any :: "json \<Rightarrow> bool" where
  "wf_any (JArr xs) = (\<forall>x \<in> set xs. wf_any x)"
| "wf_any (JObj ms) = (distinct (map fst ms) \<and> (\<forall>m \<in> set ms. wf_any (snd m)))"
| "wf_any _ = True"

definition wf_map :: "json go_map \<Rightarrow> bool" where
  "wf_map m \<longleftrightarrow> wf_any (JObj m)"

lemma insert_members_distinct:
  "distinct (map fst (m @ ms)) \<Longrightarrow> insert_members m ms = m @ ms"
proof (induction ms arbitrary: m)
  case Nil
  then show ?case by (simp add: insert_members_def)
next
  case (Cons kv ms)
  obtain k v where kv: "kv = (k, v)" by (cases kv)
  from Cons.prems have "AList.update k v m = m @ [(k, v)]"
    by (induction m) (auto simp: kv)
  then have "insert_members m (kv # ms) = insert_members (m @ [(k, v)]) ms"
    by (simp add: insert_members_def kv)
  also have "\<dots> = m @ kv # ms" using Cons by (simp add: kv)
  finally show ?case .
qed

lemma distinct_insert_members:
  "distinct (map fst m) \<Longrightarrow> distinct (map fst (insert_members m ms))"
  by (induction ms arbitrary: m) (auto simp: insert_members_def distinct_update)

lemma to_any_wf [codec_simps]: "wf_any j \<Longrightarrow> to_any j = j"
proof (induction j rule: wf_any.induct)
  case (1 xs)
  then show ?case by (simp add: map_idI)
next
  case (2 ms)
  then have "map (map_prod id to_any) ms = ms"
    by (intro map_idI) (auto simp: map_prod_def split: prod.splits)
  with 2 show ?case by (simp add: insert_members_distinct)
qed simp_all

lemma map_to_any_wf:
  assumes "\<forall>m \<in> set ms. wf_any (snd m)"
  shows "map (map_prod id to_any) ms = ms"
  by (rule map_idI) (use assms in \<open>auto simp: to_any_wf map_prod_def split: prod.splits\<close>)

section \<open>Members and fields\<close>

text \<open>Folding of member names: ASCII letters, the long s and the Kelvin sign.\<close>

definition lower_char :: "char \<Rightarrow> char" where
  "lower_char c = (let n = (of_char c :: nat) in if 65 \<le> n \<and> n \<le> 90 then char_of (n + 32) else c)"

fun go_fold :: "string \<Rightarrow> string" where
  "go_fold [] = []"
| "go_fold [c] = [lower_char c]"
| "go_fold (c # d # cs) =
     (if c = CHR 0xC5 \<and> d = CHR 0xBF then CHR ''s'' # go_fold cs
      else if c = CHR 0xE2 \<and> d = CHR 0x84 \<and> cs \<noteq> [] \<and> hd cs = CHR 0xAA
      then CHR ''k'' # go_fold (tl cs)
      else lower_char c # go_fold (d # cs))"

text \<open>
  Decoding one member into a field of the struct r: the field is stored, or the types do
  not match (the error is saved, decoding goes on), or an UnmarshalJSON method failed.
\<close>

datatype 'r field_result = Stored 'r | Mismatch 'r string | Abort 'r string

type_synonym 'r field_dec = "json \<Rightarrow> 'r \<Rightarrow> 'r field_result"

definition field_of :: "(string \<times> 'r field_dec) list \<Rightarrow> string \<Rightarrow> 'r field_dec option" where
  "field_of tab key =
     (case map_of tab key of
        Some d \<Rightarrow> Some d
      | None \<Rightarrow> map_option snd (find (\<lambda>(t, _). go_fold t = go_fold key) tab))"

fun decode_members ::
  "(string \<times> 'r field_dec) list \<Rightarrow> (string \<times> json) list \<Rightarrow> 'r \<Rightarrow> go_error \<Rightarrow> 'r \<times> go_error" where
  "decode_members tab [] r e = (r, e)"
| "decode_members tab ((k, v) # ms) r e =
     (case field_of tab k of
        None \<Rightarrow> decode_members tab ms r e
      | Some d \<Rightarrow>
          (case d v r of
             Stored r' \<Rightarrow> decode_members tab ms r' e
           | Mismatch r' msg \<Rightarrow> decode_members tab ms r' (if e = None then Some msg else e)
           | Abort r' msg \<Rightarrow> (r', Some msg)))"

definition mismatch :: "string \<Rightarrow> string" where
  "mismatch ty = ''json: cannot unmarshal value of another type into Go value of type '' @ ty"

definition decode_struct :: "(string \<times> 'r field_dec) list \<Rightarrow> string \<Rightarrow> json \<Rightarrow> 'r \<Rightarrow> 'r \<times> go_error" where
  "decode_struct tab ty j r =
     (case j of
        JNull \<Rightarrow> (r, None)
      | JObj ms \<Rightarrow> decode_members tab ms r None
      | _ \<Rightarrow> (r, Some (mismatch ty)))"

text \<open>
  json.Unmarshal: a text that is no JSON is refused before anything is stored. The same holds of
  json.Decoder, whose text is the first value of what it reads.
\<close>

definition unmarshal :: "(json \<Rightarrow> 'r \<Rightarrow> 'r \<times> go_error) \<Rightarrow> body \<Rightarrow> 'r \<Rightarrow> 'r \<times> go_error" where
  "unmarshal dec b r =
     (case b of None \<Rightarrow> (r, Some ''invalid character in JSON text'') | Some j \<Rightarrow> dec j r)"

lemma unmarshal_simps [simp]:
  "unmarshal dec None r = (r, Some ''invalid character in JSON text'')"
  "unmarshal dec (Some j) r = dec j r"
  by (simp_all add: unmarshal_def)

section \<open>Values of a field\<close>

text \<open>Each decoder gets the document and the old value of the field.\<close>

fun dec_string :: "json \<Rightarrow> string \<Rightarrow> string field_result" where
  "dec_string JNull old = Stored old"
| "dec_string (JStr s) old = Stored s"
| "dec_string _ old = Mismatch old (mismatch ''string'')"

fun dec_bool :: "json \<Rightarrow> bool \<Rightarrow> bool field_result" where
  "dec_bool JNull old = Stored old"
| "dec_bool (JBool b) old = Stored b"
| "dec_bool _ old = Mismatch old (mismatch ''bool'')"

fun dec_word :: "json \<Rightarrow> 'a::len word \<Rightarrow> 'a word field_result" where
  "dec_word JNull old = Stored old"
| "dec_word (JInt n) old =
     (if 0 \<le> n \<and> n < 2 ^ LENGTH('a) then Stored (word_of_int n) else Mismatch old (mismatch ''uint''))"
| "dec_word _ old = Mismatch old (mismatch ''uint'')"

text \<open>A slice of bytes: a base64 string, or an array of numbers.\<close>

fun dec_byte_elems :: "json list \<Rightarrow> bytes \<times> bool" where
  "dec_byte_elems [] = ([], True)"
| "dec_byte_elems (x # xs) =
     (case dec_word x (0 :: byte) of
        Stored b \<Rightarrow> (let (bs, ok) = dec_byte_elems xs in (b # bs, ok))
      | _ \<Rightarrow> (0 # fst (dec_byte_elems xs), False))"

fun dec_bytes :: "json \<Rightarrow> bytes option \<Rightarrow> bytes option field_result" where
  "dec_bytes JNull old = Stored None"
| "dec_bytes (JStr s) old =
     (case b64_decode s of
        Some bs \<Rightarrow> Stored (Some bs)
      | None \<Rightarrow> Mismatch old ''illegal base64 data'')"
| "dec_bytes (JArr xs) old =
     (let (bs, ok) = dec_byte_elems xs in
      if ok then Stored (Some bs) else Mismatch (Some bs) (mismatch ''uint8''))"
| "dec_bytes _ old = Mismatch old (mismatch ''[]uint8'')"

fun dec_string_elems :: "json list \<Rightarrow> string list \<times> bool" where
  "dec_string_elems [] = ([], True)"
| "dec_string_elems (x # xs) =
     (case dec_string x [] of
        Stored s \<Rightarrow> (let (ss, ok) = dec_string_elems xs in (s # ss, ok))
      | _ \<Rightarrow> ([] # fst (dec_string_elems xs), False))"

fun dec_strings :: "json \<Rightarrow> string list option \<Rightarrow> string list option field_result" where
  "dec_strings JNull old = Stored None"
| "dec_strings (JArr xs) old =
     (let (ss, ok) = dec_string_elems xs in
      if ok then Stored (Some ss) else Mismatch (Some ss) (mismatch ''string''))"
| "dec_strings _ old = Mismatch old (mismatch ''[]string'')"

text \<open>A map of interface values: members go into the map the field holds, if any.\<close>

fun dec_any_map :: "json \<Rightarrow> json go_map option \<Rightarrow> json go_map option field_result" where
  "dec_any_map JNull old = Stored None"
| "dec_any_map (JObj ms) old =
     Stored (Some (insert_members (case old of None \<Rightarrow> [] | Some m \<Rightarrow> m)
       (map (map_prod id to_any) ms)))"
| "dec_any_map _ old = Mismatch old (mismatch ''map[string]interface {}'')"

text \<open>The decoder of a field of a struct, from the decoder of its value.\<close>

definition at_field ::
  "(json \<Rightarrow> 'f \<Rightarrow> 'f field_result) \<Rightarrow> ('r \<Rightarrow> 'f) \<Rightarrow> ('f \<Rightarrow> 'r \<Rightarrow> 'r) \<Rightarrow> 'r field_dec" where
  "at_field dec get put j r =
     (case dec j (get r) of
        Stored v \<Rightarrow> Stored (put v r)
      | Mismatch v msg \<Rightarrow> Mismatch (put v r) msg
      | Abort v msg \<Rightarrow> Abort (put v r) msg)"

section \<open>Encoding of values\<close>

definition enc_word :: "'a::len word \<Rightarrow> json" where
  "enc_word w = JInt (uint w)"

definition enc_bytes :: "bytes option \<Rightarrow> json" where
  "enc_bytes b = (case b of None \<Rightarrow> JNull | Some bs \<Rightarrow> JStr (b64_encode bs))"

definition enc_strings :: "string list option \<Rightarrow> json" where
  "enc_strings ss = (case ss of None \<Rightarrow> JNull | Some xs \<Rightarrow> JArr (map JStr xs))"

definition enc_any_map :: "json go_map option \<Rightarrow> json" where
  "enc_any_map m = (case m of None \<Rightarrow> JNull | Some ms \<Rightarrow> JObj ms)"

lemma dec_enc_word [simp, codec_simps]: "dec_word (enc_word (w :: 'a::len word)) old = Stored w"
  by (simp add: enc_word_def)

lemma dec_enc_bytes [simp, codec_simps]: "dec_bytes (enc_bytes b) old = Stored b"
  by (simp add: enc_bytes_def split: option.splits)

lemma dec_string_elems_JStr: "dec_string_elems (map JStr xs) = (xs, True)"
  by (induction xs) simp_all

lemma dec_enc_strings [simp, codec_simps]: "dec_strings (enc_strings ss) old = Stored ss"
  by (simp add: enc_strings_def dec_string_elems_JStr split: option.splits)

lemma dec_enc_any_map [codec_simps]:
  "(\<And>ms. m = Some ms \<Longrightarrow> wf_map ms) \<Longrightarrow> dec_any_map (enc_any_map m) None = Stored m"
  by (auto simp: enc_any_map_def wf_map_def insert_members_distinct map_to_any_wf
      split: option.splits)

section \<open>The interface of a codec\<close>

text \<open>
  What a sender and a receiver rely on: a well-formed value survives the wire. The
  lemmas about relays are proved once here and hold for every message type.
\<close>

locale json_codec =
  fixes enc :: "'a \<Rightarrow> json"
    and dec :: "body \<Rightarrow> 'a \<times> go_error"
    and wf :: "'a \<Rightarrow> bool"
  assumes dec_enc: "wf a \<Longrightarrow> dec (Some (enc a)) = (a, None)"
    and dec_garbage: "snd (dec None) \<noteq> None"
begin

lemma enc_inj: "wf a \<Longrightarrow> wf b \<Longrightarrow> enc a = enc b \<Longrightarrow> a = b"
  by (metis dec_enc prod.inject)

text \<open>A chain of stages, each decoding what the one before has sent.\<close>

lemma relay:
  assumes "\<And>f a. f \<in> set fs \<Longrightarrow> wf a \<Longrightarrow> wf (f a)" and "wf a"
  shows "fold (\<lambda>f b. Some (enc (f (fst (dec b))))) fs (Some (enc a)) = Some (enc (fold (\<lambda>f. f) fs a))"
    and "wf (fold (\<lambda>f. f) fs a)"
proof -
  have "fold (\<lambda>f b. Some (enc (f (fst (dec b))))) fs (Some (enc a)) = Some (enc (fold (\<lambda>f. f) fs a))
    \<and> wf (fold (\<lambda>f. f) fs a)"
    using assms
  proof (induction fs arbitrary: a)
    case (Cons f fs)
    then have "wf (f a)" by simp
    with Cons show ?case by (simp add: dec_enc)
  qed simp
  then show "fold (\<lambda>f b. Some (enc (f (fst (dec b))))) fs (Some (enc a)) = Some (enc (fold (\<lambda>f. f) fs a))"
    and "wf (fold (\<lambda>f. f) fs a)" by simp_all
qed

end

end
