(* ===== verification/Ocr_Util.thy ===== *)
theory Ocr_Util
  imports Go_Strings Go_Json
begin

text \<open>
  ocr_util.go: temporary files, downloads, file type detection, the two TIFF converters,
  the check of a reply address and the stripping of passwords.

  The code runs in a world: the files of the machine and the identifiers drawn so far.
  What is outside the repository comes in through an environment, a record of functions:
  HTTP servers, the operating system's refusal of a write or a read, external programs (a
  program maps the files to the files it leaves, with its output and its exit error), the
  deadline of a command (whether it expires first), the generator of K-sortable
  identifiers, net/url's parser, and package fmt's rendering of a text that the code uses as
  a format, with an error as its operand or with none, and of a dynamically typed value. A
  refused write leaves the files as they were.
\<close>

section \<open>The world and its environment\<close>

type_synonym fs = "string \<rightharpoonup> bytes"

datatype http_reply =
    HttpFail string                \<comment> \<open>no response\<close>
  | HttpBroken int bytes string    \<comment> \<open>status, the part of the body read, the read error\<close>
  | HttpOk int bytes               \<comment> \<open>status and body\<close>

record go_url =
  url_scheme :: string
  url_password :: "string option"
  url_string :: string

record os_env =
  env_tmpdir :: string
  env_http :: "string \<Rightarrow> http_reply"
  env_write :: "string \<Rightarrow> go_error"
  env_read :: "string \<Rightarrow> go_error"
  env_exec :: "string \<Rightarrow> string list \<Rightarrow> fs \<Rightarrow> fs \<times> string \<times> go_error"
  env_deadline :: "string \<Rightarrow> string list \<Rightarrow> int \<Rightarrow> bool"
  env_ksuid :: "nat \<Rightarrow> string"
  env_sprintf :: "string \<Rightarrow> go_error \<Rightarrow> string"
  env_format :: "json \<Rightarrow> string"
  env_url_parse :: "string \<Rightarrow> string + go_url"

record world =
  files :: fs
  ksuids :: nat

definition exec_cmd :: "os_env \<Rightarrow> string \<Rightarrow> string list \<Rightarrow> world \<Rightarrow> world \<times> string \<times> go_error" where
  "exec_cmd env cmd args w =
     (let (fs', out, err) = env_exec env cmd args (files w) in (w\<lparr>files := fs'\<rparr>, out, err))"

definition remove_file :: "string \<Rightarrow> world \<Rightarrow> world" where
  "remove_file f w = w\<lparr>files := (files w)(f := None)\<rparr>"

definition read_file :: "os_env \<Rightarrow> string \<Rightarrow> world \<Rightarrow> bytes \<times> go_error" where
  "read_file env f w =
     (case files w f of
        None \<Rightarrow> ([], Some (''open '' @ f @ '': no such file or directory''))
      | Some c \<Rightarrow> (case env_read env f of None \<Rightarrow> (c, None) | Some e \<Rightarrow> ([], Some e)))"

section \<open>Files and downloads\<close>

definition saveBytesToFileName :: "os_env \<Rightarrow> bytes \<Rightarrow> string \<Rightarrow> world \<Rightarrow> world \<times> go_error" where
  "saveBytesToFileName env bs tmpFileName w =
     (case env_write env tmpFileName of
        Some e \<Rightarrow> (w, Some e)
      | None \<Rightarrow> (w\<lparr>files := (files w)(tmpFileName \<mapsto> bs)\<rparr>, None))"

text \<open>
  saveUrlContentToFileName creates the file first; a status other than 200 returns the
  error of the request, which is nil at that point.
\<close>

definition saveUrlContentToFileName :: "os_env \<Rightarrow> string \<Rightarrow> string \<Rightarrow> world \<Rightarrow> world \<times> go_error" where
  "saveUrlContentToFileName env uri tmpFileName w =
     (case env_write env tmpFileName of
        Some e \<Rightarrow> (w, Some e)
      | None \<Rightarrow>
          (let w0 = w\<lparr>files := (files w)(tmpFileName \<mapsto> [])\<rparr> in
           case env_http env uri of
             HttpFail e \<Rightarrow> (w0, Some e)
           | HttpBroken st part e \<Rightarrow>
               if st \<noteq> 200 then (w0, None)
               else (w\<lparr>files := (files w)(tmpFileName \<mapsto> part)\<rparr>, Some e)
           | HttpOk st body \<Rightarrow>
               if st \<noteq> 200 then (w0, None)
               else (w\<lparr>files := (files w)(tmpFileName \<mapsto> body)\<rparr>, None)))"

definition url2bytes :: "os_env \<Rightarrow> string \<Rightarrow> bytes option \<times> go_error" where
  "url2bytes env uri =
     (case env_http env uri of
        HttpFail e \<Rightarrow> (None, Some e)
      | HttpBroken st part e \<Rightarrow> (None, Some e)
      | HttpOk st body \<Rightarrow> (Some body, None))"

definition createTempFileName :: "os_env \<Rightarrow> string \<Rightarrow> world \<Rightarrow> world \<times> string \<times> go_error" where
  "createTempFileName env fileName w =
     (if fileName = []
      then (w\<lparr>ksuids := Suc (ksuids w)\<rparr>, path_join (env_tmpdir env) (env_ksuid env (ksuids w)), None)
      else (w, path_join (env_tmpdir env) fileName, None))"

definition readFirstBytes :: "os_env \<Rightarrow> string \<Rightarrow> nat \<Rightarrow> world \<Rightarrow> bytes \<times> go_error" where
  "readFirstBytes env filePath nBytesToRead w =
     (case read_file env filePath w of
        (_, Some e) \<Rightarrow> ([], Some e)
      | (c, None) \<Rightarrow>
          if c = [] \<and> 0 < nBytesToRead then ([], Some ''EOF'')
          else (take nBytesToRead c @ replicate (nBytesToRead - length c) 0, None))"

section \<open>File types and converters\<close>

definition detectFileType :: "bytes \<Rightarrow> string" where
  "detectFileType buffer =
     (if 3 < length buffer \<and>
         buffer ! 0 = 0x25 \<and> buffer ! 1 = 0x50 \<and> buffer ! 2 = 0x44 \<and> buffer ! 3 = 0x46
      then to_upper ''PDF''
      else if 3 < length buffer \<and>
         ((buffer ! 0 = 0x49 \<and> buffer ! 1 = 0x49 \<and> buffer ! 2 = 0x2A \<and> buffer ! 3 = 0x0) \<or>
          (buffer ! 0 = 0x4D \<and> buffer ! 1 = 0x4D \<and> buffer ! 2 = 0x0 \<and> buffer ! 3 = 0x2A))
      then to_upper ''TIFF''
      else to_upper ''UNKNOWN'')"

definition convertImageToPdf :: "os_env \<Rightarrow> string \<Rightarrow> world \<Rightarrow> world \<times> string" where
  "convertImageToPdf env inputFilename w =
     (let tmpFileImgToPdf = inputFilename @ ''.pdf'';
          (w', _, err) = exec_cmd env ''convert'' [inputFilename, tmpFileImgToPdf] w in
      (w', if err \<noteq> None then [] else tmpFileImgToPdf))"

definition tiff2Pdf :: "os_env \<Rightarrow> string \<Rightarrow> world \<Rightarrow> world \<times> string" where
  "tiff2Pdf env inputFilename w =
     (let tmpFileImgToPdf = inputFilename @ ''.pdf'';
          (w', _, err) = exec_cmd env ''tiff2pdf'' [inputFilename, ''-o'', tmpFileImgToPdf] w in
      (w', if err \<noteq> None then [] else tmpFileImgToPdf))"

section \<open>URLs\<close>

text \<open>The text of the error is a format for fmt.Errorf, so that a percent sign in the URL is a verb.\<close>

definition checkURLForReplyTo :: "os_env \<Rightarrow> string \<Rightarrow> string \<times> go_error" where
  "checkURLForReplyTo env uri =
     (case env_url_parse env uri of
        Inl e \<Rightarrow> ([], Some e)
      | Inr u \<Rightarrow>
          (url_string u,
           if url_scheme u \<noteq> ''https'' \<and> url_scheme u \<noteq> ''http''
           then Some (env_sprintf env (''provided '' @ url_string u @ '' URI must be an absolute URL'') None)
           else None))"

definition StripPasswordFromUrl :: "go_url \<Rightarrow> string" where
  "StripPasswordFromUrl u =
     (case url_password u of
        Some pass \<Rightarrow> replace_first (pass @ ''@'') ''***@'' (url_string u)
      | None \<Rightarrow> url_string u)"

section \<open>Facts\<close>

lemma files_remove_file [simp, fs_simps]: "files (remove_file f w) = (files w)(f := None)"
  by (simp add: remove_file_def)

lemma ksuids_remove_file [simp, fs_simps]: "ksuids (remove_file f w) = ksuids w"
  by (simp add: remove_file_def)

lemma files_foldl_remove [fs_simps]:
  "files (foldl (\<lambda>w f. remove_file f w) w fs) g = (if g \<in> set fs then None else files w g)"
  by (induction fs arbitrary: w) (auto simp: fun_upd_apply)

text \<open>The magic numbers of the supported formats, as the classification of a file.\<close>

definition magic_type :: "bytes \<Rightarrow> string" where
  "magic_type m =
     (if m = [0x25, 0x50, 0x44, 0x46] then ''PDF''
      else if m = [0x49, 0x49, 0x2A, 0x0] \<or> m = [0x4D, 0x4D, 0x0, 0x2A] then ''TIFF''
      else ''UNKNOWN'')"

lemma detectFileType_magic: "detectFileType buffer = magic_type (take 4 buffer)"
proof (cases "3 < length buffer")
  case True
  then obtain a b c d rest where "buffer = a # b # c # d # rest"
    by (metis (no_types, opaque_lifting) Suc_le_length_iff Suc_leI numeral_3_eq_3)
  then show ?thesis
    by (simp add: detectFileType_def magic_type_def upper_char_def Let_def)
next
  case False
  then have "take 4 buffer = buffer" "length buffer < 4" by auto
  moreover from this have "buffer \<noteq> [a, b, c, d]" for a b c d by auto
  ultimately show ?thesis
    by (simp add: detectFileType_def magic_type_def upper_char_def Let_def)
qed

lemma readFirstBytes_take4:
  assumes "readFirstBytes env f 64 w = (buf, None)"
  shows "\<exists>c. files w f = Some c \<and> c \<noteq> [] \<and> take 4 buf = take 4 (c @ replicate 3 0)"
proof -
  from assms obtain c where c: "files w f = Some c" "c \<noteq> []"
    "buf = take 64 c @ replicate (64 - length c) 0"
    by (auto simp: readFirstBytes_def read_file_def split: option.splits prod.splits if_splits)
  have "take 4 buf = take 4 (c @ replicate 3 0)"
  proof (cases "4 \<le> length c")
    case True
    then show ?thesis by (simp add: c(3))
  next
    case False
    with c(2) have "0 < length c" "length c < 4" by auto
    then have "length c = 1 \<or> length c = 2 \<or> length c = 3" by arith
    then show ?thesis by (auto simp: c(3) take_replicate)
  qed
  with c show ?thesis by blast
qed

lemma StripPasswordFromUrl_replaces:
  assumes "url_password u = Some pass" "sublist (pass @ ''@'') (url_string u)"
  shows "\<exists>pre post. url_string u = pre @ pass @ ''@'' @ post
    \<and> StripPasswordFromUrl u = pre @ ''***@'' @ post"
  using replace_first_present [OF assms(2), of "''***@''"] assms(1)
  by (auto simp: StripPasswordFromUrl_def)

section \<open>A sample environment\<close>

text \<open>
  A machine on which every write, read and command succeeds without an effect, no server
  answers and every URL parses as an HTTP URL without a password: the concrete instances of
  the statements below run on it or on variants of it.
\<close>

definition sample_env :: os_env where
  "sample_env =
     \<lparr>env_tmpdir = ''/tmp'', env_http = (\<lambda>u. HttpFail ''no route to host''), env_write = (\<lambda>f. None),
      env_read = (\<lambda>f. None), env_exec = (\<lambda>c args fs. (fs, [], None)), env_deadline = (\<lambda>c args t. False),
      env_ksuid = (\<lambda>n. if n = 0 then ''k0'' else ''k1''), env_sprintf = (\<lambda>s e. s), env_format = (\<lambda>j. []),
      env_url_parse = (\<lambda>u. Inr \<lparr>url_scheme = ''http'', url_password = None, url_string = u\<rparr>)\<rparr>"

definition sample_world :: world where
  "sample_world = \<lparr>files = (\<lambda>f. None), ksuids = 0\<rparr>"

section \<open>Types of files and passwords in logs\<close>

text \<open>The type of an uploaded file is decided by its first four bytes, after a file of less
  than four bytes has been filled up with zeros: a file that consists of the three bytes
  II* counts as a TIFF image.\<close>

lemma file_type_of_content:
  assumes "readFirstBytes env f 64 w = (buf, None)"
  shows "\<exists>c. files w f = Some c \<and> c \<noteq> [] \<and> detectFileType buf = magic_type (take 4 (c @ replicate 3 0))"
  using readFirstBytes_take4 [OF assms] by (auto simp: detectFileType_magic)

text \<open>The password of an URL disappears from what is logged if it stands in the URL as it was
  decoded; a password that the URL carries in another form (percent-encoded) stays.\<close>

lemma password_stripped_iff_literal:
  assumes "url_password u = Some pass"
  shows "if sublist (pass @ ''@'') (url_string u)
    then \<exists>pre post. url_string u = pre @ pass @ ''@'' @ post \<and> StripPasswordFromUrl u = pre @ ''***@'' @ post
    else StripPasswordFromUrl u = url_string u"
  using StripPasswordFromUrl_replaces [OF assms] replace_first_absent [of "pass @ ''@''" "url_string u"] assms
  by (simp add: StripPasswordFromUrl_def)

end
