(* ===== verification/Ocr_Messages.thy ===== *)
theory Ocr_Messages
  imports Go_Json Ocr_Util
begin

text \<open>
  ocr_engine.go's engine type, ocr_request.go and the result type of ocr_rpc_client.go: the
  two structs that travel through the message broker, their JSON form (the struct tags), and
  the methods of a request. A Go string list or map that is nil is None.
\<close>

section \<open>Engine types\<close>

type_synonym OcrEngineType = int

definition EngineTesseract :: OcrEngineType where "EngineTesseract = 0"
definition EngineGoTesseract :: OcrEngineType where "EngineGoTesseract = 1"
definition EngineSandwichTesseract :: OcrEngineType where "EngineSandwichTesseract = 2"
definition EngineMock :: OcrEngineType where "EngineMock = 3"

lemmas engine_type_defs =
  EngineTesseract_def EngineGoTesseract_def EngineSandwichTesseract_def EngineMock_def

definition OcrEngineType_String :: "OcrEngineType \<Rightarrow> string" where
  "OcrEngineType_String e =
     (if e = EngineMock then ''ENGINE_MOCK''
      else if e = EngineTesseract then ''ENGINE_TESSERACT''
      else if e = EngineGoTesseract then ''ENGINE_GO_TESSERACT''
      else if e = EngineSandwichTesseract then ''ENGINE_SANDWICH_TESSERACT''
      else [])"

text \<open>
  UnmarshalJSON: a string names the engine (null reads as the empty string), an unknown
  name is the mock engine; anything else has to be an integer of 64 bits, and any such
  integer is taken.
\<close>

definition UnmarshalJSON_string :: "string \<Rightarrow> OcrEngineType" where
  "UnmarshalJSON_string engineTypeStr =
     (let engineString = to_upper engineTypeStr in
      if engineString = ''TESSERACT'' then EngineTesseract
      else if engineString = ''GO_TESSERACT'' then EngineGoTesseract
      else if engineString = ''SANDWICH'' then EngineSandwichTesseract
      else if engineString = ''MOCK'' then EngineMock
      else EngineMock)"

fun UnmarshalJSON :: "json \<Rightarrow> OcrEngineType \<Rightarrow> OcrEngineType field_result" where
  "UnmarshalJSON (JStr s) e = Stored (UnmarshalJSON_string s)"
| "UnmarshalJSON JNull e = Stored (UnmarshalJSON_string [])"
| "UnmarshalJSON (JInt n) e =
     (if - (2 ^ 63) \<le> n \<and> n < 2 ^ 63 then Stored n else Abort e (mismatch ''int''))"
| "UnmarshalJSON _ e = Abort e (mismatch ''int'')"

section \<open>Requests\<close>

record OcrRequest =
  ImgUrl :: string
  ImgBase64 :: string
  EngineType :: OcrEngineType
  ImgBytes :: "bytes option"
  PreprocessorChain :: "string list option"
  PreprocessorArgs :: "json go_map option"
  EngineArgs :: "json go_map option"
  Deferred :: bool
  ReplyTo :: string
  DocType :: string
  RequestID :: string
  PageNumber :: uint16
  UserAgent :: string
  TimeOut :: uint
  ReferenceID :: string
  InplaceDecode :: bool

text \<open>The zero value, OcrRequest{}.\<close>

definition zero_request :: OcrRequest where
  "zero_request =
     \<lparr>ImgUrl = [], ImgBase64 = [], EngineType = 0, ImgBytes = None, PreprocessorChain = None,
      PreprocessorArgs = None, EngineArgs = None, Deferred = False, ReplyTo = [], DocType = [],
      RequestID = [], PageNumber = 0, UserAgent = [], TimeOut = 0, ReferenceID = [],
      InplaceDecode = False\<rparr>"

definition request_fields :: "(string \<times> OcrRequest field_dec) list" where
  "request_fields =
     [(''img_url'', at_field dec_string ImgUrl (\<lambda>v r. r\<lparr>ImgUrl := v\<rparr>)),
      (''img_base64'', at_field dec_string ImgBase64 (\<lambda>v r. r\<lparr>ImgBase64 := v\<rparr>)),
      (''engine'', at_field UnmarshalJSON EngineType (\<lambda>v r. r\<lparr>EngineType := v\<rparr>)),
      (''img_bytes'', at_field dec_bytes ImgBytes (\<lambda>v r. r\<lparr>ImgBytes := v\<rparr>)),
      (''preprocessors'', at_field dec_strings PreprocessorChain (\<lambda>v r. r\<lparr>PreprocessorChain := v\<rparr>)),
      (''preprocessor-args'', at_field dec_any_map PreprocessorArgs (\<lambda>v r. r\<lparr>PreprocessorArgs := v\<rparr>)),
      (''engine_args'', at_field dec_any_map EngineArgs (\<lambda>v r. r\<lparr>EngineArgs := v\<rparr>)),
      (''deferred'', at_field dec_bool Deferred (\<lambda>v r. r\<lparr>Deferred := v\<rparr>)),
      (''reply_to'', at_field dec_string ReplyTo (\<lambda>v r. r\<lparr>ReplyTo := v\<rparr>)),
      (''doc_type'', at_field dec_string DocType (\<lambda>v r. r\<lparr>DocType := v\<rparr>)),
      (''req_id'', at_field dec_string RequestID (\<lambda>v r. r\<lparr>RequestID := v\<rparr>)),
      (''page_number'', at_field dec_word PageNumber (\<lambda>v r. r\<lparr>PageNumber := v\<rparr>)),
      (''user_agent'', at_field dec_string UserAgent (\<lambda>v r. r\<lparr>UserAgent := v\<rparr>)),
      (''time_out'', at_field dec_word TimeOut (\<lambda>v r. r\<lparr>TimeOut := v\<rparr>)),
      (''reference_id'', at_field dec_string ReferenceID (\<lambda>v r. r\<lparr>ReferenceID := v\<rparr>)),
      (''inplace_decode'', at_field dec_bool InplaceDecode (\<lambda>v r. r\<lparr>InplaceDecode := v\<rparr>))]"

definition decode_request :: "json \<Rightarrow> OcrRequest \<Rightarrow> OcrRequest \<times> go_error" where
  "decode_request j r = decode_struct request_fields ''ocrworker.OcrRequest'' j r"

definition encode_request :: "OcrRequest \<Rightarrow> json" where
  "encode_request r = JObj
     [(''img_url'', JStr (ImgUrl r)), (''img_base64'', JStr (ImgBase64 r)),
      (''engine'', JInt (EngineType r)), (''img_bytes'', enc_bytes (ImgBytes r)),
      (''preprocessors'', enc_strings (PreprocessorChain r)),
      (''preprocessor-args'', enc_any_map (PreprocessorArgs r)),
      (''engine_args'', enc_any_map (EngineArgs r)), (''deferred'', JBool (Deferred r)),
      (''reply_to'', JStr (ReplyTo r)), (''doc_type'', JStr (DocType r)),
      (''req_id'', JStr (RequestID r)), (''page_number'', enc_word (PageNumber r)),
      (''user_agent'', JStr (UserAgent r)), (''time_out'', enc_word (TimeOut r)),
      (''reference_id'', JStr (ReferenceID r)), (''inplace_decode'', JBool (InplaceDecode r))]"

text \<open>What the Go types guarantee of a request: a 64 bit engine number, maps with distinct keys.\<close>

definition wf_request :: "OcrRequest \<Rightarrow> bool" where
  "wf_request r \<longleftrightarrow> - (2 ^ 63) \<le> EngineType r \<and> EngineType r < 2 ^ 63
     \<and> (case PreprocessorArgs r of None \<Rightarrow> True | Some m \<Rightarrow> wf_map m)
     \<and> (case EngineArgs r of None \<Rightarrow> True | Some m \<Rightarrow> wf_map m)"

section \<open>Methods of a request\<close>

definition chain_of :: "OcrRequest \<Rightarrow> string list" where
  "chain_of r = (case PreprocessorChain r of None \<Rightarrow> [] | Some ps \<Rightarrow> ps)"

text \<open>nextPreprocessor: the last element of the chain, which it removes, or the given key.\<close>

definition nextPreprocessor :: "OcrRequest \<Rightarrow> string \<Rightarrow> OcrRequest \<times> string" where
  "nextPreprocessor r processorRoutingKey =
     (if chain_of r = [] then (r, processorRoutingKey)
      else (r\<lparr>PreprocessorChain := Some (butlast (chain_of r))\<rparr>, last (chain_of r)))"

definition decodeBase64 :: "OcrRequest \<Rightarrow> OcrRequest \<times> go_error" where
  "decodeBase64 r =
     (case b64_decode (ImgBase64 r) of
        None \<Rightarrow> (r, Some ''illegal base64 data'')
      | Some bs \<Rightarrow> (r\<lparr>ImgBytes := Some bs, ImgBase64 := []\<rparr>, None))"

definition hasBase64 :: "OcrRequest \<Rightarrow> bool" where
  "hasBase64 r \<longleftrightarrow> ImgBase64 r \<noteq> []"

definition downloadImgUrl :: "os_env \<Rightarrow> OcrRequest \<Rightarrow> OcrRequest \<times> go_error" where
  "downloadImgUrl env r =
     (case url2bytes env (ImgUrl r) of
        (_, Some e) \<Rightarrow> (r, Some e)
      | (bs, None) \<Rightarrow> (r\<lparr>ImgBytes := bs, ImgUrl := []\<rparr>, None))"

section \<open>Results\<close>

record OcrResult =
  Text :: string
  Status :: string
  ID :: string

definition zero_result :: OcrResult where
  "zero_result = \<lparr>Text = [], Status = [], ID = []\<rparr>"

definition result_fields :: "(string \<times> OcrResult field_dec) list" where
  "result_fields =
     [(''text'', at_field dec_string Text (\<lambda>v r. r\<lparr>Text := v\<rparr>)),
      (''status'', at_field dec_string Status (\<lambda>v r. r\<lparr>Status := v\<rparr>)),
      (''id'', at_field dec_string ID (\<lambda>v r. r\<lparr>ID := v\<rparr>))]"

definition decode_result :: "json \<Rightarrow> OcrResult \<Rightarrow> OcrResult \<times> go_error" where
  "decode_result j r = decode_struct result_fields ''ocrworker.OcrResult'' j r"

definition encode_result :: "OcrResult \<Rightarrow> json" where
  "encode_result r =
     JObj [(''text'', JStr (Text r)), (''status'', JStr (Status r)), (''id'', JStr (ID r))]"

section \<open>The codecs\<close>

lemma request_field_of [codec_simps]:
  "field_of request_fields ''img_url'' = Some (at_field dec_string ImgUrl (\<lambda>v r. r\<lparr>ImgUrl := v\<rparr>))"
  "field_of request_fields ''img_base64'' = Some (at_field dec_string ImgBase64 (\<lambda>v r. r\<lparr>ImgBase64 := v\<rparr>))"
  "field_of request_fields ''engine'' = Some (at_field UnmarshalJSON EngineType (\<lambda>v r. r\<lparr>EngineType := v\<rparr>))"
  "field_of request_fields ''img_bytes'' = Some (at_field dec_bytes ImgBytes (\<lambda>v r. r\<lparr>ImgBytes := v\<rparr>))"
  "field_of request_fields ''preprocessors'' = Some (at_field dec_strings PreprocessorChain (\<lambda>v r. r\<lparr>PreprocessorChain := v\<rparr>))"
  "field_of request_fields ''preprocessor-args'' = Some (at_field dec_any_map PreprocessorArgs (\<lambda>v r. r\<lparr>PreprocessorArgs := v\<rparr>))"
  "field_of request_fields ''engine_args'' = Some (at_field dec_any_map EngineArgs (\<lambda>v r. r\<lparr>EngineArgs := v\<rparr>))"
  "field_of request_fields ''deferred'' = Some (at_field dec_bool Deferred (\<lambda>v r. r\<lparr>Deferred := v\<rparr>))"
  "field_of request_fields ''reply_to'' = Some (at_field dec_string ReplyTo (\<lambda>v r. r\<lparr>ReplyTo := v\<rparr>))"
  "field_of request_fields ''doc_type'' = Some (at_field dec_string DocType (\<lambda>v r. r\<lparr>DocType := v\<rparr>))"
  "field_of request_fields ''req_id'' = Some (at_field dec_string RequestID (\<lambda>v r. r\<lparr>RequestID := v\<rparr>))"
  "field_of request_fields ''page_number'' = Some (at_field dec_word PageNumber (\<lambda>v r. r\<lparr>PageNumber := v\<rparr>))"
  "field_of request_fields ''user_agent'' = Some (at_field dec_string UserAgent (\<lambda>v r. r\<lparr>UserAgent := v\<rparr>))"
  "field_of request_fields ''time_out'' = Some (at_field dec_word TimeOut (\<lambda>v r. r\<lparr>TimeOut := v\<rparr>))"
  "field_of request_fields ''reference_id'' = Some (at_field dec_string ReferenceID (\<lambda>v r. r\<lparr>ReferenceID := v\<rparr>))"
  "field_of request_fields ''inplace_decode'' = Some (at_field dec_bool InplaceDecode (\<lambda>v r. r\<lparr>InplaceDecode := v\<rparr>))"
  by (simp_all add: field_of_def request_fields_def)

lemma result_field_of [codec_simps]:
  "field_of result_fields ''text'' = Some (at_field dec_string Text (\<lambda>v r. r\<lparr>Text := v\<rparr>))"
  "field_of result_fields ''status'' = Some (at_field dec_string Status (\<lambda>v r. r\<lparr>Status := v\<rparr>))"
  "field_of result_fields ''id'' = Some (at_field dec_string ID (\<lambda>v r. r\<lparr>ID := v\<rparr>))"
  by (simp_all add: field_of_def result_fields_def)

lemma decode_encode_result [codec_simps]: "decode_result (encode_result r) r0 = (r, None)"
  by (simp add: decode_result_def encode_result_def decode_struct_def result_field_of at_field_def)

lemma decode_encode_request [codec_simps]:
  assumes "wf_request r" "PreprocessorArgs r0 = None" "EngineArgs r0 = None"
  shows "decode_request (encode_request r) r0 = (r, None)"
proof -
  have args: "dec_any_map (enc_any_map (PreprocessorArgs r)) None = Stored (PreprocessorArgs r)"
    "dec_any_map (enc_any_map (EngineArgs r)) None = Stored (EngineArgs r)"
    using assms(1) by (auto intro!: dec_enc_any_map simp: wf_request_def)
  have engine: "UnmarshalJSON (JInt (EngineType r)) e = Stored (EngineType r)" for e
    using assms(1) by (simp add: wf_request_def)
  show ?thesis
    by (simp add: decode_request_def encode_request_def decode_struct_def request_field_of
        at_field_def args engine assms(2,3) del: UnmarshalJSON.simps)
qed

text \<open>
  Whatever a body holds, decoding it keeps the guarantees of the types: a property that
  every field decoder keeps is kept by the decoding of a whole struct.
\<close>

definition result_value :: "'r field_result \<Rightarrow> 'r" where
  "result_value x = (case x of Stored r \<Rightarrow> r | Mismatch r _ \<Rightarrow> r | Abort r _ \<Rightarrow> r)"

definition dec_keeps :: "('r \<Rightarrow> bool) \<Rightarrow> 'r field_dec \<Rightarrow> bool" where
  "dec_keeps P d \<longleftrightarrow> (\<forall>j r. P r \<longrightarrow> P (result_value (d j r)))"

lemma field_of_keeps:
  assumes "\<forall>(t, d) \<in> set tab. dec_keeps P d" and "field_of tab k = Some d"
  shows "dec_keeps P d"
proof -
  have "\<exists>t. (t, d) \<in> set tab"
    using assms(2) by (auto simp: field_of_def find_Some_iff split: option.splits
        dest: map_of_SomeD) (metis nth_mem prod.collapse)
  with assms(1) show ?thesis by blast
qed

lemma decode_members_keeps:
  assumes tab: "\<forall>(t, d) \<in> set tab. dec_keeps P d"
  shows "P r \<Longrightarrow> P (fst (decode_members tab ms r e))"
proof (induction ms arbitrary: r e)
  case (Cons m ms)
  obtain k v where m: "m = (k, v)" by (cases m)
  show ?case
  proof (cases "field_of tab k")
    case None
    with Cons m show ?thesis by simp
  next
    case (Some d)
    then have "P (result_value (d v r))"
      using field_of_keeps [OF tab] Cons.prems by (simp add: dec_keeps_def)
    with Some Cons.IH m show ?thesis
      by (cases "d v r") (simp_all add: result_value_def)
  qed
qed simp

lemma decode_struct_keeps:
  assumes "\<forall>(t, d) \<in> set tab. dec_keeps P d" and "P r"
  shows "P (fst (decode_struct tab ty j r))"
  using decode_members_keeps [OF assms] assms(2)
  by (simp add: decode_struct_def split: json.splits)

lemma insert_members_values:
  "\<forall>m \<in> set m0. Q (snd m) \<Longrightarrow> \<forall>m \<in> set ms. Q (snd m) \<Longrightarrow> \<forall>m \<in> set (insert_members m0 ms). Q (snd m)"
proof (induction ms arbitrary: m0)
  case (Cons kv ms)
  obtain k v where kv: "kv = (k, v)" by (cases kv)
  with Cons.prems have "\<forall>m \<in> set (AList.update k v m0). Q (snd m)"
    by (induction m0) auto
  with Cons.IH [of "AList.update k v m0"] Cons.prems(2) kv show ?case
    by (simp add: insert_members_def)
qed (simp add: insert_members_def)

lemma wf_map_Nil [simp]: "wf_map []"
  by (simp add: wf_map_def)

lemma wf_map_insert:
  assumes "wf_map m0" "\<forall>m \<in> set ms. wf_any (snd m)"
  shows "wf_map (insert_members m0 ms)"
  using assms insert_members_values [of m0 wf_any ms]
  by (simp add: wf_map_def distinct_insert_members)

lemma wf_any_to_any: "wf_any (to_any j)"
proof (induction j)
  case (JObj ms)
  then have "\<forall>m \<in> set (map (map_prod id to_any) ms). wf_any (snd m)" by force
  from wf_map_insert [OF wf_map_Nil this] show ?case by (simp add: wf_map_def)
qed auto

lemma wf_map_decode:
  assumes "wf_map m0"
  shows "wf_map (insert_members m0 (map (map_prod id to_any) ms))"
  by (rule wf_map_insert [OF assms]) (auto simp: wf_any_to_any)

lemma decode_request_wf:
  assumes "wf_request r"
  shows "wf_request (fst (decode_request j r))"
proof -
  have map: "case result_value (dec_any_map j m) of None \<Rightarrow> True | Some m \<Rightarrow> wf_map m"
    if "case m of None \<Rightarrow> True | Some m \<Rightarrow> wf_map m" for j m
    using that by (cases "(j, m)" rule: dec_any_map.cases)
      (auto simp: result_value_def wf_map_decode split: option.splits)
  have engine: "- (2 ^ 63) \<le> result_value (UnmarshalJSON j e) \<and> result_value (UnmarshalJSON j e) < 2 ^ 63"
    if "- (2 ^ 63) \<le> e" "e < 2 ^ 63" for j e
    using that by (cases "(j, e)" rule: UnmarshalJSON.cases)
      (auto simp: result_value_def UnmarshalJSON_string_def engine_type_defs Let_def)
  have at: "result_value (at_field dec get put j r) = put (result_value (dec j (get r))) r"
    for dec :: "json \<Rightarrow> 'f \<Rightarrow> 'f field_result" and get put and j and r :: OcrRequest
    by (simp add: at_field_def result_value_def split: field_result.splits)
  have "\<forall>(t, d) \<in> set request_fields. dec_keeps wf_request d"
    using map engine by (simp add: request_fields_def dec_keeps_def at wf_request_def)
  from decode_struct_keeps [OF this assms] show ?thesis
    by (simp add: decode_request_def)
qed

lemma wf_zero_request [simp]: "wf_request zero_request"
  by (simp add: wf_request_def zero_request_def)

text \<open>Both messages satisfy the codec interface.\<close>

interpretation request_codec: json_codec encode_request
  "\<lambda>b. unmarshal decode_request b zero_request" wf_request
proof
  show "unmarshal decode_request (Some (encode_request a)) zero_request = (a, None)"
    if "wf_request a" for a
    using decode_encode_request [OF that] by (simp add: zero_request_def)
qed simp

interpretation result_codec: json_codec encode_result
  "\<lambda>b. unmarshal decode_result b r0" "\<lambda>_. True" for r0
  by unfold_locales (simp_all add: decode_encode_result)

section \<open>The chain of preprocessors\<close>

lemma nextPreprocessor_frame [simp]:
  "ImgBytes (fst (nextPreprocessor r k)) = ImgBytes r"
  "ImgUrl (fst (nextPreprocessor r k)) = ImgUrl r"
  "ImgBase64 (fst (nextPreprocessor r k)) = ImgBase64 r"
  "EngineType (fst (nextPreprocessor r k)) = EngineType r"
  "EngineArgs (fst (nextPreprocessor r k)) = EngineArgs r"
  "PreprocessorArgs (fst (nextPreprocessor r k)) = PreprocessorArgs r"
  "RequestID (fst (nextPreprocessor r k)) = RequestID r"
  "TimeOut (fst (nextPreprocessor r k)) = TimeOut r"
  "Deferred (fst (nextPreprocessor r k)) = Deferred r"
  "ReplyTo (fst (nextPreprocessor r k)) = ReplyTo r"
  by (simp_all add: nextPreprocessor_def)

lemma nextPreprocessor_wf [simp]: "wf_request (fst (nextPreprocessor r k)) \<longleftrightarrow> wf_request r"
  by (simp add: nextPreprocessor_def wf_request_def)

lemma chain_of_nextPreprocessor [simp]:
  "chain_of (fst (nextPreprocessor r k)) = butlast (chain_of r)"
  by (simp add: nextPreprocessor_def chain_of_def)

lemma snd_nextPreprocessor:
  "snd (nextPreprocessor r k) = (if chain_of r = [] then k else last (chain_of r))"
  by (simp add: nextPreprocessor_def)

text \<open>The keys a request is routed to: one call of nextPreprocessor per hop, until the final key.\<close>

fun route :: "nat \<Rightarrow> OcrRequest \<Rightarrow> string \<Rightarrow> string list" where
  "route 0 r k = []"
| "route (Suc n) r k = (case nextPreprocessor r k of (r', key) \<Rightarrow> key # route n r' k)"

lemma route_chain:
  "length (chain_of r) = n \<Longrightarrow> route (Suc n) r k = rev (chain_of r) @ [k]"
proof (induction n arbitrary: r)
  case 0
  then show ?case by (simp add: nextPreprocessor_def)
next
  case (Suc n)
  obtain r' key where n: "nextPreprocessor r k = (r', key)" by fastforce
  then have r': "chain_of r' = butlast (chain_of r)" "key = last (chain_of r)"
    using chain_of_nextPreprocessor [of r k] snd_nextPreprocessor [of r k] Suc.prems by auto
  with Suc.prems have "length (chain_of r') = n" by simp
  then have "route (Suc n) r' k = rev (butlast (chain_of r)) @ [k]" using Suc.IH r' by simp
  moreover have "chain_of r = butlast (chain_of r) @ [last (chain_of r)]"
    using Suc.prems by (cases "chain_of r" rule: rev_cases) auto
  ultimately show ?case using n r' by simp (metis append_Cons append_Nil rev.simps(2) rev_append rev_singleton_conv)
qed

lemma decoded_wf:
  assumes "unmarshal decode_request b (zero_request\<lparr>RequestID := i\<rparr>) = (r, e)"
  shows "wf_request r"
proof -
  have "wf_request (zero_request\<lparr>RequestID := i\<rparr>)" using wf_zero_request by (simp add: wf_request_def)
  with decode_request_wf assms show ?thesis by (cases b) (auto, metis fst_conv)
qed

section \<open>Properties\<close>

text \<open>C22: A request survives the way through the broker: what a worker decodes is the request that
  was published, and no two requests have the same message.\<close>

theorem request_roundtrip:
  assumes "wf_request r"
  shows "unmarshal decode_request (Some (encode_request r)) zero_request = (r, None)
    \<and> {r'. wf_request r' \<and> encode_request r' = encode_request r} = {r}"
  using request_codec.dec_enc [OF assms] request_codec.enc_inj assms by blast

theorem request_roundtrip_witness:
  "unmarshal decode_request (Some (encode_request (zero_request\<lparr>ImgBytes := Some [1, 2, 3, 4],
      PreprocessorChain := Some [''identity''], EngineArgs := Some [(''lang'', JStr ''deu'')]\<rparr>))) zero_request
    = (zero_request\<lparr>ImgBytes := Some [1, 2, 3, 4], PreprocessorChain := Some [''identity''],
         EngineArgs := Some [(''lang'', JStr ''deu'')]\<rparr>, None)"
  using request_roundtrip [of "zero_request\<lparr>ImgBytes := Some [1, 2, 3, 4],
      PreprocessorChain := Some [''identity''], EngineArgs := Some [(''lang'', JStr ''deu'')]\<rparr>"]
  by (simp add: wf_request_def zero_request_def wf_map_def)


text \<open>A request with a chain of preprocessors is sent to the last of them first, then backwards
  through the chain, and in the end to the queue of the OCR workers.\<close>

lemma route_is_reverse_chain:
  "route (Suc (length (chain_of r))) r k = rev (chain_of r) @ [k]"
  by (rule route_chain) simp

text \<open>An engine given by name is read without regard to case, and every unknown name, the empty
  one and null are the mock engine; a number is taken as it is, whether there is an engine
  with that number or not.\<close>

lemma engine_type_read:
  "UnmarshalJSON (JStr s) e = Stored
     (if to_upper s = ''TESSERACT'' then EngineTesseract
      else if to_upper s = ''GO_TESSERACT'' then EngineGoTesseract
      else if to_upper s = ''SANDWICH'' then EngineSandwichTesseract else EngineMock)
   \<and> UnmarshalJSON JNull e = Stored EngineMock
   \<and> (\<forall>n. UnmarshalJSON (JInt n) e = (if n \<in> {- (2 ^ 63)..< 2 ^ 63} then Stored n
        else Abort e (mismatch ''int'')))"
  by (simp add: UnmarshalJSON_string_def Let_def)

end
