(* ===== verification/Ocr_Amqp.thy ===== *)
theory Ocr_Amqp
  imports Ocr_Messages
begin

text \<open>
  What the code uses of the AMQP client library. The broker is a parameter: it answers a
  call, after the calls made so far, with nil or an error, and it names a declared queue.
  A component's dealings with the broker are the list of the calls it has made. A method
  declare-and-subscribe sequence of the code stops at the first error.
\<close>

type_synonym amqp_args = "(string \<times> uint8) list option"

record publishing =
  p_ContentType :: string
  p_Body :: body
  p_DeliveryMode :: uint8
  p_Priority :: uint8
  p_ReplyTo :: string
  p_CorrelationId :: string

record delivery =
  d_Body :: body
  d_ReplyTo :: string
  d_CorrelationId :: string
  d_DeliveryTag :: uint64

text \<open>The calls, with their arguments in the order of the library.\<close>

datatype amqp_call =
    Dial string
  | OpenChannel
  | Qos int int bool
  | ExchangeDeclare string string bool bool bool bool
  | QueueDeclare string bool bool bool bool amqp_args
  | QueueBind string string string bool amqp_args
  | Consume string string bool bool bool bool amqp_args
  | ConfirmMode bool
  | Publish string string bool bool publishing
  | Ack uint64 bool
  | CancelConsumer string bool
  | CloseConn

type_synonym amqp_trace = "amqp_call list"

text \<open>What arrives on the confirmation channels after a publishing: nothing, in the worst case.\<close>

datatype confirmation = Confirmed | NotConfirmed | NoConfirmation

record broker =
  br_answer :: "amqp_trace \<Rightarrow> amqp_call \<Rightarrow> go_error"
  br_queue :: "amqp_trace \<Rightarrow> string \<Rightarrow> string"
  br_confirm :: "amqp_trace \<Rightarrow> confirmation"

definition Transient :: uint8 where
  "Transient = 1"

definition amqp_do :: "broker \<Rightarrow> amqp_call \<Rightarrow> amqp_trace \<Rightarrow> amqp_trace \<times> go_error" where
  "amqp_do br c tr = (tr @ [c], br_answer br tr c)"

fun amqp_all :: "broker \<Rightarrow> amqp_call list \<Rightarrow> amqp_trace \<Rightarrow> amqp_trace \<times> go_error" where
  "amqp_all br [] tr = (tr, None)"
| "amqp_all br (c # cs) tr =
     (case amqp_do br c tr of
        (tr', Some e) \<Rightarrow> (tr', Some e)
      | (tr', None) \<Rightarrow> amqp_all br cs tr')"

text \<open>A sequence that succeeds has made all its calls; one that fails has made a first part.\<close>

lemma amqp_all_prefix:
  "amqp_all br cs tr = (tr', e) \<Longrightarrow>
   \<exists>n. tr' = tr @ take n cs \<and> (e = None \<longrightarrow> n = length cs) \<and> (e \<noteq> None \<longrightarrow> 0 < n \<and> n \<le> length cs)"
proof (induction cs arbitrary: tr)
  case (Cons c cs)
  show ?case
  proof (cases "br_answer br tr c")
    case None
    with Cons.prems have "amqp_all br cs (tr @ [c]) = (tr', e)" by (simp add: amqp_do_def)
    from Cons.IH [OF this] obtain n where n: "tr' = (tr @ [c]) @ take n cs"
      "e = None \<longrightarrow> n = length cs" "e \<noteq> None \<longrightarrow> 0 < n \<and> n \<le> length cs" by blast
    then show ?thesis by (intro exI [of _ "Suc n"]) simp
  next
    case (Some err)
    with Cons.prems have "tr' = tr @ [c]" "e = Some err" by (auto simp: amqp_do_def)
    then show ?thesis by (intro exI [of _ "Suc 0"]) simp
  qed
qed simp

lemma amqp_all_ok: "amqp_all br cs tr = (tr', None) \<Longrightarrow> tr' = tr @ cs"
  using amqp_all_prefix by fastforce

text \<open>A sequence of calls is used through these two facts.\<close>

declare amqp_all.simps(2) [simp del]

text \<open>The messages a component has published, with the routing key of each.\<close>

fun published :: "amqp_trace \<Rightarrow> (string \<times> publishing) list" where
  "published [] = []"
| "published (Publish x key m p pub # tr) = (key, pub) # published tr"
| "published (c # tr) = published tr"

lemma published_append [simp]: "published (tr @ tr') = published tr @ published tr'"
proof (induction tr)
  case (Cons c tr)
  then show ?case by (cases c) simp_all
qed simp

text \<open>The deliveries a component has acknowledged.\<close>

fun acked :: "amqp_trace \<Rightarrow> uint64 list" where
  "acked [] = []"
| "acked (Ack t m # tr) = t # acked tr"
| "acked (c # tr) = acked tr"

lemma acked_append [simp]: "acked (tr @ tr') = acked tr @ acked tr'"
proof (induction tr)
  case (Cons c tr)
  then show ?case by (cases c) simp_all
qed simp

text \<open>
  The bindings a component has made, as (exchange, key, queue), and the queues it consumes, with
  the automatic acknowledgement. A direct exchange hands a message to the queues bound to it
  under the key of the message.
\<close>

fun bindings :: "amqp_trace \<Rightarrow> (string \<times> string \<times> string) list" where
  "bindings [] = []"
| "bindings (QueueBind q key x nowait args # tr) = (x, key, q) # bindings tr"
| "bindings (c # tr) = bindings tr"

lemma bindings_append [simp]: "bindings (tr @ tr') = bindings tr @ bindings tr'"
proof (induction tr)
  case (Cons c tr)
  then show ?case by (cases c) simp_all
qed simp

fun consumed :: "amqp_trace \<Rightarrow> (string \<times> bool) list" where
  "consumed [] = []"
| "consumed (Consume q tag autoack excl nolocal nowait args # tr) = (q, autoack) # consumed tr"
| "consumed (c # tr) = consumed tr"

lemma consumed_append [simp]: "consumed (tr @ tr') = consumed tr @ consumed tr'"
proof (induction tr)
  case (Cons c tr)
  then show ?case by (cases c) simp_all
qed simp

text \<open>Some queue that is consumed gets the messages of a key.\<close>

definition receives :: "amqp_trace \<Rightarrow> string \<Rightarrow> string \<Rightarrow> bool \<Rightarrow> bool" where
  "receives tr x key autoack \<longleftrightarrow>
     (\<exists>q. (x, key, q) \<in> set (bindings tr) \<and> (q, autoack) \<in> set (consumed tr))"

lemma receives_append [simp]: "receives tr x key a \<Longrightarrow> receives (tr @ tr') x key a"
  by (auto simp: receives_def)

text \<open>A broker that accepts everything and names a queue as asked: the ordinary case.\<close>

definition willing_broker :: broker where
  "willing_broker = \<lparr>br_answer = (\<lambda>_ _. None), br_queue = (\<lambda>_ q. q), br_confirm = (\<lambda>_. Confirmed)\<rparr>"

end
