(* ===== verification/Ocr_Store.thy ===== *)
theory Ocr_Store
  imports Ocr_Messages
begin

text \<open>
  ocr_results_storage.go: the table of requests whose results wait for their clients
  (RequestsTrack, a sync.Map from request identifiers to result channels), the atomic
  counter RequestTrackLength kept beside it, and the gauge that is exported for it. A
  channel is a reference; the contents of the channels are part of the state, since the
  goroutine that receives from the broker and the poll of a client share a channel.

  First the operations as they run alone, with an abstract specification (a map from
  pending requests to the results that are ready) that they refine; then the operations as
  sequences of atomic actions of several threads.
\<close>

unbundle bit_operations_syntax

section \<open>State and operations\<close>

record store =
  RequestsTrack :: "string \<rightharpoonup> nat"
  RequestTrackLength :: uint32
  inFlightGauge :: int
  chans :: "nat \<Rightarrow> OcrResult list"

definition empty_store :: store where
  "empty_store =
     \<lparr>RequestsTrack = (\<lambda>_. None), RequestTrackLength = 0, inFlightGauge = 0, chans = (\<lambda>_. [])\<rparr>"

definition getQueueLen :: "store \<Rightarrow> uint" where
  "getQueueLen s = ucast (RequestTrackLength s)"

definition deleteRequestFromQueue :: "string \<Rightarrow> store \<Rightarrow> store" where
  "deleteRequestFromQueue requestID s =
     (case RequestsTrack s requestID of
        None \<Rightarrow> s
      | Some _ \<Rightarrow>
          s\<lparr>RequestTrackLength := RequestTrackLength s + NOT 0,
            inFlightGauge := inFlightGauge s - 1,
            RequestsTrack := (RequestsTrack s)(requestID := None)\<rparr>)"

definition addNewOcrResultToQueue :: "string \<Rightarrow> nat \<Rightarrow> store \<Rightarrow> store" where
  "addNewOcrResultToQueue requestID rpcResponseChan s =
     s\<lparr>RequestTrackLength := RequestTrackLength s + 1,
       inFlightGauge := inFlightGauge s + 1,
       RequestsTrack := (RequestsTrack s)(requestID \<mapsto> rpcResponseChan)\<rparr>"

text \<open>
  CheckOcrStatusByID: a receive that does not block; the request is deleted by a deferred
  call when a result was there.
\<close>

definition CheckOcrStatusByID :: "string \<Rightarrow> store \<Rightarrow> store \<times> OcrResult \<times> bool" where
  "CheckOcrStatusByID requestID s =
     (case RequestsTrack s requestID of
        Some tempChannel \<Rightarrow>
          (case chans s tempChannel of
             ocrResult # rest \<Rightarrow>
               (deleteRequestFromQueue requestID (s\<lparr>chans := (chans s)(tempChannel := rest)\<rparr>),
                ocrResult, True)
           | [] \<Rightarrow> (s, zero_result\<lparr>Status := ''processing'', ID := requestID\<rparr>, True))
      | None \<Rightarrow> (s, zero_result, False))"

text \<open>The send of a result into its channel, as handleRPCResponse does it.\<close>

definition send_result :: "nat \<Rightarrow> OcrResult \<Rightarrow> store \<Rightarrow> store" where
  "send_result ch r s = s\<lparr>chans := (chans s)(ch := chans s ch @ [r])\<rparr>"

section \<open>The counter is the size of the table\<close>

definition store_inv :: "store \<Rightarrow> bool" where
  "store_inv s \<longleftrightarrow> finite (dom (RequestsTrack s))
     \<and> RequestTrackLength s = of_nat (card (dom (RequestsTrack s)))"

lemma NOT_0_is_minus_1: "(NOT 0 :: uint32) = - 1"
  by simp

lemma store_inv_empty [simp]: "store_inv empty_store"
  by (simp add: store_inv_def empty_store_def)

lemma store_inv_delete [store_simps]:
  assumes "store_inv s"
  shows "store_inv (deleteRequestFromQueue requestID s)"
proof (cases "RequestsTrack s requestID")
  case None
  with assms show ?thesis by (simp add: deleteRequestFromQueue_def)
next
  case (Some ch)
  let ?D = "dom (RequestsTrack s)"
  have "requestID \<in> ?D" "finite ?D" using Some assms by (auto simp: store_inv_def)
  then have "card ?D = Suc (card (?D - {requestID}))" by (metis card_Suc_Diff1)
  with assms Some show ?thesis
    by (simp add: store_inv_def deleteRequestFromQueue_def)
qed

lemma store_inv_add [store_simps]:
  assumes "store_inv s" "RequestsTrack s requestID = None"
  shows "store_inv (addNewOcrResultToQueue requestID ch s)"
  using assms by (simp add: store_inv_def addNewOcrResultToQueue_def domIff)

lemma store_inv_send [simp, store_simps]: "store_inv (send_result ch r s) \<longleftrightarrow> store_inv s"
  by (simp add: store_inv_def send_result_def)

lemma store_inv_chans [simp]: "store_inv (s\<lparr>chans := c\<rparr>) \<longleftrightarrow> store_inv s"
  by (simp add: store_inv_def)

lemma store_inv_status [store_simps]:
  "store_inv s \<Longrightarrow> store_inv (fst (CheckOcrStatusByID requestID s))"
  by (simp add: CheckOcrStatusByID_def store_inv_delete split: option.splits list.splits)

lemma getQueueLen_card:
  assumes "store_inv s" "card (dom (RequestsTrack s)) < 2 ^ 32"
  shows "unat (getQueueLen s) = card (dom (RequestsTrack s))"
  using assms by (simp add: getQueueLen_def store_inv_def unsigned_ucast_eq unat_of_nat take_bit_eq_mod)

section \<open>The interface of a table of pending requests\<close>

datatype table_op = AddOp string nat | DelOp string

fun run_ops ::
  "(string \<Rightarrow> nat \<Rightarrow> 's \<Rightarrow> 's) \<Rightarrow> (string \<Rightarrow> 's \<Rightarrow> 's) \<Rightarrow> table_op list \<Rightarrow> 's \<Rightarrow> 's" where
  "run_ops add del [] s = s"
| "run_ops add del (AddOp i c # ops) s = run_ops add del ops (add i c s)"
| "run_ops add del (DelOp i # ops) s = run_ops add del ops (del i s)"

text \<open>A sequence in which every added identifier is new at that moment.\<close>

fun fresh_ops :: "table_op list \<Rightarrow> string set \<Rightarrow> bool" where
  "fresh_ops [] D = True"
| "fresh_ops (AddOp i c # ops) D = (i \<notin> D \<and> fresh_ops ops (insert i D))"
| "fresh_ops (DelOp i # ops) D = fresh_ops ops (D - {i})"

fun pending_after :: "table_op list \<Rightarrow> string set \<Rightarrow> string set" where
  "pending_after [] D = D"
| "pending_after (AddOp i c # ops) D = pending_after ops (insert i D)"
| "pending_after (DelOp i # ops) D = pending_after ops (D - {i})"

locale request_table =
  fixes lookup :: "'s \<Rightarrow> string \<rightharpoonup> nat"
    and add :: "string \<Rightarrow> nat \<Rightarrow> 's \<Rightarrow> 's"
    and del :: "string \<Rightarrow> 's \<Rightarrow> 's"
    and len :: "'s \<Rightarrow> uint"
    and invar :: "'s \<Rightarrow> bool"
  assumes lookup_add: "lookup (add i c s) = (lookup s)(i \<mapsto> c)"
    and lookup_del: "lookup (del i s) = (lookup s)(i := None)"
    and invar_add: "invar s \<Longrightarrow> lookup s i = None \<Longrightarrow> invar (add i c s)"
    and invar_del: "invar s \<Longrightarrow> invar (del i s)"
    and invar_finite: "invar s \<Longrightarrow> finite (dom (lookup s))"
    and len_card: "invar s \<Longrightarrow> card (dom (lookup s)) < 2 ^ 32 \<Longrightarrow> unat (len s) = card (dom (lookup s))"
begin

lemma run_ops_spec:
  assumes "invar s" "fresh_ops ops (dom (lookup s))"
  shows "invar (run_ops add del ops s)
    \<and> dom (lookup (run_ops add del ops s)) = pending_after ops (dom (lookup s))"
  using assms
proof (induction ops arbitrary: s)
  case (Cons op ops)
  show ?case
  proof (cases op)
    case (AddOp i c)
    have dom: "dom (lookup (add i c s)) = insert i (dom (lookup s))" by (simp add: lookup_add)
    with AddOp Cons.prems have "lookup s i = None" "fresh_ops ops (dom (lookup (add i c s)))"
      by (simp_all add: domIff)
    with Cons.IH [of "add i c s"] Cons.prems(1) AddOp dom show ?thesis
      by (simp add: invar_add)
  next
    case (DelOp i)
    have dom: "dom (lookup (del i s)) = dom (lookup s) - {i}" by (simp add: lookup_del)
    with DelOp Cons.prems have "fresh_ops ops (dom (lookup (del i s)))" by simp
    with Cons.IH [of "del i s"] Cons.prems(1) DelOp dom show ?thesis
      by (simp add: invar_del)
  qed
qed simp

text \<open>The length that is read back is the number of requests still pending.\<close>

lemma len_run_ops:
  assumes "invar s" "fresh_ops ops (dom (lookup s))"
    and "card (pending_after ops (dom (lookup s))) < 2 ^ 32"
  shows "unat (len (run_ops add del ops s)) = card (pending_after ops (dom (lookup s)))"
  using run_ops_spec [OF assms(1,2)] len_card assms(3) by metis

text \<open>A drained table reads as empty, which is what a stopping daemon waits for.\<close>

lemma drained:
  assumes "invar s" "fresh_ops ops (dom (lookup s))" "pending_after ops (dom (lookup s)) = {}"
  shows "len (run_ops add del ops s) = 0"
proof -
  have "unat (len (run_ops add del ops s)) = 0"
    using len_run_ops [OF assms(1,2)] assms(3) by simp
  then show ?thesis by (simp add: unat_eq_zero)
qed

end

interpretation ocr_table: request_table RequestsTrack addNewOcrResultToQueue
  deleteRequestFromQueue getQueueLen store_inv
proof
  show "RequestsTrack (addNewOcrResultToQueue i c s) = (RequestsTrack s)(i \<mapsto> c)" for i c s
    by (simp add: addNewOcrResultToQueue_def)
  show "RequestsTrack (deleteRequestFromQueue i s) = (RequestsTrack s)(i := None)" for i s
    by (auto simp: deleteRequestFromQueue_def split: option.splits)
  show "finite (dom (RequestsTrack s))" if "store_inv s" for s
    using that by (simp add: store_inv_def)
qed (simp_all add: store_inv_add store_inv_delete getQueueLen_card)

section \<open>What a client sees\<close>

text \<open>
  The abstract table: for every pending request the results that have arrived. The
  channels of different requests are different, which the abstraction needs.
\<close>

definition own_chans :: "store \<Rightarrow> bool" where
  "own_chans s \<longleftrightarrow> inj_on (RequestsTrack s) (dom (RequestsTrack s))"

definition abs_store :: "store \<Rightarrow> string \<rightharpoonup> OcrResult list" where
  "abs_store s i = map_option (chans s) (RequestsTrack s i)"

text \<open>The specification of a poll: the answer and what is left of the table.\<close>

definition poll_spec ::
  "string \<Rightarrow> (string \<rightharpoonup> OcrResult list) \<Rightarrow> (string \<rightharpoonup> OcrResult list) \<times> OcrResult \<times> bool" where
  "poll_spec i T =
     (case T i of
        None \<Rightarrow> (T, zero_result, False)
      | Some [] \<Rightarrow> (T, zero_result\<lparr>Status := ''processing'', ID := i\<rparr>, True)
      | Some (r # rest) \<Rightarrow> (T(i := None), r, True))"

lemma chans_delete [simp, store_simps]: "chans (deleteRequestFromQueue i s) = chans s"
  by (simp add: deleteRequestFromQueue_def split: option.splits)

lemma abs_delete: "abs_store (deleteRequestFromQueue i s) = (abs_store s)(i := None)"
  by (auto simp: abs_store_def fun_eq_iff ocr_table.lookup_del)

lemma abs_other_chan:
  assumes "own_chans s" "RequestsTrack s i = Some ch"
  shows "(abs_store (s\<lparr>chans := (chans s)(ch := v)\<rparr>))(i := None) = (abs_store s)(i := None)"
proof
  fix j
  show "((abs_store (s\<lparr>chans := (chans s)(ch := v)\<rparr>))(i := None)) j = ((abs_store s)(i := None)) j"
  proof (cases "RequestsTrack s j")
    case (Some ch')
    with assms have "j \<noteq> i \<Longrightarrow> ch' \<noteq> ch" unfolding own_chans_def by (metis domI inj_onD)
    with Some show ?thesis by (simp add: abs_store_def)
  qed (simp add: abs_store_def)
qed

lemma status_refines_poll:
  assumes "own_chans s" "CheckOcrStatusByID i s = (s', r, ok)"
  shows "poll_spec i (abs_store s) = (abs_store s', r, ok)"
proof (cases "RequestsTrack s i")
  case None
  with assms(2) show ?thesis by (simp add: CheckOcrStatusByID_def poll_spec_def abs_store_def)
next
  case (Some ch)
  show ?thesis
  proof (cases "chans s ch")
    case Nil
    with Some assms(2) show ?thesis
      by (simp add: CheckOcrStatusByID_def poll_spec_def abs_store_def)
  next
    case (Cons r0 rest)
    with Some assms(2) have s': "r = r0" "ok" 
      "s' = deleteRequestFromQueue i (s\<lparr>chans := (chans s)(ch := rest)\<rparr>)"
      by (simp_all add: CheckOcrStatusByID_def)
    have "poll_spec i (abs_store s) = ((abs_store s)(i := None), r0, True)"
      using Some Cons by (simp add: poll_spec_def abs_store_def [of s i])
    with s' abs_other_chan [OF assms(1) Some] show ?thesis by (simp add: abs_delete)
  qed
qed

lemma own_chans_delete: "own_chans s \<Longrightarrow> own_chans (deleteRequestFromQueue i s)"
  by (auto simp: own_chans_def ocr_table.lookup_del inj_on_def split: if_splits)

lemma own_chans_chans [simp]: "own_chans (s\<lparr>chans := c\<rparr>) \<longleftrightarrow> own_chans s"
  by (simp add: own_chans_def)

lemma own_chans_status: "own_chans s \<Longrightarrow> own_chans (fst (CheckOcrStatusByID i s))"
  by (simp add: CheckOcrStatusByID_def own_chans_delete split: option.splits list.splits)

lemma own_chans_add:
  assumes "own_chans s" "ch \<notin> ran (RequestsTrack s)"
  shows "own_chans (addNewOcrResultToQueue i ch s)"
  using assms by (auto simp: own_chans_def addNewOcrResultToQueue_def inj_on_def ran_def
      split: if_splits)

section \<open>Properties\<close>

text \<open>As long as no identifier is added while it is pending, the queue length that the
  schedulers and the shutdown read is the number of pending requests, after any sequence of
  insertions and deletions, and zero exactly when nothing is pending.\<close>

lemma queue_length_exact:
  assumes "fresh_ops ops {}" "card (pending_after ops {}) < 2 ^ 32"
  shows "unat (getQueueLen (run_ops addNewOcrResultToQueue deleteRequestFromQueue ops empty_store))
      = card (pending_after ops {})
    \<and> dom (RequestsTrack (run_ops addNewOcrResultToQueue deleteRequestFromQueue ops empty_store))
      = pending_after ops {}"
proof -
  have dom: "dom (RequestsTrack empty_store) = {}" by (simp add: empty_store_def)
  show ?thesis
    using ocr_table.len_run_ops [OF store_inv_empty, of ops] ocr_table.run_ops_spec [OF store_inv_empty, of ops]
      assms by (simp add: dom)
qed

text \<open>Adding an identifier that is pending already leaves the counter one above the size of the
  table, and no later deletion of that identifier brings it back.\<close>

lemma duplicate_request_drift:
  assumes "store_inv s" "RequestsTrack s i = Some ch0"
  shows "RequestTrackLength (deleteRequestFromQueue i (deleteRequestFromQueue i (addNewOcrResultToQueue i ch s)))
    = of_nat (card (dom (RequestsTrack (deleteRequestFromQueue i (deleteRequestFromQueue i
        (addNewOcrResultToQueue i ch s)))))) + 1"
proof -
  let ?D = "dom (RequestsTrack s)"
  have "i \<in> ?D" "finite ?D" using assms by (auto simp: store_inv_def)
  then have "card ?D = Suc (card (?D - {i}))" by (metis card_Suc_Diff1)
  with assms show ?thesis
    by (simp add: store_inv_def deleteRequestFromQueue_def addNewOcrResultToQueue_def insert_absorb)
qed

text \<open>C6: The poll of a client implements the abstract table of arrived results: it answers
  processing until a result is there, hands the oldest result out and forgets the request
  with it, and knows nothing of other identifiers; other requests are not touched.\<close>

theorem status_check_refines_poll:
  assumes "own_chans s"
  shows "(case CheckOcrStatusByID i s of (s', r, ok) \<Rightarrow> poll_spec i (abs_store s) = (abs_store s', r, ok) \<and> own_chans s')"
proof -
  obtain s' r ok where c: "CheckOcrStatusByID i s = (s', r, ok)" by (metis prod_cases3)
  with status_refines_poll [OF assms c] own_chans_status [OF assms, of i] show ?thesis by simp
qed

theorem status_check_refines_poll_witness:
  "poll_spec ''a'' (abs_store (send_result 0 \<lparr>Text = ''t'', Status = ''done'', ID = ''a''\<rparr>
      (addNewOcrResultToQueue ''a'' 0 empty_store)))
    = (abs_store (fst (CheckOcrStatusByID ''a'' (send_result 0 \<lparr>Text = ''t'', Status = ''done'', ID = ''a''\<rparr>
        (addNewOcrResultToQueue ''a'' 0 empty_store)))), \<lparr>Text = ''t'', Status = ''done'', ID = ''a''\<rparr>, True)"
proof -
  let ?s = "send_result 0 \<lparr>Text = ''t'', Status = ''done'', ID = ''a''\<rparr> (addNewOcrResultToQueue ''a'' 0 empty_store)"
  have "own_chans ?s"
    by (simp add: own_chans_def send_result_def addNewOcrResultToQueue_def empty_store_def)
  from status_check_refines_poll [OF this, of "''a''"] show ?thesis
    by (simp add: CheckOcrStatusByID_def send_result_def addNewOcrResultToQueue_def empty_store_def)
qed

end
