(* ===== verification/Ocr_Client.thy ===== *)
theory Ocr_Client
  imports Ocr_Config Ocr_Amqp Ocr_Store
begin

text \<open>
  ocr_rpc_client.go and ocr_postback_client.go: the client that sends a request to the
  workers, waits for the result or leaves it to a goroutine, and delivers it to the reply
  address. What the rest of the system sends to the callback queue before the client stops
  waiting is an argument of DecodeImage, a function of the message published.

  DecodeImage may not return: with reliable publishing its deferred confirmDelivery waits
  for a confirmation without a limit. Not returning is the result None.
\<close>

section \<open>Checking and completing a request\<close>

text \<open>A reply address has to be an absolute HTTP URL and makes the request deferred.\<close>

definition check_reply_to :: "os_env \<Rightarrow> OcrRequest \<Rightarrow> string + OcrRequest" where
  "check_reply_to env r =
     (if ReplyTo r = [] then Inr r
      else (case checkURLForReplyTo env (ReplyTo r) of
              (_, Some e) \<Rightarrow> Inl e
            | (validURL, None) \<Rightarrow> Inr (r\<lparr>ReplyTo := validURL, Deferred := True\<rparr>)))"

definition prio_of :: "uint8 go_map option \<Rightarrow> string \<Rightarrow> uint8 option" where
  "prio_of m k = (case m of None \<Rightarrow> None | Some ps \<Rightarrow> map_of ps k)"

definition message_priority :: "RabbitConfig \<Rightarrow> OcrRequest \<Rightarrow> uint8" where
  "message_priority rc r =
     (if DocType r = [] then 1
      else (case prio_of (rc_QueuePrio rc) (DocType r) of
              Some val \<Rightarrow> val
            | None \<Rightarrow> (case prio_of (rc_QueuePrio rc) ''standard'' of Some val \<Rightarrow> val | None \<Rightarrow> 0)))"

definition set_timeout :: "RabbitConfig \<Rightarrow> OcrRequest \<Rightarrow> OcrRequest" where
  "set_timeout rc r =
     (if rc_MaximalResponseCacheTimeout rc \<le> TimeOut r \<or> TimeOut r = 0
      then r\<lparr>TimeOut := rc_ResponseCacheTimeout rc\<rparr> else r)"

text \<open>The image as bytes: given, decoded, or downloaded.\<close>

definition fetch_image :: "os_env \<Rightarrow> OcrRequest \<Rightarrow> OcrRequest \<times> go_error" where
  "fetch_image env r =
     (if ImgBytes r \<noteq> None then (r, None)
      else if hasBase64 r then decodeBase64 r
      else downloadImgUrl env r)"

section \<open>Subscribing to the callback queue and receiving from it\<close>

definition subscribeCallbackQueue ::
  "broker \<Rightarrow> RabbitConfig \<Rightarrow> string \<Rightarrow> string \<Rightarrow> amqp_trace \<Rightarrow> amqp_trace \<times> string \<times> go_error" where
  "subscribeCallbackQueue br rc tag correlationID tr =
     (let queueArgs = Some [(''x-max-priority'', 10)] in
      case amqp_do br (QueueDeclare correlationID False True True False queueArgs) tr of
        (tr1, Some e) \<Rightarrow> (tr1, [], Some e)
      | (tr1, None) \<Rightarrow>
          (let callbackQueue = br_queue br tr1 correlationID in
           case amqp_all br
                  [QueueBind callbackQueue callbackQueue (rc_Exchange rc) False queueArgs,
                   Consume callbackQueue tag True True False False queueArgs] tr1 of
             (tr2, Some e) \<Rightarrow> (tr2, [], Some e)
           | (tr2, None) \<Rightarrow> (tr2, callbackQueue, None)))"

text \<open>
  handleRPCResponse: the first delivery with the right identifier; an undecodable body is
  only logged, and what was decoded of it is the result. The deferred Close comes last.
\<close>

fun handleRPCResponse ::
  "broker \<Rightarrow> delivery list \<Rightarrow> string \<Rightarrow> nat \<Rightarrow> store \<times> amqp_trace \<Rightarrow> store \<times> amqp_trace" where
  "handleRPCResponse br [] correlationID ch s = s"
| "handleRPCResponse br (d # ds) correlationID ch s =
     (if d_CorrelationId d = correlationID then
        (let ocrResult = fst (unmarshal decode_result (d_Body d) zero_result) in
         case s of (st, tr) \<Rightarrow>
           (send_result ch (ocrResult\<lparr>ID := correlationID\<rparr>) st, fst (amqp_do br CloseConn tr)))
      else handleRPCResponse br ds correlationID ch s)"

section \<open>DecodeImage\<close>

text \<open>The goroutine a deferred request leaves behind.\<close>

datatype goroutine = NoGoroutine | DecayAfter int string | PostBack string string

type_synonym client_state = "store \<times> amqp_trace"

type_synonym decoded =
  "client_state \<times> OcrRequest \<times> (OcrResult \<times> int \<times> go_error) option \<times> goroutine"

text \<open>Leaving the function after the deferred confirmDelivery was registered.\<close>

definition confirmDelivery :: "broker \<Rightarrow> RabbitConfig \<Rightarrow> amqp_trace \<Rightarrow> 'a \<Rightarrow> 'a option" where
  "confirmDelivery br rc tr out =
     (if rc_Reliable rc \<and> br_confirm br tr = NoConfirmation then None else Some out)"

text \<open>The part from the publication on.\<close>

definition client_publish ::
  "broker \<Rightarrow> (string \<Rightarrow> publishing \<Rightarrow> delivery list) \<Rightarrow> RabbitConfig \<Rightarrow> nat \<Rightarrow> string \<Rightarrow> string
     \<Rightarrow> uint8 \<Rightarrow> OcrRequest \<Rightarrow> client_state \<Rightarrow> decoded" where
  "client_publish br peer rc ch callbackQueue correlationID prio r0 s =
     (case s of (st, tr) \<Rightarrow>
      case nextPreprocessor r0 (rc_RoutingKey rc) of (r, routingKey) \<Rightarrow>
      let pub = \<lparr>p_ContentType = ''application/json'', p_Body = Some (encode_request r),
                 p_DeliveryMode = Transient, p_Priority = prio, p_ReplyTo = callbackQueue,
                 p_CorrelationId = correlationID\<rparr> in
      case amqp_do br (Publish (rc_Exchange rc) routingKey False False pub) tr of
        (tr1, Some _) \<Rightarrow> ((st, tr1), r, confirmDelivery br rc tr1 (zero_result, 500, None), NoGoroutine)
      | (tr1, None) \<Rightarrow>
          if Deferred r then
            ((addNewOcrResultToQueue (RequestID r) ch st, tr1), r,
             confirmDelivery br rc tr1 (zero_result\<lparr>Status := ''processing'', ID := RequestID r\<rparr>, 200, None),
             if ReplyTo r = [] then DecayAfter (seconds (TimeOut r + 10)) (RequestID r)
             else PostBack (RequestID r) (ReplyTo r))
          else
            (case handleRPCResponse br (peer routingKey pub) correlationID ch (st, tr1) of (st2, tr2) \<Rightarrow>
             case chans st2 ch of
               ocrResult # rest \<Rightarrow>
                 ((st2\<lparr>chans := (chans st2)(ch := rest)\<rparr>, tr2), r,
                  confirmDelivery br rc tr1 (ocrResult, 200, None), NoGoroutine)
             | [] \<Rightarrow>
                 ((st2, tr2), r,
                  confirmDelivery br rc tr1 (zero_result, 500, Some ''timeout waiting for RPC response''),
                  NoGoroutine)))"

text \<open>The whole function; the channel ch is the one it makes.\<close>

definition DecodeImage ::
  "os_env \<Rightarrow> broker \<Rightarrow> (string \<Rightarrow> publishing \<Rightarrow> delivery list) \<Rightarrow> RabbitConfig \<Rightarrow> string \<Rightarrow> nat
     \<Rightarrow> OcrRequest \<Rightarrow> client_state \<Rightarrow> decoded outcome" where
  "DecodeImage env br peer rc tag ch r s =
     (case s of (st, tr) \<Rightarrow>
      let failed = (\<lambda>tr r res e. Ret ((st, tr), r, Some (res, 500, Some e), NoGoroutine)) in
      case check_reply_to env r of
        Inl e \<Rightarrow> Ret (s, r, Some (zero_result, 400, Some e), NoGoroutine)
      | Inr r1 \<Rightarrow>
      let prio = message_priority rc r1; r2 = set_timeout rc r1; correlationID = RequestID r2 in
      case env_url_parse env (rc_AmqpURI rc) of
        Inl _ \<Rightarrow> Panic ''runtime error: invalid memory address or nil pointer dereference''
      | Inr urlToLog \<Rightarrow>
      (case amqp_do br (Dial (rc_AmqpURI rc)) tr of
        (tr1, Some e) \<Rightarrow>
          failed tr1 r2 (zero_result\<lparr>Text := ''Internal Server Error: message broker is not reachable'',
            Status := ''error''\<rparr>) e
      | (tr1, None) \<Rightarrow>
      (case amqp_all br [OpenChannel,
              ExchangeDeclare (rc_Exchange rc) (rc_ExchangeType rc) True False False False] tr1 of
        (tr2, Some e) \<Rightarrow> failed tr2 r2 zero_result e
      | (tr2, None) \<Rightarrow>
      (case subscribeCallbackQueue br rc tag correlationID tr2 of
        (tr3, _, Some e) \<Rightarrow> failed tr3 r2 zero_result e
      | (tr3, callbackQueue, None) \<Rightarrow>
      (case (if rc_Reliable rc then amqp_do br (ConfirmMode False) tr3 else (tr3, None)) of
        (tr4, Some e) \<Rightarrow> failed tr4 r2 zero_result e
      | (tr4, None) \<Rightarrow>
      (case fetch_image env r2 of
        (r3, Some e) \<Rightarrow>
          Ret ((st, tr4), r3, confirmDelivery br rc tr4 (zero_result, 500, Some e), NoGoroutine)
      | (r3, None) \<Rightarrow>
          Ret (client_publish br peer rc ch callbackQueue correlationID prio r3 (st, tr4))))))))"

section \<open>The goroutine of a polled request\<close>

text \<open>
  One turn every five seconds. The clock gives the nanoseconds at the start of a turn, and
  others is what the rest of the program has done to the table since the turn before; the
  timer fires once. The loop may run forever, so its result is an option.
\<close>

partial_function (option) decay_loop ::
  "(nat \<Rightarrow> int) \<Rightarrow> (nat \<Rightarrow> store \<Rightarrow> store) \<Rightarrow> int \<Rightarrow> string \<Rightarrow> nat \<Rightarrow> bool \<Rightarrow> store \<Rightarrow> store option" where
  "decay_loop clock others deadline requestID k timer s =
     (let s1 = others k s in
      if timer \<and> deadline \<le> clock k then
        if RequestsTrack s1 requestID \<noteq> None then Some (deleteRequestFromQueue requestID s1)
        else decay_loop clock others deadline requestID (Suc k) False s1
      else if RequestsTrack s1 requestID = None then Some s1
      else decay_loop clock others deadline requestID (Suc k) timer s1)"

section \<open>Delivery to the reply address\<close>

text \<open>
  postOcrRequest, with the reply of the other side to an attempt as a parameter. A URL that
  does not parse is only logged, and the nil request is used after that. Any response at
  all counts as a delivery.
\<close>

definition postOcrRequest ::
  "os_env \<Rightarrow> (uint \<Rightarrow> string \<Rightarrow> body \<Rightarrow> http_reply) \<Rightarrow> OcrResult \<Rightarrow> string \<Rightarrow> uint \<Rightarrow> go_error outcome" where
  "postOcrRequest env post ocrResult replyToAddress numTry =
     (case env_url_parse env replyToAddress of
        Inl _ \<Rightarrow> Panic ''runtime error: invalid memory address or nil pointer dereference''
      | Inr _ \<Rightarrow>
          (case post numTry replyToAddress (Some (encode_result ocrResult)) of
             HttpFail e \<Rightarrow> Ret (Some e)
           | HttpBroken st part e \<Rightarrow> Ret (Some e)
           | HttpOk st body \<Rightarrow> Ret None))"

definition numRetries :: uint where
  "numRetries = 3"

text \<open>The attempts made, with the error of each.\<close>

function post_loop ::
  "os_env \<Rightarrow> (uint \<Rightarrow> string \<Rightarrow> body \<Rightarrow> http_reply) \<Rightarrow> OcrResult \<Rightarrow> string \<Rightarrow> uint
     \<Rightarrow> (uint \<times> go_error) list outcome" where
  "post_loop env post r replyTo tryCounter =
     bind_outcome (postOcrRequest env post r replyTo tryCounter)
       (\<lambda>err. case err of
          None \<Rightarrow> Ret [(tryCounter, None)]
        | Some e \<Rightarrow>
            if tryCounter + 1 \<le> numRetries then
              bind_outcome (post_loop env post r replyTo (tryCounter + 1))
                (\<lambda>rest. Ret ((tryCounter, Some e) # rest))
            else Ret [(tryCounter, Some e)])"
  by pat_completeness auto

termination
proof (relation "measure (\<lambda>(env, post, r, replyTo, t). unat (numRetries - t))", goal_cases)
  case (2 env post r replyTo t e)
  then have "t \<noteq> numRetries" by (auto simp: numRetries_def)
  then have "numRetries - t \<noteq> 0" by simp
  then have "unat (numRetries - t - 1) < unat (numRetries - t)" by (rule measure_unat)
  then show ?case by (simp add: diff_diff_add)
qed simp

text \<open>rpcResponseTimeout is a duration already; the code multiplies it by a second.\<close>

definition rpcResponseTimeout :: uint64 where
  "rpcResponseTimeout = 1000000000 * 20"

definition postback_timeout :: int where
  "postback_timeout = sint (rpcResponseTimeout * 1000000000)"

text \<open>
  The goroutine: a result from the channel, or the timer, and in the end the deletion. Its
  second result is the attempts made.
\<close>

definition postback ::
  "os_env \<Rightarrow> (uint \<Rightarrow> string \<Rightarrow> body \<Rightarrow> http_reply) \<Rightarrow> string \<Rightarrow> string \<Rightarrow> nat \<Rightarrow> bool \<Rightarrow> store
     \<Rightarrow> (store \<times> (uint \<times> go_error) list) outcome" where
  "postback env post requestID replyTo ch timed_out s =
     (case (timed_out, chans s ch) of
        (False, ocrResult # rest) \<Rightarrow>
          bind_outcome (post_loop env post ocrResult replyTo 1)
            (\<lambda>tries. Ret (deleteRequestFromQueue requestID (s\<lparr>chans := (chans s)(ch := rest)\<rparr>), tries))
      | _ \<Rightarrow>
          bind_outcome (postOcrRequest env post \<lparr>Text = [], Status = ''error'', ID = requestID\<rparr> replyTo 1)
            (\<lambda>err. Ret (deleteRequestFromQueue requestID s, [(1, err)])))"

section \<open>Facts about DecodeImage\<close>

lemma check_reply_to_keeps:
  assumes "check_reply_to env r = Inr r1"
  shows "r1 = r \<and> ReplyTo r = [] \<or> r1 = r\<lparr>ReplyTo := fst (checkURLForReplyTo env (ReplyTo r)), Deferred := True\<rparr>
     \<and> ReplyTo r \<noteq> [] \<and> snd (checkURLForReplyTo env (ReplyTo r)) = None"
  using assms by (auto simp: check_reply_to_def split: if_splits prod.splits option.splits)

lemma set_timeout_keeps [simp]:
  "RequestID (set_timeout rc r) = RequestID r" "Deferred (set_timeout rc r) = Deferred r"
  "ReplyTo (set_timeout rc r) = ReplyTo r" "ImgBytes (set_timeout rc r) = ImgBytes r"
  "ImgBase64 (set_timeout rc r) = ImgBase64 r" "ImgUrl (set_timeout rc r) = ImgUrl r"
  "chain_of (set_timeout rc r) = chain_of r" "wf_request (set_timeout rc r) = wf_request r"
  "EngineType (set_timeout rc r) = EngineType r" "EngineArgs (set_timeout rc r) = EngineArgs r"
  by (simp_all add: set_timeout_def chain_of_def wf_request_def)

lemma fetch_imageE:
  assumes "fetch_image env r = (r', None)"
  obtains (given) c where "ImgBytes r = Some c" "r' = r"
  | (decoded) c where "ImgBytes r = None" "ImgBase64 r \<noteq> []" "b64_decode (ImgBase64 r) = Some c"
      "r' = r\<lparr>ImgBytes := Some c, ImgBase64 := []\<rparr>"
  | (downloaded) st c where "ImgBytes r = None" "ImgBase64 r = []" "env_http env (ImgUrl r) = HttpOk st c"
      "r' = r\<lparr>ImgBytes := Some c, ImgUrl := []\<rparr>"
  using assms
  by (auto simp: fetch_image_def hasBase64_def decodeBase64_def downloadImgUrl_def url2bytes_def
      split: if_splits option.splits http_reply.splits)

lemma fetch_image_keeps:
  assumes "fetch_image env r = (r', e)"
  shows "RequestID r' = RequestID r" "Deferred r' = Deferred r" "ReplyTo r' = ReplyTo r"
    "TimeOut r' = TimeOut r" "chain_of r' = chain_of r" "wf_request r' = wf_request r"
    "EngineType r' = EngineType r" "EngineArgs r' = EngineArgs r" "e = None \<Longrightarrow> ImgBytes r' \<noteq> None"
  using assms
  by (auto simp: fetch_image_def hasBase64_def decodeBase64_def downloadImgUrl_def url2bytes_def
      chain_of_def wf_request_def split: if_splits option.splits http_reply.splits)

lemma published_none:
  "\<forall>c \<in> set cs. published [c] = [] \<Longrightarrow> published cs = []"
proof (induction cs)
  case (Cons c cs)
  have "published (c # cs) = published [c] @ published cs" by (cases c) simp_all
  with Cons show ?case by simp
qed simp

lemma amqp_all_published:
  assumes "amqp_all br cs tr = (tr', e)" "\<forall>c \<in> set cs. published [c] = []"
  shows "published tr' = published tr"
proof -
  from amqp_all_prefix [OF assms(1)] obtain n where tr': "tr' = tr @ take n cs" by blast
  from assms(2) have "published (take n cs) = []" by (meson in_set_takeD published_none)
  with tr' show ?thesis by simp
qed

lemma subscribe_published:
  assumes "subscribeCallbackQueue br rc tag c tr = (tr', q, e)"
  shows "published tr' = published tr"
proof -
  have "published (tr @ [QueueDeclare c False True True False a]) = published tr" for a by simp
  with assms show ?thesis
    using amqp_all_published [of br "[_, _]"]
    by (auto simp: subscribeCallbackQueue_def amqp_do_def Let_def split: option.splits prod.splits)
qed

lemma subscribe_receives:
  assumes "subscribeCallbackQueue br rc tag c tr = (tr', q, None)"
  shows "receives tr' (rc_Exchange rc) q True"
proof -
  from assms obtain tr1 where "tr' = tr1 @ [QueueBind q q (rc_Exchange rc) False (Some [(''x-max-priority'', 10)]),
      Consume q tag True True False False (Some [(''x-max-priority'', 10)])]"
    by (auto simp: subscribeCallbackQueue_def Let_def split: option.splits prod.splits dest!: amqp_all_ok)
  then show ?thesis by (auto simp: receives_def)
qed

text \<open>Before the publication nothing but the request is changed, and failures say so.\<close>

lemma DecodeImageE:
  assumes "DecodeImage env br peer rc tag ch r (st, tr) = Ret ((s', r', out, g))"
  obtains (bad_reply) e where "check_reply_to env r = Inl e" "s' = (st, tr)" "r' = r"
      "out = Some (zero_result, 400, Some e)" "g = NoGoroutine"
  | (failed) tr' res e where "s' = (st, tr')" "published tr' = published tr" "g = NoGoroutine"
      "out = Some (res, 500, Some e)" 
  | (no_image) tr4 r1 e where "s' = (st, tr4)" "published tr4 = published tr" "g = NoGoroutine"
      "check_reply_to env r = Inr r1" "fetch_image env (set_timeout rc r1) = (r', Some e)"
      "out = confirmDelivery br rc tr4 (zero_result, 500, Some e)"
  | (sent) r1 r3 cq tr4 where "check_reply_to env r = Inr r1"
      "fetch_image env (set_timeout rc r1) = (r3, None)" "published tr4 = published tr"
      "(s', r', out, g) = client_publish br peer rc ch cq (RequestID r) (message_priority rc r1) r3 (st, tr4)"
      "receives tr4 (rc_Exchange rc) cq True"
proof (cases "check_reply_to env r")
  case (Inl e)
  from assms Inl have "s' = (st, tr)" "r' = r" "out = Some (zero_result, 400, Some e)" "g = NoGoroutine"
    by (simp_all add: DecodeImage_def)
  with Inl show thesis by (rule bad_reply)
next
  case (Inr r1)
  note rt = Inr
  have id: "RequestID r1 = RequestID r" using check_reply_to_keeps [OF rt] by auto
  from assms rt obtain u where u: "env_url_parse env (rc_AmqpURI rc) = Inr u"
    by (cases "env_url_parse env (rc_AmqpURI rc)") (auto simp: DecodeImage_def Let_def)
  obtain tr1 e1 where d: "amqp_do br (Dial (rc_AmqpURI rc)) tr = (tr1, e1)" by fastforce
  then have p1: "published tr1 = published tr" by (auto simp: amqp_do_def)
  obtain tr2 e2 where a: "amqp_all br [OpenChannel,
      ExchangeDeclare (rc_Exchange rc) (rc_ExchangeType rc) True False False False] tr1 = (tr2, e2)" by fastforce
  have p2: "published tr2 = published tr" using amqp_all_published [OF a] p1 by simp
  obtain tr3 cq e3 where q: "subscribeCallbackQueue br rc tag (RequestID r) tr2 = (tr3, cq, e3)"
    by (metis prod_cases3)
  then have p3: "published tr3 = published tr" using p2 subscribe_published by metis
  obtain tr4 e4 where c: "(if rc_Reliable rc then amqp_do br (ConfirmMode False) tr3 else (tr3, None)) = (tr4, e4)"
    by fastforce
  then have p4: "published tr4 = published tr" using p3 by (auto simp: amqp_do_def split: if_splits)
  obtain r3 e5 where f: "fetch_image env (set_timeout rc r1) = (r3, e5)" by fastforce
  consider e where "e1 = Some e" | e where "e1 = None" "e2 = Some e"
    | e where "e1 = None" "e2 = None" "e3 = Some e"
    | e where "e1 = None" "e2 = None" "e3 = None" "e4 = Some e"
    | e where "e1 = None" "e2 = None" "e3 = None" "e4 = None" "e5 = Some e"
    | "e1 = None" "e2 = None" "e3 = None" "e4 = None" "e5 = None" by (cases e1; cases e2; cases e3; cases e4; cases e5) auto
  then show thesis
  proof cases
    case 1
    with assms show thesis using p1 by (intro failed [of tr1]) (auto simp: DecodeImage_def rt u d Let_def)
  next
    case 2
    with assms show thesis using p2 by (intro failed [of tr2]) (auto simp: DecodeImage_def rt u d a Let_def)
  next
    case 3
    with assms show thesis using p3
      by (intro failed [of tr3]) (auto simp: DecodeImage_def rt u d a q id Let_def)
  next
    case 4
    with assms show thesis using p4
      by (intro failed [of tr4]) (auto simp: DecodeImage_def rt u d a q c id Let_def)
  next
    case 5
    with assms show thesis using p4 rt f
      by (intro no_image [of tr4 r1]) (auto simp: DecodeImage_def rt u d a q c f id Let_def)
  next
    case 6
    then have "receives tr4 (rc_Exchange rc) cq True"
      using subscribe_receives [of br rc tag _ tr2 tr3 cq] q c by (auto simp: amqp_do_def split: if_splits)
    with 6 assms show thesis using p4 rt f
      by (intro sent [of r1 r3 tr4 cq]) (auto simp: DecodeImage_def rt u d a q c f id Let_def)
  qed
qed

text \<open>What goes out, whatever comes of it.\<close>

definition request_message :: "RabbitConfig \<Rightarrow> uint8 \<Rightarrow> string \<Rightarrow> string \<Rightarrow> OcrRequest \<Rightarrow> string \<times> publishing" where
  "request_message rc prio q correlationID r =
     (snd (nextPreprocessor r (rc_RoutingKey rc)),
      \<lparr>p_ContentType = ''application/json'',
       p_Body = Some (encode_request (fst (nextPreprocessor r (rc_RoutingKey rc)))),
       p_DeliveryMode = Transient, p_Priority = prio, p_ReplyTo = q, p_CorrelationId = correlationID\<rparr>)"

lemma handleRPCResponse_match:
  "handleRPCResponse br ds c ch (st, tr) =
     (case find (\<lambda>d. d_CorrelationId d = c) ds of
        None \<Rightarrow> (st, tr)
      | Some d \<Rightarrow>
          (send_result ch ((fst (unmarshal decode_result (d_Body d) zero_result))\<lparr>ID := c\<rparr>) st,
           tr @ [CloseConn]))"
  by (induction ds) (simp_all add: amqp_do_def Let_def)

lemma handleRPCResponse_trace: "\<exists>more. snd (handleRPCResponse br ds c ch s) = snd s @ more"
  by (induction ds) (auto simp: amqp_do_def Let_def split: prod.splits)

lemma client_publish_trace:
  assumes "(s', r', out, g) = client_publish br peer rc ch q c prio r (st, tr)"
  shows "\<exists>more. snd s' = tr @ more"
proof -
  have "\<exists>more. snd (handleRPCResponse br ds c ch (st, tr @ x)) = tr @ more" for ds x
    using handleRPCResponse_trace [of br ds c ch "(st, tr @ x)"] by auto
  then have "\<exists>more. s2 = tr @ more" if "handleRPCResponse br ds c ch (st, tr @ x) = (s1, s2)" for ds x s1 s2
    using that by (metis snd_conv)
  with assms show ?thesis
    by (auto simp: client_publish_def amqp_do_def Let_def split: prod.splits option.splits if_splits list.splits)
qed

lemma client_publish_message:
  assumes "(s', r', out, g) = client_publish br peer rc ch q c prio r (st, tr)"
  shows "published (snd s') = published tr @ [request_message rc prio q c r]"
    "r' = fst (nextPreprocessor r (rc_RoutingKey rc))"
  using assms
  by (auto simp: client_publish_def request_message_def amqp_do_def handleRPCResponse_match Let_def
      split: prod.splits option.splits if_splits list.splits)

lemma send_result_chans: "chans (send_result ch r s) ch = chans s ch @ [r]"
  by (simp add: send_result_def)

text \<open>A request that is not deferred and was published: the answer, or the timeout.\<close>

lemma client_publish_waits:
  assumes "(s', r', out, g) = client_publish br peer rc ch q c prio r (st, tr)"
    "\<not> Deferred r" "chans st ch = []" "\<not> rc_Reliable rc"
    "br_answer br tr (Publish (rc_Exchange rc) (fst m) False False (snd m)) = None"
    "m = request_message rc prio q c r"
  shows "RequestsTrack (fst s') = RequestsTrack st" "g = NoGoroutine"
    "out = Some (case find (\<lambda>d. d_CorrelationId d = c) (peer (fst m) (snd m)) of
        None \<Rightarrow> (zero_result, 500, Some ''timeout waiting for RPC response'')
      | Some d \<Rightarrow> ((fst (unmarshal decode_result (d_Body d) zero_result))\<lparr>ID := c\<rparr>, 200, None))"
proof -
  define n where "n = nextPreprocessor r (rc_RoutingKey rc)"
  have d: "\<not> Deferred (fst n)" using assms(2) by (simp add: n_def)
  have m: "m = (snd n, \<lparr>p_ContentType = ''application/json'', p_Body = Some (encode_request (fst n)),
       p_DeliveryMode = Transient, p_Priority = prio, p_ReplyTo = q, p_CorrelationId = c\<rparr>)"
    by (simp add: assms(6) request_message_def n_def)
  have "RequestsTrack (fst s') = RequestsTrack st \<and> g = NoGoroutine \<and>
    out = Some (case find (\<lambda>d. d_CorrelationId d = c) (peer (fst m) (snd m)) of
        None \<Rightarrow> (zero_result, 500, Some ''timeout waiting for RPC response'')
      | Some d \<Rightarrow> ((fst (unmarshal decode_result (d_Body d) zero_result))\<lparr>ID := c\<rparr>, 200, None))"
    using assms(1,3,4,5) d
    by (cases "find (\<lambda>d. d_CorrelationId d = c) (peer (fst m) (snd m))")
      (simp_all add: client_publish_def amqp_do_def handleRPCResponse_match send_result_chans
        confirmDelivery_def m n_def Let_def case_prod_beta send_result_def)
  then show "RequestsTrack (fst s') = RequestsTrack st" "g = NoGoroutine"
    "out = Some (case find (\<lambda>d. d_CorrelationId d = c) (peer (fst m) (snd m)) of
        None \<Rightarrow> (zero_result, 500, Some ''timeout waiting for RPC response'')
      | Some d \<Rightarrow> ((fst (unmarshal decode_result (d_Body d) zero_result))\<lparr>ID := c\<rparr>, 200, None))"
    by simp_all
qed

lemma client_publish_deferred:
  assumes "(s', r', out, g) = client_publish br peer rc ch q c prio r (st, tr)"
    "Deferred r" "\<not> rc_Reliable rc"
    "br_answer br tr (Publish (rc_Exchange rc) (fst m) False False (snd m)) = None"
    "m = request_message rc prio q c r"
  shows "fst s' = addNewOcrResultToQueue (RequestID r) ch st"
    "out = Some (zero_result\<lparr>Status := ''processing'', ID := RequestID r\<rparr>, 200, None)"
    "g = (if ReplyTo r = [] then DecayAfter (seconds (TimeOut r + 10)) (RequestID r)
          else PostBack (RequestID r) (ReplyTo r))"
proof -
  have d: "Deferred (fst (nextPreprocessor r (rc_RoutingKey rc)))" using assms(2) by simp
  have "client_publish br peer rc ch q c prio r (st, tr) =
    ((addNewOcrResultToQueue (RequestID r) ch st, tr @ [Publish (rc_Exchange rc) (fst m) False False (snd m)]),
     fst (nextPreprocessor r (rc_RoutingKey rc)),
     Some (zero_result\<lparr>Status := ''processing'', ID := RequestID r\<rparr>, 200, None),
     if ReplyTo r = [] then DecayAfter (seconds (TimeOut r + 10)) (RequestID r)
     else PostBack (RequestID r) (ReplyTo r))"
    using assms(3,4) d
    by (simp add: client_publish_def amqp_do_def confirmDelivery_def assms(5) request_message_def Let_def
        case_prod_beta)
  with assms(1) show "fst s' = addNewOcrResultToQueue (RequestID r) ch st"
    "out = Some (zero_result\<lparr>Status := ''processing'', ID := RequestID r\<rparr>, 200, None)"
    "g = (if ReplyTo r = [] then DecayAfter (seconds (TimeOut r + 10)) (RequestID r)
          else PostBack (RequestID r) (ReplyTo r))" by simp_all
qed

text \<open>The table only changes for a request that is deferred, and only by an insertion.\<close>

lemma client_publish_table:
  assumes "(s', r', out, g) = client_publish br peer rc ch q c prio r (st, tr)"
  shows "RequestsTrack (fst s') = RequestsTrack st \<and> g = NoGoroutine \<or>
    Deferred r \<and> fst s' = addNewOcrResultToQueue (RequestID r) ch st \<and> g \<noteq> NoGoroutine"
proof -
  have fr: "Deferred (fst (nextPreprocessor r (rc_RoutingKey rc))) = Deferred r"
    "RequestID (fst (nextPreprocessor r (rc_RoutingKey rc))) = RequestID r" by simp_all
  show ?thesis using assms fr
    by (auto simp: client_publish_def amqp_do_def handleRPCResponse_match send_result_def Let_def case_prod_beta
        split: option.splits if_splits list.splits)
qed

section \<open>Deliveries to the reply address\<close>

declare post_loop.simps [simp del]

definition reachable_reply :: "os_env \<Rightarrow> string \<Rightarrow> bool" where
  "reachable_reply env replyTo \<longleftrightarrow> (\<exists>u. env_url_parse env replyTo = Inr u)"

definition post_error :: "(uint \<Rightarrow> string \<Rightarrow> body \<Rightarrow> http_reply) \<Rightarrow> OcrResult \<Rightarrow> string \<Rightarrow> uint \<Rightarrow> go_error" where
  "post_error post r replyTo n =
     (case post n replyTo (Some (encode_result r)) of
        HttpFail e \<Rightarrow> Some e | HttpBroken st part e \<Rightarrow> Some e | HttpOk st b \<Rightarrow> None)"

lemma postOcrRequest_error:
  "reachable_reply env replyTo \<Longrightarrow> postOcrRequest env post r replyTo n = Ret (post_error post r replyTo n)"
  by (auto simp: reachable_reply_def postOcrRequest_def post_error_def split: http_reply.splits)

text \<open>The attempts of the loop written out: up to three, the last one the first that succeeds.\<close>

definition post_attempts :: "(uint \<Rightarrow> string \<Rightarrow> body \<Rightarrow> http_reply) \<Rightarrow> OcrResult \<Rightarrow> string \<Rightarrow> (uint \<times> go_error) list" where
  "post_attempts post r replyTo =
     (let e = post_error post r replyTo in
      if e 1 = None then [(1, None)]
      else if e 2 = None then [(1, e 1), (2, None)]
      else [(1, e 1), (2, e 2), (3, e 3)])"

lemma post_loop_attempts:
  assumes "reachable_reply env replyTo"
  shows "post_loop env post r replyTo 1 = Ret (post_attempts post r replyTo)"
  by (subst post_loop.simps, subst post_loop.simps, subst post_loop.simps)
    (auto simp: postOcrRequest_error [OF assms] post_attempts_def numRetries_def Let_def split: option.splits)

lemma postback_deletes:
  assumes "reachable_reply env replyTo"
  obtains s' tries where "postback env post requestID replyTo ch timed_out s = Ret (s', tries)"
    "RequestsTrack s' = (RequestsTrack s)(requestID := None)" "tries \<noteq> []" "length tries \<le> 3"
proof (cases "\<not> timed_out \<and> chans s ch \<noteq> []")
  case True
  then obtain r rest where "\<not> timed_out" "chans s ch = r # rest" by (cases "chans s ch") auto
  with post_loop_attempts [OF assms, of post r] show thesis
    by (intro that [of "deleteRequestFromQueue requestID (s\<lparr>chans := (chans s)(ch := rest)\<rparr>)"
          "post_attempts post r replyTo"])
      (auto simp: postback_def ocr_table.lookup_del post_attempts_def Let_def)
next
  case False
  then show thesis using postOcrRequest_error [OF assms]
    by (intro that [of "deleteRequestFromQueue requestID s"
          "[(1, post_error post \<lparr>Text = [], Status = ''error'', ID = requestID\<rparr> replyTo 1)]"])
      (auto simp: postback_def ocr_table.lookup_del split: list.splits bool.splits)
qed

lemma postback_timeout_value: "postback_timeout = 1553255926290448384"
  by (simp add: postback_timeout_def rpcResponseTimeout_def)

section \<open>The decay of a polled request\<close>

lemma decay_absent:
  assumes "\<And>k s. RequestsTrack s i = None \<Longrightarrow> RequestsTrack (others k s) i = None"
    "RequestsTrack s i = None"
  shows "decay_loop clock others deadline i k False s = Some (others k s)"
  by (subst decay_loop.simps) (simp add: assms)

lemma decay_ends_from:
  assumes others: "\<And>k s. RequestsTrack s i = None \<Longrightarrow> RequestsTrack (others k s) i = None"
    and clock: "\<And>k. clock k + 5000000000 \<le> clock (Suc k)"
  shows "\<exists>s'. decay_loop clock others deadline i k True s = Some s' \<and> RequestsTrack s' i = None"
proof (induction "nat (deadline - clock k)" arbitrary: k s rule: less_induct)
  case less
  let ?s1 = "others k s"
  show ?case
  proof (cases "deadline \<le> clock k")
    case fired: True
    show ?thesis
    proof (cases "RequestsTrack ?s1 i")
      case None
      with fired others decay_absent [of i others ?s1 clock deadline "Suc k"] show ?thesis
        by (subst decay_loop.simps) simp
    next
      case (Some ch)
      with fired show ?thesis by (subst decay_loop.simps) (simp add: ocr_table.lookup_del)
    qed
  next
    case waiting: False
    show ?thesis
    proof (cases "RequestsTrack ?s1 i")
      case None
      with waiting show ?thesis by (subst decay_loop.simps) simp
    next
      case (Some ch)
      have "nat (deadline - clock (Suc k)) < nat (deadline - clock k)" using waiting clock [of k] by simp
      from less.hyps [OF this, of ?s1] waiting Some show ?thesis by (subst decay_loop.simps) simp
    qed
  qed
qed

text \<open>Nobody else touching the table, an unclaimed request is deleted at the first turn past the deadline.\<close>

lemma decay_alone:
  assumes "RequestsTrack s i \<noteq> None" "deadline \<le> clock (k + n)" "\<forall>j < n. clock (k + j) < deadline"
  shows "decay_loop clock (\<lambda>_ s. s) deadline i k True s = Some (deleteRequestFromQueue i s)"
  using assms
proof (induction n arbitrary: k)
  case 0
  then show ?case by (subst decay_loop.simps) simp
next
  case (Suc n)
  have "clock k < deadline" using Suc.prems(3) by (metis add_0_right zero_less_Suc)
  moreover have "decay_loop clock (\<lambda>_ s. s) deadline i (Suc k) True s = Some (deleteRequestFromQueue i s)"
  proof (rule Suc.IH)
    show "\<forall>j<n. clock (Suc k + j) < deadline" using Suc.prems(3) by (metis Suc_less_eq add_Suc_shift)
  qed (use Suc.prems in simp_all)
  ultimately show ?case using Suc.prems(1) by (subst decay_loop.simps) auto
qed

text \<open>A broker that accepts every call.\<close>

definition obliging :: "broker \<Rightarrow> bool" where
  "obliging br \<longleftrightarrow> (\<forall>tr c. br_answer br tr c = None)"

lemma obliging_do [simp]: "obliging br \<Longrightarrow> amqp_do br c tr = (tr @ [c], None)"
  by (simp add: amqp_do_def obliging_def)

lemma obliging_all [simp]: "obliging br \<Longrightarrow> amqp_all br cs tr = (tr @ cs, None)"
  by (induction cs arbitrary: tr) (simp_all add: amqp_all.simps)

lemma DecodeImage_publishes:
  assumes "obliging br" "env_url_parse env (rc_AmqpURI rc) = Inr u"
    and "check_reply_to env r = Inr r1" "fetch_image env (set_timeout rc r1) = (r3, None)"
  shows "\<exists>cq tr4. published tr4 = published tr \<and> DecodeImage env br peer rc tag ch r (st, tr)
    = Ret (client_publish br peer rc ch cq (RequestID r) (message_priority rc r1) r3 (st, tr4))"
proof -
  have id: "RequestID r1 = RequestID r" using check_reply_to_keeps [OF assms(3)] by auto
  let ?tr2 = "tr @ [Dial (rc_AmqpURI rc), OpenChannel,
    ExchangeDeclare (rc_Exchange rc) (rc_ExchangeType rc) True False False False]"
  obtain tr3 cq where sub: "subscribeCallbackQueue br rc tag (RequestID r) ?tr2 = (tr3, cq, None)"
    using assms(1) by (simp add: subscribeCallbackQueue_def Let_def)
  then have "published tr3 = published tr" using subscribe_published by fastforce
  moreover define tr4 where "tr4 = (if rc_Reliable rc then tr3 @ [ConfirmMode False] else tr3)"
  ultimately have "published tr4 = published tr" by simp
  moreover have "DecodeImage env br peer rc tag ch r (st, tr)
    = Ret (client_publish br peer rc ch cq (RequestID r) (message_priority rc r1) r3 (st, tr4))"
    using sub assms(1,2) by (simp add: DecodeImage_def assms(3,4) id tr4_def Let_def)
  ultimately show ?thesis by blast
qed

section \<open>Properties\<close>

text \<open>A reply address that is not an absolute HTTP URL is refused with status 400 before anything
  else happens: no call to the broker, no entry in the table, the request as it was.\<close>

lemma bad_reply_address_refused:
  assumes "ReplyTo r \<noteq> []" "checkURLForReplyTo env (ReplyTo r) = (u, Some e)"
  shows "DecodeImage env br peer rc tag ch r s = Ret (s, r, Some (zero_result, 400, Some e), NoGoroutine)"
  using assms by (simp add: DecodeImage_def check_reply_to_def split: prod.splits)


text \<open>A request with an image in bytes and one preprocessor.\<close>

definition sample_request :: OcrRequest where
  "sample_request = zero_request\<lparr>ImgBytes := Some [1], EngineType := EngineMock, RequestID := ''i'',
     PreprocessorChain := Some [''identity'']\<rparr>"

lemma obliging_willing: "obliging willing_broker"
  by (simp add: obliging_def willing_broker_def)

lemma sample_decode_returns:
  obtains s' r' out g where "DecodeImage sample_env willing_broker peer DefaultTestConfig ''t'' 0 sample_request
      (empty_store, []) = Ret (s', r', out, g)" "published (snd s') \<noteq> []"
proof -
  have "check_reply_to sample_env sample_request = Inr sample_request"
    by (simp add: check_reply_to_def sample_request_def zero_request_def)
  moreover have "fetch_image sample_env (set_timeout DefaultTestConfig sample_request)
      = (set_timeout DefaultTestConfig sample_request, None)"
    by (simp add: fetch_image_def) (simp add: sample_request_def)
  moreover obtain u where "env_url_parse sample_env (rc_AmqpURI DefaultTestConfig) = Inr u"
    by (simp add: sample_env_def)
  ultimately obtain cq tr4 where d: "DecodeImage sample_env willing_broker peer DefaultTestConfig ''t'' 0 sample_request
      (empty_store, []) = Ret (client_publish willing_broker peer DefaultTestConfig 0 cq (RequestID sample_request)
        (message_priority DefaultTestConfig sample_request) (set_timeout DefaultTestConfig sample_request) (empty_store, tr4))"
    using DecodeImage_publishes [OF obliging_willing] by metis
  obtain s' r' out g where p: "(s', r', out, g) = client_publish willing_broker peer DefaultTestConfig 0 cq
      (RequestID sample_request) (message_priority DefaultTestConfig sample_request)
      (set_timeout DefaultTestConfig sample_request) (empty_store, tr4)" by (metis prod_cases4)
  from client_publish_message(1) [OF p] d p show thesis by (intro that [of s' r' out g]) simp_all
qed


text \<open>With a valid configuration the time limit of a request that has been sent is positive and not
  above the maximum, whatever the client asked for.\<close>

lemma sent_timeout_bounded:
  assumes "DecodeImage env br peer rc tag ch r (st, tr) = Ret (s', r', out, g)" "valid_config rc"
    and "0 < rc_ResponseCacheTimeout rc" "published (snd s') \<noteq> published tr"
  shows "0 < TimeOut r' \<and> TimeOut r' \<le> rc_MaximalResponseCacheTimeout rc"
  using assms(1)
proof (cases rule: DecodeImageE)
  case (sent r1 r3 cq tr4)
  have "TimeOut r' = TimeOut (set_timeout rc r1)"
    using client_publish_message(2) [OF sent(4)] fetch_image_keeps(4) [OF sent(2)] by simp
  with assms(2,3) show ?thesis
    by (auto simp: set_timeout_def valid_config_def not_le word_gt_0)
qed (use assms(4) in auto)

text \<open>With publisher confirms switched on, an image that cannot be fetched blocks the caller for
  ever if the broker confirms nothing before something was published: the deferred wait for a
  confirmation is registered before the image is fetched.\<close>

lemma reliable_decode_blocks:
  assumes "obliging br" "env_url_parse env (rc_AmqpURI rc) = Inr u" "rc_Reliable rc"
    and "\<And>tr. published tr = [] \<Longrightarrow> br_confirm br tr = NoConfirmation"
    and "check_reply_to env r = Inr r1" "fetch_image env (set_timeout rc r1) = (r3, Some e)"
  shows "\<exists>s'. DecodeImage env br peer rc tag ch r (st, []) = Ret (s', r3, None, NoGoroutine)"
proof -
  have id: "RequestID r1 = RequestID r" using check_reply_to_keeps [OF assms(5)] by auto
  let ?tr2 = "[Dial (rc_AmqpURI rc), OpenChannel,
    ExchangeDeclare (rc_Exchange rc) (rc_ExchangeType rc) True False False False]"
  obtain tr3 cq where sub: "subscribeCallbackQueue br rc tag (RequestID r) ?tr2 = (tr3, cq, None)"
    using assms(1) by (simp add: subscribeCallbackQueue_def Let_def)
  then have "published (tr3 @ [ConfirmMode False]) = []" using subscribe_published by fastforce
  then have "br_confirm br (tr3 @ [ConfirmMode False]) = NoConfirmation" by (rule assms(4))
  with sub assms(1,2,3) show ?thesis
    by (simp add: DecodeImage_def assms(5,6) id confirmDelivery_def Let_def)
qed

text \<open>The delivery of a result to the reply address makes one attempt after the other until one is
  answered, and at most three; an answer counts whatever its status code says.\<close>

lemma delivery_attempts:
  assumes "reachable_reply env replyTo"
  shows "post_loop env post r replyTo 1 = Ret
    (case (post_error post r replyTo 1, post_error post r replyTo 2) of
       (None, _) \<Rightarrow> [(1, None)]
     | (Some e1, None) \<Rightarrow> [(1, Some e1), (2, None)]
     | (Some e1, Some e2) \<Rightarrow> [(1, Some e1), (2, Some e2), (3, post_error post r replyTo 3)])
    \<and> (post 1 replyTo (Some (encode_result r)) = HttpOk 500 b \<longrightarrow> post_error post r replyTo 1 = None)"
  using post_loop_attempts [OF assms, of post r]
  by (auto simp: post_attempts_def post_error_def Let_def split: option.splits)

text \<open>C37: The goroutine of a request with a reply address ends, after at most three attempts, and takes
  the request out of the table, also when every attempt failed or no result came.\<close>

theorem postback_ends:
  assumes "reachable_reply env replyTo"
  shows "\<exists>s' tries. postback env post requestID replyTo ch timed_out s = Ret (s', tries)
    \<and> RequestsTrack s' = (RequestsTrack s)(requestID := None) \<and> length tries \<in> {1, 2, 3}"
proof -
  obtain s' tries where p: "postback env post requestID replyTo ch timed_out s = Ret (s', tries)"
    "RequestsTrack s' = (RequestsTrack s)(requestID := None)" "tries \<noteq> []" "length tries \<le> 3"
    by (rule postback_deletes [OF assms])
  moreover have "length tries = 1 \<or> length tries = 2 \<or> length tries = 3"
  proof -
    have "0 < length tries" using p(3) by simp
    with p(4) show ?thesis by presburger
  qed
  ultimately show ?thesis by auto
qed

theorem postback_ends_witness:
  "\<exists>s' tries. postback sample_env (\<lambda>n u b. HttpFail ''refused'') ''i'' ''http://h'' 0 False
      (send_result 0 zero_result (addNewOcrResultToQueue ''i'' 0 empty_store)) = Ret (s', tries)
    \<and> RequestsTrack s' ''i'' = None"
proof -
  have "reachable_reply sample_env ''http://h''" by (simp add: reachable_reply_def sample_env_def)
  from postback_ends [OF this, of "\<lambda>n u b. HttpFail ''refused''" "''i''" 0 False
      "send_result 0 zero_result (addNewOcrResultToQueue ''i'' 0 empty_store)"]
  show ?thesis by auto
qed

text \<open>The goroutine that lets a polled request decay ends, and leaves the request out of the table,
  if a turn takes at least five seconds and nobody adds an identifier that is gone again.\<close>

lemma decay_ends:
  assumes "\<And>k s. RequestsTrack s i = None \<Longrightarrow> RequestsTrack (others k s) i = None"
    and "\<And>k. clock k + 5000000000 \<le> clock (Suc k)"
  shows "\<exists>s'. decay_loop clock others deadline i 0 True s = Some s' \<and> RequestsTrack s' i = None"
  by (rule decay_ends_from) (fact assms)+

text \<open>The time that the delivery to a reply address waits for a result is meant to be twenty seconds
  or a multiple, but it is a product of two durations that wraps around in 64 bits: it comes
  out as more than 49 years.\<close>

lemma postback_waits_for_years:
  "postback_timeout = 20000000000 * 1000000000 - 2 ^ 64
    \<and> postback_timeout > 49 * 365 * 24 * 60 * 60 * 1000000000"
  by (simp add: postback_timeout_value)

end
