(* ===== verification/Tesseract_Engine.thy ===== *)
theory Tesseract_Engine
  imports Ocr_Config
begin

text \<open>
  tesseract_engine.go: the arguments a request may give, the command line built from them,
  the temporary input file, the run of tesseract and the search for its output file. The
  range over a Go map has no order: the bindings of a map stand in the order the runtime
  picks, and the statements hold for every order.
\<close>

section \<open>Arguments\<close>

text \<open>The member of an argument map; a missing one, or a nil map, reads as nil.\<close>

definition arg_of :: "json go_map option \<Rightarrow> string \<Rightarrow> json" where
  "arg_of m k =
     (case m of None \<Rightarrow> JNull | Some ms \<Rightarrow> (case map_of ms k of None \<Rightarrow> JNull | Some v \<Rightarrow> v))"

text \<open>The loop that turns config_vars into a map of strings, shared by both engines.\<close>

fun convert_vars :: "json go_map \<Rightarrow> string go_map \<Rightarrow> string + string go_map" where
  "convert_vars [] acc = Inr acc"
| "convert_vars ((k, v) # ms) acc =
     (case v of
        JStr s \<Rightarrow> convert_vars ms (AList.update k s acc)
      | _ \<Rightarrow> Inl ''could not convert configVar into string: '')"

text \<open>config_vars: absent, a map, or a failed type assertion.\<close>

definition config_vars_arg :: "json \<Rightarrow> (string + string go_map option) outcome" where
  "config_vars_arg j =
     (case j of
        JNull \<Rightarrow> Ret (Inr None)
      | JObj ms \<Rightarrow>
          Ret (case convert_vars ms [] of Inl e \<Rightarrow> Inl e | Inr vs \<Rightarrow> Inr (Some vs))
      | _ \<Rightarrow> Panic ''interface conversion: interface {} is not map[string]interface {}'')"

text \<open>An argument that has to be a string: the old value if absent, or the given message.\<close>

definition string_arg :: "os_env \<Rightarrow> string \<Rightarrow> json \<Rightarrow> string \<Rightarrow> string + string" where
  "string_arg env msg j old =
     (case j of JNull \<Rightarrow> Inr old | JStr s \<Rightarrow> Inr s | _ \<Rightarrow> Inl (msg @ env_format env j))"

record TesseractEngineArgs =
  te_configVars :: "string go_map option"
  te_pageSegMode :: string
  te_lang :: string
  te_saveFiles :: bool

definition zero_tesseract_args :: TesseractEngineArgs where
  "zero_tesseract_args =
     \<lparr>te_configVars = None, te_pageSegMode = [], te_lang = [], te_saveFiles = False\<rparr>"

definition NewTesseractEngineArgs ::
  "os_env \<Rightarrow> OcrRequest \<Rightarrow> (string + TesseractEngineArgs) outcome" where
  "NewTesseractEngineArgs env r =
     (if EngineArgs r = None then Ret (Inr zero_tesseract_args)
      else bind_outcome (config_vars_arg (arg_of (EngineArgs r) ''config_vars''))
        (\<lambda>vars. Ret (case vars of
            Inl e \<Rightarrow> Inl e
          | Inr vs \<Rightarrow>
              (let a1 = zero_tesseract_args\<lparr>te_configVars := vs\<rparr> in
               case string_arg env ''could not convert psm into string: ''
                      (arg_of (EngineArgs r) ''psm'') (te_pageSegMode a1) of
                 Inl e \<Rightarrow> Inl e
               | Inr psm \<Rightarrow>
                   (case string_arg env ''could not convert lang into string: ''
                          (arg_of (EngineArgs r) ''lang'') (te_lang a1) of
                      Inl e \<Rightarrow> Inl e
                    | Inr l \<Rightarrow> Inr (a1\<lparr>te_pageSegMode := psm, te_lang := l\<rparr>))))))"

definition Tesseract_Export :: "TesseractEngineArgs \<Rightarrow> string list" where
  "Tesseract_Export t =
     concat (map (\<lambda>(k, v). [''-c'', k @ ''='' @ v])
       (case te_configVars t of None \<Rightarrow> [] | Some vs \<Rightarrow> vs))
     @ (if te_pageSegMode t \<noteq> [] then [''--psm'', te_pageSegMode t] else [])
     @ (if te_lang t \<noteq> [] then [''-l'', te_lang t] else [])"

section \<open>The input file\<close>

definition tesseract_tmpFileFromImageBytes ::
  "os_env \<Rightarrow> bytes option \<Rightarrow> world \<Rightarrow> world \<times> string \<times> go_error" where
  "tesseract_tmpFileFromImageBytes env imgBytes w =
     (case createTempFileName env [] w of
        (w1, _, Some e) \<Rightarrow> (w1, [], Some e)
      | (w1, f, None) \<Rightarrow>
          (case saveBytesToFileName env (case imgBytes of None \<Rightarrow> [] | Some bs \<Rightarrow> bs) f w1 of
             (w2, Some e) \<Rightarrow> (w2, [], Some e)
           | (w2, None) \<Rightarrow> (w2, f, None)))"

text \<open>
  tmpFileFromImageBase64: when the text does not decode, the function returns err, which is
  still the nil error of createTempFileName.
\<close>

definition tesseract_tmpFileFromImageBase64 ::
  "os_env \<Rightarrow> string \<Rightarrow> world \<Rightarrow> world \<times> string \<times> go_error" where
  "tesseract_tmpFileFromImageBase64 env base64Image w =
     (case createTempFileName env [] w of
        (w1, _, Some e) \<Rightarrow> (w1, [], Some e)
      | (w1, f, None) \<Rightarrow>
          (case b64_decode base64Image of
             None \<Rightarrow> (w1, [], None)
           | Some decoded \<Rightarrow>
               (case saveBytesToFileName env decoded f w1 of
                  (w2, Some e) \<Rightarrow> (w2, [], Some e)
                | (w2, None) \<Rightarrow> (w2, f, None))))"

definition tesseract_tmpFileFromImageUrl ::
  "os_env \<Rightarrow> string \<Rightarrow> world \<Rightarrow> world \<times> string \<times> go_error" where
  "tesseract_tmpFileFromImageUrl env imgUrl w =
     (case createTempFileName env [] w of
        (w1, _, Some e) \<Rightarrow> (w1, [], Some e)
      | (w1, f, None) \<Rightarrow>
          (case saveUrlContentToFileName env imgUrl f w1 of
             (w2, Some e) \<Rightarrow> (w2, [], Some e)
           | (w2, None) \<Rightarrow> (w2, f, None)))"

definition tesseract_tmpFile :: "os_env \<Rightarrow> OcrRequest \<Rightarrow> world \<Rightarrow> world \<times> string \<times> go_error" where
  "tesseract_tmpFile env r w =
     (if ImgBase64 r \<noteq> [] then tesseract_tmpFileFromImageBase64 env (ImgBase64 r) w
      else if ImgUrl r \<noteq> [] then tesseract_tmpFileFromImageUrl env (ImgUrl r) w
      else tesseract_tmpFileFromImageBytes env (ImgBytes r) w)"

section \<open>The output file\<close>

text \<open>findOutfile: the first extension for which a file exists.\<close>

fun first_existing :: "world \<Rightarrow> string \<Rightarrow> string list \<Rightarrow> string option" where
  "first_existing w outfileBaseName [] = None"
| "first_existing w outfileBaseName (ext # exts) =
     (let outFile = outfileBaseName @ ''.'' @ ext in
      if files w outFile \<noteq> None then Some outFile else first_existing w outfileBaseName exts)"

definition findOutfile :: "world \<Rightarrow> string \<Rightarrow> string list \<Rightarrow> string \<times> go_error" where
  "findOutfile w outfileBaseName fileExtensions =
     (case first_existing w outfileBaseName fileExtensions of
        Some outFile \<Rightarrow> (outFile, None)
      | None \<Rightarrow> ([], Some (''Could not find outfile.  Basename: '' @ outfileBaseName
          @ '' Extensions: ['' @ concat (map (\<lambda>e. e @ '' '') (butlast fileExtensions))
          @ concat (drop (length fileExtensions - 1) fileExtensions) @ '']'')))"

definition findAndReadOutfile ::
  "os_env \<Rightarrow> world \<Rightarrow> string \<Rightarrow> string list \<Rightarrow> bytes \<times> string \<times> go_error" where
  "findAndReadOutfile env w outfileBaseName fileExtensions =
     (case findOutfile w outfileBaseName fileExtensions of
        (_, Some e) \<Rightarrow> ([], [], Some e)
      | (outfile, None) \<Rightarrow>
          (case read_file env outfile w of
             (_, Some e) \<Rightarrow> ([], [], Some e)
           | (outBytes, None) \<Rightarrow> (outBytes, outfile, None)))"

section \<open>Processing\<close>

definition tesseract_processImageFile ::
  "os_env \<Rightarrow> string \<Rightarrow> TesseractEngineArgs \<Rightarrow> world \<Rightarrow> world \<times> OcrResult \<times> go_error" where
  "tesseract_processImageFile env inputFilename engineArgs w =
     (let cmdArgs = [inputFilename, inputFilename] @ Tesseract_Export engineArgs;
          (w1, output, err) = exec_cmd env ''tesseract'' cmdArgs w in
      case err of
        Some e \<Rightarrow> (w1, zero_result\<lparr>Status := ''error''\<rparr>, Some e)
      | None \<Rightarrow>
          (let (outBytes, outFile, err) =
                 findAndReadOutfile env w1 inputFilename [''txt'', ''hocr'', ''json''];
               w2 = (if te_saveFiles engineArgs then remove_file outFile w1 else w1) in
           case err of
             Some e \<Rightarrow> (w2, zero_result\<lparr>Status := ''error''\<rparr>, Some e)
           | None \<Rightarrow> (w2, zero_result\<lparr>Text := string_of_bytes outBytes, Status := ''done''\<rparr>, None)))"

definition tesseract_ProcessRequest ::
  "os_env \<Rightarrow> OcrRequest \<Rightarrow> WorkerConfig \<Rightarrow> world
     \<Rightarrow> (world \<times> WorkerConfig \<times> OcrResult \<times> go_error) outcome" where
  "tesseract_ProcessRequest env r wc w =
     (case tesseract_tmpFile env r w of
        (w1, _, Some e) \<Rightarrow> Ret (w1, wc, zero_result, Some e)
      | (w1, tmpFileName, None) \<Rightarrow>
          bind_outcome (NewTesseractEngineArgs env r)
            (\<lambda>args. Ret (case args of
                Inl e \<Rightarrow> (w1, wc, zero_result, Some e)
              | Inr engineArgs \<Rightarrow>
                  (let (w2, res, err) = tesseract_processImageFile env tmpFileName engineArgs w1;
                       w3 = (if te_saveFiles engineArgs then remove_file tmpFileName w2 else w2)
                   in (w3, wc, res, err)))))"

section \<open>Facts\<close>

lemma arg_of_None [simp]: "arg_of None k = JNull"
  by (simp add: arg_of_def)

text \<open>The only panic: config_vars is given and is not an object.\<close>

definition bad_config_vars :: "OcrRequest \<Rightarrow> bool" where
  "bad_config_vars r =
     (case arg_of (EngineArgs r) ''config_vars'' of JNull \<Rightarrow> False | JObj _ \<Rightarrow> False | _ \<Rightarrow> True)"

lemma config_vars_panics:
  "panics (config_vars_arg j) \<longleftrightarrow> (case j of JNull \<Rightarrow> False | JObj _ \<Rightarrow> False | _ \<Rightarrow> True)"
  by (simp add: config_vars_arg_def split: json.splits)

lemma panics_bind_Ret: "panics (bind_outcome m (\<lambda>x. Ret (f x))) \<longleftrightarrow> panics m"
  by (cases m) simp_all

lemma new_tesseract_args_panics: "panics (NewTesseractEngineArgs env r) \<longleftrightarrow> bad_config_vars r"
  by (cases "EngineArgs r")
    (simp_all add: NewTesseractEngineArgs_def bad_config_vars_def panics_bind_Ret config_vars_panics)

lemma new_tesseract_args_keeps_files:
  assumes "NewTesseractEngineArgs env r = Ret (Inr a)"
  shows "\<not> te_saveFiles a"
proof (cases "EngineArgs r = None")
  case True
  with assms show ?thesis by (auto simp: NewTesseractEngineArgs_def zero_tesseract_args_def)
next
  case False
  then show ?thesis using assms
    by (cases "config_vars_arg (arg_of (EngineArgs r) ''config_vars'')")
      (auto simp: NewTesseractEngineArgs_def zero_tesseract_args_def Let_def split: sum.splits)
qed

lemma createTempFileName_ok:
  "createTempFileName env f w = (w', g, e) \<Longrightarrow> e = None \<and> files w' = files w"
  by (auto simp: createTempFileName_def split: if_splits)

lemma tesseract_bad_base64:
  assumes "ImgBase64 r \<noteq> []" "b64_decode (ImgBase64 r) = None"
  shows "\<exists>w1. tesseract_tmpFile env r w = (w1, [], None) \<and> files w1 = files w"
  using assms
  by (auto simp: tesseract_tmpFile_def tesseract_tmpFileFromImageBase64_def createTempFileName_def)

text \<open>The three ways through ProcessRequest.\<close>

lemma tesseract_processE:
  assumes "tesseract_ProcessRequest env r wc w = Ret (w', wc', res, e)"
  obtains (no_file) x e0 where "tesseract_tmpFile env r w = (w', x, Some e0)" "wc' = wc"
      "res = zero_result" "e = Some e0"
  | (no_args) f e0 where "tesseract_tmpFile env r w = (w', f, None)" "wc' = wc"
      "NewTesseractEngineArgs env r = Ret (Inl e0)" "res = zero_result" "e = Some e0"
  | (run) w1 f a where "tesseract_tmpFile env r w = (w1, f, None)" "wc' = wc"
      "NewTesseractEngineArgs env r = Ret (Inr a)"
      "tesseract_processImageFile env f a w1 = (w', res, e)"
proof (cases "tesseract_tmpFile env r w")
  case (fields w1 f err)
  show ?thesis
  proof (cases err)
    case (Some e0)
    with assms fields no_file show ?thesis by (auto simp: tesseract_ProcessRequest_def)
  next
    case None
    with assms fields obtain args where n: "NewTesseractEngineArgs env r = Ret args"
      by (cases "NewTesseractEngineArgs env r") (auto simp: tesseract_ProcessRequest_def)
    show ?thesis
    proof (cases args)
      case (Inl e0)
      with assms fields None n no_args show ?thesis by (auto simp: tesseract_ProcessRequest_def)
    next
      case (Inr a)
      with n have "\<not> te_saveFiles a" using new_tesseract_args_keeps_files by blast
      with assms fields None n Inr run show ?thesis
        by (auto simp: tesseract_ProcessRequest_def split: prod.splits)
    qed
  qed
qed

text \<open>The run of tesseract is the last change to the files: nothing is cleaned up.\<close>

lemma tesseract_image_files:
  assumes "tesseract_processImageFile env f a w = (w', res, e)" "\<not> te_saveFiles a"
  shows "files w' = fst (env_exec env ''tesseract'' (f # f # Tesseract_Export a) (files w))"
  using assms
  by (auto simp: tesseract_processImageFile_def exec_cmd_def Let_def split: prod.splits option.splits)

lemma tesseract_process_files:
  assumes "tesseract_ProcessRequest env r wc w = Ret (w', wc', res, None)"
  shows "\<exists>w1 f a. tesseract_tmpFile env r w = (w1, f, None) \<and> NewTesseractEngineArgs env r = Ret (Inr a)
    \<and> files w' = fst (env_exec env ''tesseract'' (f # f # Tesseract_Export a) (files w1))"
  using assms
proof (cases rule: tesseract_processE)
  case (run w1 f a)
  with tesseract_image_files new_tesseract_args_keeps_files show ?thesis by blast
qed simp_all

lemma first_existing_Some:
  "first_existing w base exts = Some f \<Longrightarrow> \<exists>e \<in> set exts. f = base @ ''.'' @ e \<and> files w f \<noteq> None"
  by (induction exts) (auto simp: Let_def split: if_splits)

lemma findAndReadOutfile_ok:
  assumes "findAndReadOutfile env w base exts = (c, f, None)"
  shows "(\<exists>e \<in> set exts. f = base @ ''.'' @ e) \<and> files w f = Some c"
  using assms first_existing_Some [of w base exts]
  by (auto simp: findAndReadOutfile_def findOutfile_def read_file_def split: prod.splits option.splits)

lemma tesseract_image_result:
  assumes "tesseract_processImageFile env f a w = (w', res, e)"
  shows "ID res = []" "Status res = ''done'' \<longleftrightarrow> e = None"
  using assms
  by (auto simp: tesseract_processImageFile_def zero_result_def Let_def split: prod.splits option.splits)

lemma tesseract_image_done:
  assumes "tesseract_processImageFile env f a w = (w', res, None)" "\<not> te_saveFiles a"
  shows "\<exists>out c. out \<in> {f @ ''.txt'', f @ ''.hocr'', f @ ''.json''} \<and> files w' out = Some c
    \<and> Text res = string_of_bytes c"
proof -
  from assms obtain c out where
    "findAndReadOutfile env w' f [''txt'', ''hocr'', ''json''] = (c, out, None)"
    "res = zero_result\<lparr>Text := string_of_bytes c, Status := ''done''\<rparr>"
    by (auto simp: tesseract_processImageFile_def Let_def split: prod.splits option.splits)
  with findAndReadOutfile_ok [OF this(1)] show ?thesis by auto
qed

lemma tesseract_contract:
  assumes "tesseract_ProcessRequest env r wc w = Ret (w', wc', res, e)"
  shows "wc' = wc" "ID res = []" "Status res = ''done'' \<longleftrightarrow> e = None"
  using assms
  by (cases rule: tesseract_processE; simp add: tesseract_image_result zero_result_def)+

lemma tesseract_process_panics:
  "panics (tesseract_ProcessRequest env r wc w) \<Longrightarrow> bad_config_vars r"
  by (auto simp: tesseract_ProcessRequest_def panics_bind_Ret new_tesseract_args_panics
      split: prod.splits option.splits)

section \<open>The command line read back\<close>

text \<open>How tesseract groups its options: -c with a variable, --psm and -l with a value.\<close>

fun read_flags :: "string list \<Rightarrow> (string \<times> string) list \<times> string \<times> string \<Rightarrow> (string \<times> string) list \<times> string \<times> string" where
  "read_flags (opt # v # rest) (vars, psm, l) =
     read_flags rest
       (if opt = ''-c'' then
          (vars @ [(takeWhile (\<lambda>c. c \<noteq> CHR ''='') v, tl (dropWhile (\<lambda>c. c \<noteq> CHR ''='') v))], psm, l)
        else if opt = ''--psm'' then (vars, v, l)
        else if opt = ''-l'' then (vars, psm, v)
        else (vars, psm, l))"
| "read_flags _ acc = acc"

lemma takeWhile_key:
  assumes "CHR ''='' \<notin> set k"
  shows "takeWhile (\<lambda>c. c \<noteq> CHR ''='') (k @ CHR ''='' # v) = k"
    "dropWhile (\<lambda>c. c \<noteq> CHR ''='') (k @ CHR ''='' # v) = CHR ''='' # v"
  using assms by (induction k) auto

lemma read_flags_vars:
  "\<forall>(k, v) \<in> set vs. CHR ''='' \<notin> set k \<Longrightarrow>
   read_flags (concat (map (\<lambda>(k, v). [''-c'', k @ ''='' @ v]) vs) @ rest) (acc, psm, l)
     = read_flags rest (acc @ vs, psm, l)"
  by (induction vs arbitrary: acc) (auto simp: takeWhile_key)

lemma read_flags_export:
  assumes "te_configVars t = Some vs" "\<forall>(k, v) \<in> set vs. CHR ''='' \<notin> set k"
  shows "read_flags (Tesseract_Export t) ([], [], []) = (vs, te_pageSegMode t, te_lang t)"
  using read_flags_vars [OF assms(2)] assms(1) by (simp add: Tesseract_Export_def)

section \<open>Properties\<close>


text \<open>A tesseract that writes the text ok.\<close>

definition sample_tesseract :: os_env where
  "sample_tesseract = sample_env\<lparr>env_exec :=
     (\<lambda>c args fs. (fs(hd args @ ''.txt'' \<mapsto> bytes_of_string ''ok''), [], None))\<rparr>"

lemma sample_tesseract_run:
  "tesseract_ProcessRequest sample_tesseract (zero_request\<lparr>ImgBytes := Some [1]\<rparr>) wc sample_world
     = Ret (\<lparr>files = [''/tmp/k0'' \<mapsto> [1], ''/tmp/k0.txt'' \<mapsto> bytes_of_string ''ok''], ksuids = 1\<rparr>, wc,
            \<lparr>Text = ''ok'', Status = ''done'', ID = []\<rparr>, None)"
proof -
  have tmp: "path_join ''/tmp'' ''k0'' = ''/tmp/k0''"
    by (simp add: path_join_def path_clean_def clean_elems_def)
  show ?thesis
    by (simp add: tesseract_ProcessRequest_def tesseract_tmpFile_def tesseract_tmpFileFromImageBytes_def
        createTempFileName_def saveBytesToFileName_def NewTesseractEngineArgs_def zero_tesseract_args_def
        tesseract_processImageFile_def Tesseract_Export_def exec_cmd_def findAndReadOutfile_def findOutfile_def
        read_file_def sample_tesseract_def sample_env_def sample_world_def zero_request_def zero_result_def tmp
        bytes_of_string_def string_of_bytes_def fun_upd_def)
qed


text \<open>The command line of tesseract says what the request asked for: grouped the way tesseract
  groups its options, it gives back the variables, the page segmentation mode and the
  language, for variables without an equals sign in their names.\<close>

lemma tesseract_options_readback:
  assumes "te_configVars t = Some vs" "list_all (\<lambda>(k, v). CHR ''='' \<notin> set k) vs"
  shows "read_flags (Tesseract_Export t) ([], [], []) = (vs, te_pageSegMode t, te_lang t)"
  using read_flags_export [OF assms(1)] assms(2) by (simp add: list_all_iff)

end
