(* ===== verification/Sandwich_Engine.thy ===== *)
theory Sandwich_Engine
  imports Tesseract_Engine
begin

text \<open>
  sandwich_engine.go: the engine that turns a PDF or TIFF document into a searchable PDF or
  into text with pdfsandwich and, depending on the requested output, pdftk, gs or pdftotext.
  Its input file stays behind when save_files is set or a step has failed; the files it
  means to delete are collected on the way and removed by a deferred function.
\<close>

section \<open>Arguments\<close>

record SandwichEngineArgs =
  se_configVars :: "string go_map option"
  se_lang :: string
  se_ocrType :: string
  se_ocrOptimize :: bool
  se_saveFiles :: bool
  se_t2pConverter :: string
  se_requestID :: string
  se_component :: string

definition zero_sandwich_args :: SandwichEngineArgs where
  "zero_sandwich_args =
     \<lparr>se_configVars = None, se_lang = [], se_ocrType = [], se_ocrOptimize = False,
      se_saveFiles = False, se_t2pConverter = [], se_requestID = [], se_component = []\<rparr>"

definition bool_arg :: "os_env \<Rightarrow> string \<Rightarrow> json \<Rightarrow> bool \<Rightarrow> string + bool" where
  "bool_arg env msg j old =
     (case j of JNull \<Rightarrow> Inr old | JBool b \<Rightarrow> Inr b | _ \<Rightarrow> Inl (msg @ env_format env j))"

text \<open>Without engine arguments the function returns before it copies the worker's settings.\<close>

definition NewSandwichEngineArgs ::
  "os_env \<Rightarrow> OcrRequest \<Rightarrow> WorkerConfig \<Rightarrow> (string + SandwichEngineArgs) outcome" where
  "NewSandwichEngineArgs env r wc =
     (let a0 = zero_sandwich_args\<lparr>se_component := ''OCR_WORKER'', se_requestID := RequestID r\<rparr>;
          arg = arg_of (EngineArgs r) in
      if EngineArgs r = None then Ret (Inr a0)
      else bind_outcome (config_vars_arg (arg ''config_vars''))
        (\<lambda>vars. Ret (case vars of
            Inl e \<Rightarrow> Inl e
          | Inr vs \<Rightarrow>
              (case string_arg env ''could not convert lang into string: '' (arg ''lang'') (se_lang a0) of
                 Inl e \<Rightarrow> Inl e
               | Inr l \<Rightarrow>
                   (case string_arg env ''could not convert into string: '' (arg ''ocr_type'') (se_ocrType a0) of
                      Inl e \<Rightarrow> Inl e
                    | Inr ty \<Rightarrow>
                        (case bool_arg env ''could not convert into boolean: '' (arg ''result_optimize'')
                               (se_ocrOptimize a0) of
                           Inl e \<Rightarrow> Inl e
                         | Inr opt \<Rightarrow>
                             Inr (a0\<lparr>se_configVars := vs, se_lang := l, se_ocrType := ty,
                                     se_ocrOptimize := opt, se_saveFiles := wc_SaveFiles wc,
                                     se_t2pConverter := wc_Tiff2pdfConverter wc\<rparr>)))))))"

definition Sandwich_Export :: "SandwichEngineArgs \<Rightarrow> string list" where
  "Sandwich_Export t =
     (if se_lang t \<noteq> [] then [''-lang'', se_lang t] else [])
     @ [''-tesso'', ''-c textonly_pdf=1'']
     @ (case se_configVars t of None \<Rightarrow> [] | Some vs \<Rightarrow> map (\<lambda>(k, v). k @ ''='' @ v) vs)"

section \<open>The input file\<close>

text \<open>The name of the file is the identifier of the request, which is a path for two of the three.\<close>

definition sandwich_tmpFileFromImageBytes ::
  "os_env \<Rightarrow> bytes option \<Rightarrow> string \<Rightarrow> world \<Rightarrow> world \<times> string \<times> go_error" where
  "sandwich_tmpFileFromImageBytes env imgBytes tmpFileName w =
     (case createTempFileName env tmpFileName w of
        (w1, _, Some e) \<Rightarrow> (w1, [], Some e)
      | (w1, f, None) \<Rightarrow>
          (case saveBytesToFileName env (case imgBytes of None \<Rightarrow> [] | Some bs \<Rightarrow> bs) f w1 of
             (w2, Some e) \<Rightarrow> (w2, [], Some e)
           | (w2, None) \<Rightarrow> (w2, f, None)))"

definition named_or_temp :: "os_env \<Rightarrow> string \<Rightarrow> world \<Rightarrow> world \<times> string \<times> go_error" where
  "named_or_temp env tmpFileName w =
     (if tmpFileName = [] then createTempFileName env [] w else (w, tmpFileName, None))"

definition sandwich_tmpFileFromImageBase64 ::
  "os_env \<Rightarrow> string \<Rightarrow> string \<Rightarrow> world \<Rightarrow> world \<times> string \<times> go_error" where
  "sandwich_tmpFileFromImageBase64 env base64Image tmpFileName w =
     (case named_or_temp env tmpFileName w of
        (w1, _, Some e) \<Rightarrow> (w1, [], Some e)
      | (w1, f, None) \<Rightarrow>
          (case b64_decode base64Image of
             None \<Rightarrow> (w1, [], None)
           | Some decoded \<Rightarrow>
               (case saveBytesToFileName env decoded f w1 of
                  (w2, Some e) \<Rightarrow> (w2, [], Some e)
                | (w2, None) \<Rightarrow> (w2, f, None))))"

definition sandwich_tmpFileFromImageURL ::
  "os_env \<Rightarrow> string \<Rightarrow> string \<Rightarrow> world \<Rightarrow> world \<times> string \<times> go_error" where
  "sandwich_tmpFileFromImageURL env imgURL tmpFileName w =
     (case named_or_temp env tmpFileName w of
        (w1, _, Some e) \<Rightarrow> (w1, [], Some e)
      | (w1, f, None) \<Rightarrow>
          (case saveUrlContentToFileName env imgURL f w1 of
             (w2, Some e) \<Rightarrow> (w2, [], Some e)
           | (w2, None) \<Rightarrow> (w2, f, None)))"

definition sandwich_tmpFile :: "os_env \<Rightarrow> OcrRequest \<Rightarrow> world \<Rightarrow> world \<times> string \<times> go_error" where
  "sandwich_tmpFile env r w =
     (if ImgBase64 r \<noteq> [] then sandwich_tmpFileFromImageBase64 env (ImgBase64 r) (RequestID r) w
      else if ImgUrl r \<noteq> [] then sandwich_tmpFileFromImageURL env (ImgUrl r) (RequestID r) w
      else sandwich_tmpFileFromImageBytes env (ImgBytes r) (RequestID r) w)"

section \<open>External commands\<close>

definition buildCmdLineArgs :: "string \<Rightarrow> SandwichEngineArgs \<Rightarrow> string list \<times> string" where
  "buildCmdLineArgs inputFilename engineArgs =
     (let ocrLayerFile = inputFilename @ ''_ocr.pdf'' in
      (Sandwich_Export engineArgs @ [inputFilename, ''-o'', ocrLayerFile], ocrLayerFile))"

text \<open>A command whose deadline has passed at the start is not started.\<close>

definition runExternalCmd ::
  "os_env \<Rightarrow> string \<Rightarrow> string list \<Rightarrow> int \<Rightarrow> world \<Rightarrow> world \<times> string \<times> go_error" where
  "runExternalCmd env commandToRun cmdArgs timeout w =
     (if timeout \<le> 0
      then (w, [], Some ''command timed out, terminated: context deadline exceeded'')
      else
        (let (w1, output, err) = exec_cmd env commandToRun cmdArgs w in
         if env_deadline env commandToRun cmdArgs timeout
         then (w1, [], Some (''command timed out, terminated: ''
                @ (case err of None \<Rightarrow> ''<nil>'' | Some e \<Rightarrow> e)))
         else (w1, output, err)))"

section \<open>processImageFile\<close>

text \<open>A TIFF file goes through the configured converter and, if that fails, through the other.\<close>

definition sandwich_convert ::
  "os_env \<Rightarrow> string \<Rightarrow> SandwichEngineArgs \<Rightarrow> string \<Rightarrow> world \<Rightarrow> world \<times> string option" where
  "sandwich_convert env uplFileType engineArgs originalInputfileName w =
     (if uplFileType \<noteq> ''TIFF'' then (w, Some originalInputfileName)
      else
        (let (alternativeConverter, (w1, f1)) =
               (if se_t2pConverter engineArgs = ''convert''
                then (''tiff2pdf'', convertImageToPdf env originalInputfileName w)
                else if se_t2pConverter engineArgs = ''tiff2pdf''
                then (''convert'', tiff2Pdf env originalInputfileName w)
                else ([], (w, originalInputfileName))) in
         if f1 \<noteq> [] then (w1, Some f1)
         else
           (let (w2, f2) =
                  (if alternativeConverter = ''convert'' then convertImageToPdf env originalInputfileName w1
                   else if alternativeConverter = ''tiff2pdf'' then tiff2Pdf env originalInputfileName w1
                   else (w1, f1)) in
            (w2, if f2 = [] then None else Some f2))))"

text \<open>
  The switch on the requested output. The results are the world, the files to delete, the
  error flag, and either a result to return at once or the file to deliver. The error
  returned when pdftk or gs fails is the one of pdfsandwich, which has succeeded.
\<close>

definition sandwich_output ::
  "os_env \<Rightarrow> SandwichEngineArgs \<Rightarrow> string \<Rightarrow> string \<Rightarrow> string list \<Rightarrow> world
     \<Rightarrow> world \<times> string list \<times> bool \<times> ((OcrResult \<times> go_error) + string)" where
  "sandwich_output env engineArgs inputFilename ocrLayerFile filesToDelete w =
     (let ocrType = to_upper (se_ocrType engineArgs);
          failed = zero_result\<lparr>Status := ''error''\<rparr> in
      if ocrType = ''COMBINEDPDF'' then
        (let tmpOutCombinedPdf = inputFilename @ ''_comb.pdf'';
             del1 = filesToDelete @ [tmpOutCombinedPdf];
             (w1, _, errPdftk) = exec_cmd env ''pdftk''
               [ocrLayerFile, ''multistamp'', inputFilename, ''output'', tmpOutCombinedPdf] w in
         if errPdftk \<noteq> None then (w1, del1, True, Inl (failed, None))
         else if se_ocrOptimize engineArgs then
           (let tmpOutCompressedPdf = inputFilename @ ''_compr.pdf'';
                del2 = del1 @ [tmpOutCompressedPdf];
                (w2, _, errQpdf) = exec_cmd env ''gs''
                  [''-sDEVICE=pdfwrite'', ''-dCompatibilityLevel=1.7'', ''-dPDFSETTINGS=/prepress'',
                   ''-dNOPAUSE'', ''-dBATCH'', ''-dQUIET'', ''-sOutputFile='' @ tmpOutCompressedPdf,
                   tmpOutCombinedPdf] w1 in
            if errQpdf \<noteq> None then (w2, del2, True, Inl (failed, None))
            else (w2, del2, False, Inr tmpOutCompressedPdf))
         else (w1, del1, False, Inr tmpOutCombinedPdf))
      else if ocrType = ''OCRLAYERONLY'' then (w, filesToDelete, False, Inr ocrLayerFile)
      else if ocrType = ''TXT'' then
        (let textFile = trim_suffix ocrLayerFile (path_ext ocrLayerFile) @ ''.txt'';
             (w1, _, err) = exec_cmd env ''pdftotext'' [ocrLayerFile] w in
         (w1, filesToDelete @ [textFile], err \<noteq> None, Inr textFile))
      else (w, filesToDelete, True, Inl (failed, Some ''requested output format is not supported'')))"

text \<open>The deferred removal.\<close>

definition sandwich_cleanup :: "SandwichEngineArgs \<Rightarrow> bool \<Rightarrow> string list \<Rightarrow> world \<Rightarrow> world" where
  "sandwich_cleanup engineArgs errorFlag filesToDelete w =
     (if \<not> se_saveFiles engineArgs \<and> \<not> errorFlag
      then foldl (\<lambda>w f. remove_file f w) w filesToDelete else w)"

text \<open>The output of pdfsandwich is a format for the error, and what comes out is a format again.\<close>

definition sandwich_processImageFile ::
  "os_env \<Rightarrow> string \<Rightarrow> string \<Rightarrow> SandwichEngineArgs \<Rightarrow> uint \<Rightarrow> world \<Rightarrow> world \<times> OcrResult \<times> go_error" where
  "sandwich_processImageFile env inputFilename uplFileType engineArgs configTimeOut w =
     (let failed = zero_result\<lparr>Status := ''error''\<rparr> in
      case sandwich_convert env uplFileType engineArgs inputFilename w of
        (w1, None) \<Rightarrow>
          (sandwich_cleanup engineArgs True [inputFilename] w1, failed,
           Some ''entirely failed to convert the input image to intermediate pdf, usually this is caused by a damaged input file'')
      | (w1, Some f) \<Rightarrow>
          (let (cmdArgs, ocrLayerFile) = buildCmdLineArgs f engineArgs in
           case runExternalCmd env ''pdfsandwich'' cmdArgs (seconds configTimeOut) w1 of
             (w2, output, Some err) \<Rightarrow>
               (sandwich_cleanup engineArgs True [inputFilename] w2, failed,
                Some (if output \<noteq> [] then env_sprintf env (env_sprintf env output (Some err)) None else err))
           | (w2, output, None) \<Rightarrow>
               (case sandwich_output env engineArgs f ocrLayerFile [inputFilename] w2 of
                  (w3, del, flag, Inl (res, err)) \<Rightarrow> (sandwich_cleanup engineArgs flag del w3, res, err)
                | (w3, del, flag, Inr fileToDeliver) \<Rightarrow>
                    (case read_file env fileToDeliver w3 of
                       (_, Some err) \<Rightarrow> (sandwich_cleanup engineArgs flag del w3, failed, Some err)
                     | (outBytes, None) \<Rightarrow>
                         (sandwich_cleanup engineArgs flag del w3,
                          zero_result\<lparr>Text := b64_encode outBytes, Status := ''done''\<rparr>, None)))))"

section \<open>ProcessRequest\<close>

text \<open>
  The configuration that is "copied for logging" is a copy of the pointer: the passwords
  disappear from the worker's own configuration.
\<close>

definition strip_config :: "os_env \<Rightarrow> WorkerConfig \<Rightarrow> WorkerConfig" where
  "strip_config env wc =
     (let wc1 = (case env_url_parse env (wc_AmqpAPIURI wc) of
                   Inl _ \<Rightarrow> wc | Inr u \<Rightarrow> wc\<lparr>wc_AmqpAPIURI := StripPasswordFromUrl u\<rparr>)
      in case env_url_parse env (wc_AmqpURI wc1) of
           Inl _ \<Rightarrow> wc1 | Inr u \<Rightarrow> wc1\<lparr>wc_AmqpURI := StripPasswordFromUrl u\<rparr>)"

definition sandwich_ProcessRequest ::
  "os_env \<Rightarrow> OcrRequest \<Rightarrow> WorkerConfig \<Rightarrow> world
     \<Rightarrow> (world \<times> WorkerConfig \<times> OcrResult \<times> go_error) outcome" where
  "sandwich_ProcessRequest env r wc0 w =
     (let wc = strip_config env wc0;
          err_result = (\<lambda>t. zero_result\<lparr>Text := t, Status := ''error''\<rparr>) in
      case sandwich_tmpFile env r w of
        (w1, _, Some e) \<Rightarrow> Ret (w1, wc, err_result ''Internal server error'', Some e)
      | (w1, tmpFileName, None) \<Rightarrow>
          (case readFirstBytes env tmpFileName 64 w1 of
             (_, Some e) \<Rightarrow>
               Ret (w1, wc, err_result ''WARNING: provided file format is not supported'', Some e)
           | (buffer, None) \<Rightarrow>
               (let uplFileType = detectFileType buffer in
                if uplFileType = ''UNKNOWN'' then
                  Ret (w1, wc, err_result ''only support TIFF and PDF input files'',
                       Some ''file format not understood'')
                else bind_outcome (NewSandwichEngineArgs env r wc)
                  (\<lambda>args. Ret (case args of
                      Inl e \<Rightarrow> (w1, wc, err_result ''can not build arguments'', Some e)
                    | Inr engineArgs \<Rightarrow>
                        (let (w2, res, err) =
                               sandwich_processImageFile env tmpFileName uplFileType engineArgs (TimeOut r) w1
                         in (w2, wc, res, err)))))))"

section \<open>Facts\<close>

text \<open>The ways through ProcessRequest.\<close>

lemma sandwich_processE:
  assumes "sandwich_ProcessRequest env r wc w = Ret (w', wc', res, e)"
  obtains (no_run) t e0 where "res = zero_result\<lparr>Text := t, Status := ''error''\<rparr>" "e = Some e0"
      "wc' = strip_config env wc"
  | (run) w1 f buf ty a where "sandwich_tmpFile env r w = (w1, f, None)"
      "readFirstBytes env f 64 w1 = (buf, None)" "ty = detectFileType buf" "ty \<noteq> ''UNKNOWN''"
      "wc' = strip_config env wc" "NewSandwichEngineArgs env r (strip_config env wc) = Ret (Inr a)"
      "sandwich_processImageFile env f ty a (TimeOut r) w1 = (w', res, e)"
proof (cases "sandwich_tmpFile env r w")
  case (fields w1 f err)
  show ?thesis
  proof (cases err)
    case (Some e0)
    with assms fields no_run show ?thesis by (auto simp: sandwich_ProcessRequest_def)
  next
    case None
    note tmp = fields [unfolded None]
    obtain buf rerr where rd: "readFirstBytes env f 64 w1 = (buf, rerr)" by fastforce
    show ?thesis
    proof (cases "rerr = None \<and> detectFileType buf \<noteq> ''UNKNOWN''")
      case False
      with assms tmp rd no_run show ?thesis
        by (auto simp: sandwich_ProcessRequest_def Let_def split: option.splits if_splits)
    next
      case True
      with assms tmp rd obtain args where n: "NewSandwichEngineArgs env r (strip_config env wc) = Ret args"
        by (cases "NewSandwichEngineArgs env r (strip_config env wc)")
          (auto simp: sandwich_ProcessRequest_def Let_def)
      show ?thesis
      proof (cases args)
        case (Inl e0)
        with assms tmp rd True n no_run show ?thesis by (auto simp: sandwich_ProcessRequest_def Let_def)
      next
        case (Inr a)
        with assms tmp rd True n run show ?thesis
          by (auto simp: sandwich_ProcessRequest_def Let_def split: prod.splits)
      qed
    qed
  qed
qed

text \<open>The ways through processImageFile.\<close>

lemma sandwich_imageE:
  assumes "sandwich_processImageFile env f0 ty a t w = (w', res, e)"
  obtains (no_pdf) w1 where "sandwich_convert env ty a f0 w = (w1, None)" "w' = w1"
      "Status res = ''error''" "ID res = []" "e \<noteq> None"
  | (no_layer) w1 f w2 out err where "sandwich_convert env ty a f0 w = (w1, Some f)"
      "runExternalCmd env ''pdfsandwich'' (fst (buildCmdLineArgs f a)) (seconds t) w1 = (w2, out, Some err)"
      "w' = w2" "Status res = ''error''" "ID res = []" "e \<noteq> None"
  | (stopped) w1 f w2 out w3 del flag where "sandwich_convert env ty a f0 w = (w1, Some f)"
      "runExternalCmd env ''pdfsandwich'' (fst (buildCmdLineArgs f a)) (seconds t) w1 = (w2, out, None)"
      "sandwich_output env a f (f @ ''_ocr.pdf'') [f0] w2 = (w3, del, flag, Inl (res, e))"
      "w' = sandwich_cleanup a flag del w3"
  | (unread) w1 f w2 out w3 del flag d b err where "sandwich_convert env ty a f0 w = (w1, Some f)"
      "runExternalCmd env ''pdfsandwich'' (fst (buildCmdLineArgs f a)) (seconds t) w1 = (w2, out, None)"
      "sandwich_output env a f (f @ ''_ocr.pdf'') [f0] w2 = (w3, del, flag, Inr d)"
      "read_file env d w3 = (b, Some err)" "w' = sandwich_cleanup a flag del w3"
      "Status res = ''error''" "ID res = []" "e = Some err"
  | (delivered) w1 f w2 out w3 del flag d b where "sandwich_convert env ty a f0 w = (w1, Some f)"
      "runExternalCmd env ''pdfsandwich'' (fst (buildCmdLineArgs f a)) (seconds t) w1 = (w2, out, None)"
      "sandwich_output env a f (f @ ''_ocr.pdf'') [f0] w2 = (w3, del, flag, Inr d)"
      "read_file env d w3 = (b, None)" "w' = sandwich_cleanup a flag del w3"
      "res = zero_result\<lparr>Text := b64_encode b, Status := ''done''\<rparr>" "e = None"
proof (cases "sandwich_convert env ty a f0 w")
  case (Pair w1 fo)
  show ?thesis
  proof (cases fo)
    case None
    with assms Pair no_pdf show ?thesis
      by (auto simp: sandwich_processImageFile_def sandwich_cleanup_def zero_result_def Let_def)
  next
    case (Some f)
    note conv = Pair [unfolded Some]
    obtain w2 out err where run: "runExternalCmd env ''pdfsandwich'' (fst (buildCmdLineArgs f a)) (seconds t) w1 = (w2, out, err)"
      by (metis prod_cases3)
    have layer: "buildCmdLineArgs f a = (fst (buildCmdLineArgs f a), f @ ''_ocr.pdf'')"
      by (simp add: buildCmdLineArgs_def Let_def)
    show ?thesis
    proof (cases err)
      case (Some e0)
      with assms conv run layer no_layer show ?thesis
        by (auto simp: sandwich_processImageFile_def sandwich_cleanup_def zero_result_def Let_def split: prod.splits)
    next
      case None
      obtain w3 del flag sw where sw: "sandwich_output env a f (f @ ''_ocr.pdf'') [f0] w2 = (w3, del, flag, sw)"
        by (metis prod_cases4)
      have img: "(w', res, e) = (case sw of Inl (res, err) \<Rightarrow> (sandwich_cleanup a flag del w3, res, err)
          | Inr d \<Rightarrow> (case read_file env d w3 of
               (_, Some err) \<Rightarrow> (sandwich_cleanup a flag del w3, zero_result\<lparr>Status := ''error''\<rparr>, Some err)
             | (outBytes, None) \<Rightarrow> (sandwich_cleanup a flag del w3,
                 zero_result\<lparr>Text := b64_encode outBytes, Status := ''done''\<rparr>, None)))"
        using assms conv run layer sw None
        by (simp add: sandwich_processImageFile_def Let_def split: prod.splits sum.splits)
      show ?thesis
      proof (cases sw)
        case (Inl x)
        with img conv run sw None stopped show ?thesis by (cases x) auto
      next
        case (Inr d)
        obtain b rerr where "read_file env d w3 = (b, rerr)" by fastforce
        with img conv run sw None Inr unread delivered show ?thesis
          by (cases rerr) (auto simp: zero_result_def)
      qed
    qed
  qed
qed

text \<open>What the switch on the output type may do.\<close>

definition sandwich_types :: "string list" where
  "sandwich_types = [''COMBINEDPDF'', ''OCRLAYERONLY'', ''TXT'']"

lemma sandwich_output_stopped:
  assumes "sandwich_output env a f l del w = (w', del', flag, Inl (res, e))"
  shows "res = zero_result\<lparr>Status := ''error''\<rparr>" "flag"
    "e = None \<longleftrightarrow> to_upper (se_ocrType a) = ''COMBINEDPDF''"
  using assms
  by (auto simp: sandwich_output_def Let_def split: prod.splits if_splits)

text \<open>The file delivered for an output type, as a function of the names involved.\<close>

definition delivered_file :: "SandwichEngineArgs \<Rightarrow> string \<Rightarrow> string \<Rightarrow> string" where
  "delivered_file a f l =
     (if to_upper (se_ocrType a) = ''COMBINEDPDF''
      then f @ (if se_ocrOptimize a then ''_compr.pdf'' else ''_comb.pdf'')
      else if to_upper (se_ocrType a) = ''TXT'' then trim_suffix l (path_ext l) @ ''.txt'' else l)"

definition intermediate_files :: "SandwichEngineArgs \<Rightarrow> string \<Rightarrow> string \<Rightarrow> string list" where
  "intermediate_files a f l =
     (if to_upper (se_ocrType a) = ''COMBINEDPDF''
      then (f @ ''_comb.pdf'') # (if se_ocrOptimize a then [f @ ''_compr.pdf''] else [])
      else if to_upper (se_ocrType a) = ''TXT'' then [trim_suffix l (path_ext l) @ ''.txt''] else [])"

lemma sandwich_output_delivered:
  assumes "sandwich_output env a f l del w = (w', del', flag, Inr d)"
  shows "d = delivered_file a f l" "del' = del @ intermediate_files a f l"
    "to_upper (se_ocrType a) \<in> set sandwich_types"
    "flag \<longrightarrow> to_upper (se_ocrType a) = ''TXT''"
  using assms
  by (auto simp: sandwich_output_def delivered_file_def intermediate_files_def sandwich_types_def
      Let_def split: prod.splits if_splits)

lemma sandwich_output_layer:
  assumes "to_upper (se_ocrType a) = ''OCRLAYERONLY''"
  shows "sandwich_output env a f l del w = (w, del, False, Inr l)"
  using assms by (simp add: sandwich_output_def Let_def)

lemma layer_text_file [simp]: "trim_suffix (f @ ''_ocr.pdf'') (path_ext (f @ ''_ocr.pdf'')) = f @ ''_ocr''"
proof -
  have "path_ext ((f @ ''_ocr'') @ CHR ''.'' # ''pdf'') = CHR ''.'' # ''pdf''"
    by (rule path_ext_append) auto
  then show ?thesis by simp (simp add: trim_suffix_def)
qed

lemma sandwich_image_contract:
  assumes "sandwich_processImageFile env f0 ty a t w = (w', res, e)"
  shows "ID res = []" "Status res \<in> {''done'', ''error''}" "Status res = ''done'' \<longrightarrow> e = None"
  using assms
  by (cases rule: sandwich_imageE;
      auto simp: zero_result_def dest: sandwich_output_stopped(1))+

lemma sandwich_contract:
  assumes "sandwich_ProcessRequest env r wc w = Ret (w', wc', res, e)"
  shows "wc' = strip_config env wc" "ID res = []" "Status res \<in> {''done'', ''error''}"
    "Status res = ''done'' \<longrightarrow> e = None"
proof -
  show "wc' = strip_config env wc" using assms by (cases rule: sandwich_processE) auto
  show "ID res = []" using assms
    by (cases rule: sandwich_processE) (auto simp: zero_result_def dest: sandwich_image_contract)
  show "Status res \<in> {''done'', ''error''}" using assms
    by (cases rule: sandwich_processE) (auto simp: zero_result_def dest: sandwich_image_contract)
  show "Status res = ''done'' \<longrightarrow> e = None" using assms
    by (cases rule: sandwich_processE) (auto simp: zero_result_def dest: sandwich_image_contract)
qed

text \<open>An error without an error value is a failed pdftk or gs.\<close>

lemma sandwich_image_silent:
  assumes "sandwich_processImageFile env f0 ty a t w = (w', res, None)" "Status res \<noteq> ''done''"
  shows "to_upper (se_ocrType a) = ''COMBINEDPDF''"
  using assms by (cases rule: sandwich_imageE) (auto simp: zero_result_def dest: sandwich_output_stopped)

lemma strip_config_keeps [simp]:
  "wc_Exchange (strip_config env wc) = wc_Exchange wc"
  "wc_ExchangeType (strip_config env wc) = wc_ExchangeType wc"
  "wc_RoutingKey (strip_config env wc) = wc_RoutingKey wc"
  "wc_Reliable (strip_config env wc) = wc_Reliable wc"
  "wc_SaveFiles (strip_config env wc) = wc_SaveFiles wc"
  "wc_Tiff2pdfConverter (strip_config env wc) = wc_Tiff2pdfConverter wc"
  "wc_NumParallelJobs (strip_config env wc) = wc_NumParallelJobs wc"
  by (simp_all add: strip_config_def Let_def split: sum.splits)

lemma new_sandwich_args_panics: "panics (NewSandwichEngineArgs env r wc) \<longleftrightarrow> bad_config_vars r"
  by (cases "EngineArgs r")
    (simp_all add: NewSandwichEngineArgs_def bad_config_vars_def panics_bind_Ret config_vars_panics Let_def)

lemma sandwich_process_panics:
  "panics (sandwich_ProcessRequest env r wc w) \<Longrightarrow> bad_config_vars r"
  by (auto simp: sandwich_ProcessRequest_def panics_bind_Ret new_sandwich_args_panics Let_def
      split: prod.splits option.splits if_splits)

lemma new_sandwich_args_fields:
  assumes "NewSandwichEngineArgs env r wc = Ret (Inr a)"
  shows "EngineArgs r \<noteq> None \<Longrightarrow> se_saveFiles a = wc_SaveFiles wc"
    "EngineArgs r \<noteq> None \<Longrightarrow> se_t2pConverter a = wc_Tiff2pdfConverter wc"
    "EngineArgs r = None \<Longrightarrow> se_ocrType a = [] \<and> \<not> se_saveFiles a \<and> se_t2pConverter a = []"
    "se_requestID a = RequestID r"
proof -
  show "EngineArgs r = None \<Longrightarrow> se_ocrType a = [] \<and> \<not> se_saveFiles a \<and> se_t2pConverter a = []"
    using assms by (auto simp: NewSandwichEngineArgs_def zero_sandwich_args_def)
  show "EngineArgs r \<noteq> None \<Longrightarrow> se_saveFiles a = wc_SaveFiles wc"
    using assms by (cases "config_vars_arg (arg_of (EngineArgs r) ''config_vars'')")
      (auto simp: NewSandwichEngineArgs_def Let_def split: sum.splits)
  show "EngineArgs r \<noteq> None \<Longrightarrow> se_t2pConverter a = wc_Tiff2pdfConverter wc"
    using assms by (cases "config_vars_arg (arg_of (EngineArgs r) ''config_vars'')")
      (auto simp: NewSandwichEngineArgs_def Let_def split: sum.splits)
  show "se_requestID a = RequestID r"
    using assms by (cases "config_vars_arg (arg_of (EngineArgs r) ''config_vars'')")
      (auto simp: NewSandwichEngineArgs_def zero_sandwich_args_def Let_def split: sum.splits if_splits)
qed

text \<open>A delivered result: what was read, and what the deferred function removed.\<close>

lemma sandwich_image_done:
  assumes "sandwich_processImageFile env f0 ty a t w = (w', res, e)" "Status res = ''done''"
  obtains w1 f w2 out w3 flag b where "sandwich_convert env ty a f0 w = (w1, Some f)"
    "runExternalCmd env ''pdfsandwich'' (fst (buildCmdLineArgs f a)) (seconds t) w1 = (w2, out, None)"
    "fst (sandwich_output env a f (f @ ''_ocr.pdf'') [f0] w2) = w3"
    "files w3 (delivered_file a f (f @ ''_ocr.pdf'')) = Some b" "b64_decode (Text res) = Some b"
    "w' = sandwich_cleanup a flag (f0 # intermediate_files a f (f @ ''_ocr.pdf'')) w3"
    "to_upper (se_ocrType a) \<in> set sandwich_types" "flag \<longrightarrow> to_upper (se_ocrType a) = ''TXT''"
  using assms
proof (cases rule: sandwich_imageE)
  case (stopped w1 f w2 out w3 del flag)
  then show thesis using sandwich_output_stopped(1) [OF stopped(3)] assms(2)
    by (simp add: zero_result_def)
next
  case (delivered w1 f w2 out w3 del flag d b)
  note sw = sandwich_output_delivered [OF delivered(3)]
  have "files w3 d = Some b" using delivered(4)
    by (auto simp: read_file_def split: option.splits prod.splits)
  with delivered sw that show thesis by (simp add: zero_result_def)
qed simp_all

lemma sandwich_cleanup_files:
  "files (sandwich_cleanup a flag del w) g =
     (if \<not> se_saveFiles a \<and> \<not> flag \<and> g \<in> set del then None else files w g)"
  by (simp add: sandwich_cleanup_def files_foldl_remove)

text \<open>The converters by name, and the fallback from one to the other.\<close>

definition converter :: "string \<Rightarrow> os_env \<Rightarrow> string \<Rightarrow> world \<Rightarrow> world \<times> string" where
  "converter name env f w = (if name = ''convert'' then convertImageToPdf env f w else tiff2Pdf env f w)"

definition other_converter :: "string \<Rightarrow> string" where
  "other_converter name = (if name = ''convert'' then ''tiff2pdf'' else ''convert'')"

lemma converter_result: "converter name env f w = (w', g) \<Longrightarrow> g = [] \<or> g = f @ ''.pdf''"
  by (auto simp: converter_def convertImageToPdf_def tiff2Pdf_def Let_def split: if_splits prod.splits)

lemma sandwich_convert_fallback:
  assumes "se_t2pConverter a \<in> {''convert'', ''tiff2pdf''}"
  shows "sandwich_convert env ''TIFF'' a f w =
    (case converter (se_t2pConverter a) env f w of
       (w1, g) \<Rightarrow>
         if g \<noteq> [] then (w1, Some (f @ ''.pdf''))
         else (case converter (other_converter (se_t2pConverter a)) env f w1 of
                 (w2, g) \<Rightarrow> (w2, if g = [] then None else Some (f @ ''.pdf''))))"
proof -
  obtain w1 g1 where c: "convertImageToPdf env f w = (w1, g1)" by fastforce
  obtain w2 g2 where t: "tiff2Pdf env f w = (w2, g2)" by fastforce
  obtain w3 g3 where ct: "tiff2Pdf env f w1 = (w3, g3)" by fastforce
  obtain w4 g4 where tc: "convertImageToPdf env f w2 = (w4, g4)" by fastforce
  have "g1 = [] \<or> g1 = f @ ''.pdf''" "g4 = [] \<or> g4 = f @ ''.pdf''"
    using converter_result [of "''convert''" env f w] converter_result [of "''convert''" env f w2] c tc
    by (simp_all add: converter_def)
  moreover have "g2 = [] \<or> g2 = f @ ''.pdf''" "g3 = [] \<or> g3 = f @ ''.pdf''"
    using converter_result [of "''tiff2pdf''" env f w] converter_result [of "''tiff2pdf''" env f w1] t ct
    by (simp_all add: converter_def)
  moreover have "se_t2pConverter a = ''convert'' \<or> se_t2pConverter a = ''tiff2pdf''" using assms by simp
  ultimately show ?thesis
    by (elim disjE) (simp_all add: sandwich_convert_def other_converter_def converter_def c t ct tc)
qed

text \<open>A TIFF with no converter configured goes to pdfsandwich as it is.\<close>

lemma sandwich_convert_unset:
  "se_t2pConverter a \<notin> {''convert'', ''tiff2pdf''} \<Longrightarrow> f \<noteq> [] \<Longrightarrow>
   sandwich_convert env ty a f w = (w, Some f)"
  by (simp add: sandwich_convert_def Let_def)

lemma sandwich_convert_pdf: "ty \<noteq> ''TIFF'' \<Longrightarrow> sandwich_convert env ty a f w = (w, Some f)"
  by (simp add: sandwich_convert_def)

text \<open>An image in bytes is written below the directory for temporary files.\<close>

lemma sandwich_bytes_confined:
  assumes "ImgBase64 r = []" "ImgUrl r = []" "RequestID r \<noteq> []"
    "env_write env (path_join (env_tmpdir env) (RequestID r)) = None"
  shows "sandwich_tmpFile env r w =
    (w\<lparr>files := (files w)(path_join (env_tmpdir env) (RequestID r)
        \<mapsto> (case ImgBytes r of None \<Rightarrow> [] | Some c \<Rightarrow> c))\<rparr>,
     path_join (env_tmpdir env) (RequestID r), None)"
  using assms
  by (simp add: sandwich_tmpFile_def sandwich_tmpFileFromImageBytes_def createTempFileName_def
      saveBytesToFileName_def)

lemma sandwich_export_layer:
  "Sandwich_Export a = (if se_lang a = [] then [] else [''-lang'', se_lang a])
     @ ''-tesso'' # ''-c textonly_pdf=1''
       # map (\<lambda>(k, v). k @ ''='' @ v) (case se_configVars a of None \<Rightarrow> [] | Some vs \<Rightarrow> vs)"
  by (simp add: Sandwich_Export_def split: option.splits)

lemma sandwich_convert_name:
  assumes "sandwich_convert env ty a f0 w = (w1, Some f)"
  shows "f = f0 \<or> f = f0 @ ''.pdf''"
  using assms converter_result [unfolded converter_def, of "''convert''" env f0, simplified]
    converter_result [unfolded converter_def, of "''tiff2pdf''" env f0, simplified]
  by (fastforce simp: sandwich_convert_def Let_def split: if_splits prod.splits)

text \<open>The layer file is never among the files that are removed.\<close>

lemma layer_not_intermediate:
  assumes "f = f0 \<or> f = f0 @ ''.pdf''"
  shows "f @ ''_ocr.pdf'' \<notin> set (f0 # intermediate_files a f (f @ ''_ocr.pdf''))"
  using assms by (auto simp: intermediate_files_def)

section \<open>A sample run\<close>

text \<open>Tools that leave a document of two bytes under the last name of their command line.\<close>

definition sample_sandwich :: os_env where
  "sample_sandwich = sample_env\<lparr>env_exec := (\<lambda>c args fs. (fs(last args \<mapsto> [7, 8]), [], None))\<rparr>"

definition sample_pdf_request :: "string \<Rightarrow> OcrRequest" where
  "sample_pdf_request ty = zero_request\<lparr>ImgBytes := Some [0x25, 0x50, 0x44, 0x46], TimeOut := 60,
     EngineArgs := Some [(''ocr_type'', JStr ty)]\<rparr>"

lemma sample_path: "path_join ''/tmp'' ''k0'' = ''/tmp/k0''"
  by (simp add: path_join_def path_clean_def clean_elems_def)

lemma sample_seconds: "seconds 60 = 60000000000"
  using seconds_exact [of 60] by simp

lemma sample_magic: "detectFileType ([0x25, 0x50, 0x44, 0x46] @ replicate 60 0) = ''PDF''"
  by (simp add: detectFileType_magic magic_type_def)

lemmas sample_sandwich_simps =
  sandwich_ProcessRequest_def sandwich_tmpFile_def sandwich_tmpFileFromImageBytes_def createTempFileName_def
  saveBytesToFileName_def readFirstBytes_def read_file_def NewSandwichEngineArgs_def zero_sandwich_args_def
  sandwich_processImageFile_def sandwich_convert_def buildCmdLineArgs_def Sandwich_Export_def runExternalCmd_def
  exec_cmd_def sandwich_output_def sandwich_cleanup_def sample_sandwich_def sample_env_def sample_world_def
  sample_pdf_request_def zero_request_def zero_result_def arg_of_def config_vars_arg_def string_arg_def bool_arg_def
  DefaultWorkerConfig_def sample_path sample_seconds

lemma sample_upper:
  "to_upper ''ocrlayeronly'' = ''OCRLAYERONLY''" "to_upper ''combinedpdf'' = ''COMBINEDPDF''"
  by code_simp+

lemma sample_layer_run:
  obtains wc' where "sandwich_ProcessRequest sample_sandwich (sample_pdf_request ''ocrlayeronly'')
      DefaultWorkerConfig sample_world
     = Ret (\<lparr>files = [''/tmp/k0_ocr.pdf'' \<mapsto> [7, 8]], ksuids = 1\<rparr>, wc',
            \<lparr>Text = b64_encode [7, 8], Status = ''done'', ID = []\<rparr>, None)"
proof
  show "sandwich_ProcessRequest sample_sandwich (sample_pdf_request ''ocrlayeronly'') DefaultWorkerConfig sample_world
     = Ret (\<lparr>files = [''/tmp/k0_ocr.pdf'' \<mapsto> [7, 8]], ksuids = 1\<rparr>, strip_config sample_sandwich DefaultWorkerConfig,
            \<lparr>Text = b64_encode [7, 8], Status = ''done'', ID = []\<rparr>, None)"
    using sample_magic
    by (simp add: sample_sandwich_simps sample_upper strip_config_def remove_file_def fun_upd_def Let_def
        StripPasswordFromUrl_def del: to_upper.simps) (auto simp: fun_eq_iff)
qed

text \<open>The same with a pdftk that fails.\<close>

lemma sample_failed_run:
  obtains w' wc' where "sandwich_ProcessRequest (sample_sandwich\<lparr>env_exec := (\<lambda>c args fs.
        if c = ''pdftk'' then (fs, [], Some ''exit status 1'') else (fs(last args \<mapsto> [7, 8]), [], None))\<rparr>)
      (sample_pdf_request ''combinedpdf'') DefaultWorkerConfig sample_world
     = Ret (w', wc', \<lparr>Text = [], Status = ''error'', ID = []\<rparr>, None)"
proof -
  let ?env = "sample_sandwich\<lparr>env_exec := (\<lambda>c args fs.
        if c = ''pdftk'' then (fs, [], Some ''exit status 1'') else (fs(last args \<mapsto> [7, 8]), [], None))\<rparr>"
  have "\<exists>w' wc'. sandwich_ProcessRequest ?env
      (sample_pdf_request ''combinedpdf'') DefaultWorkerConfig sample_world
     = Ret (w', wc', \<lparr>Text = [], Status = ''error'', ID = []\<rparr>, None)"
    using sample_magic
    by (simp add: sample_sandwich_simps sample_upper Let_def del: to_upper.simps)
  then show thesis using that by blast
qed

section \<open>Properties\<close>



text \<open>The file of the text layer is never removed: after a successful run with the output type
  OCRLAYERONLY the delivered document is still on the machine, although the worker does not
  keep files.\<close>

lemma layer_file_stays:
  assumes "sandwich_processImageFile env f0 ty a t w = (w', res, e)" "Status res = ''done''"
    and "to_upper (se_ocrType a) = ''OCRLAYERONLY''"
  shows "\<exists>f b. (f = f0 \<or> f = f0 @ ''.pdf'') \<and> files w' (f @ ''_ocr.pdf'') = Some b \<and> b64_decode (Text res) = Some b"
proof -
  from sandwich_image_done [OF assms(1,2)] obtain u1 f flag b and w3 :: world where d:
    "sandwich_convert env ty a f0 w = (u1, Some f)"
    "files w3 (delivered_file a f (f @ ''_ocr.pdf'')) = Some b" "b64_decode (Text res) = Some b"
    "w' = sandwich_cleanup a flag (f0 # intermediate_files a f (f @ ''_ocr.pdf'')) w3" by metis
  note name = sandwich_convert_name [OF d(1)]
  have "files w' (f @ ''_ocr.pdf'') = files w3 (f @ ''_ocr.pdf'')"
    using layer_not_intermediate [OF name] unfolding d(4) sandwich_cleanup_files by simp
  with d(2,3) name assms(3) show ?thesis by (auto simp: delivered_file_def)
qed

text \<open>An engine answer with the status error but without an error value comes from a combined
  document whose pdftk or gs has failed: every other failure has an error value.\<close>

lemma silent_failure_is_pdf_tool:
  assumes "sandwich_ProcessRequest env r wc w = Ret (w', wc', res, None)" "Status res \<noteq> ''done''"
  shows "Status res = ''error'' \<and> (\<exists>a. NewSandwichEngineArgs env r (strip_config env wc) = Ret (Inr a)
    \<and> to_upper (se_ocrType a) = ''COMBINEDPDF'')"
  using assms(1)
proof (cases rule: sandwich_processE)
  case (run w1 f buf ty a)
  with sandwich_image_silent [OF run(7) assms(2)] sandwich_image_contract(2) [OF run(7)] assms(2)
  show ?thesis by auto
qed simp

text \<open>A TIFF image is given up only when both converters have failed on it, whichever of the two is
  configured; otherwise the intermediate PDF goes on.\<close>

lemma tiff_conversion_fallback:
  assumes "se_t2pConverter a \<in> {''convert'', ''tiff2pdf''}"
    and "converter (se_t2pConverter a) env f w = (w1, g1)"
    and "converter (other_converter (se_t2pConverter a)) env f w1 = (w2, g2)"
  shows "sandwich_convert env ''TIFF'' a f w =
    (if g1 \<noteq> [] then (w1, Some (f @ ''.pdf'')) else if g2 \<noteq> [] then (w2, Some (f @ ''.pdf'')) else (w2, None))"
  by (simp add: sandwich_convert_fallback [OF assms(1)] assms(2,3))

text \<open>A request without engine arguments is never processed by the sandwich engine: it has no
  output type, and the worker's settings are not even looked at.\<close>

lemma sandwich_needs_arguments:
  assumes "sandwich_ProcessRequest env r wc w = Ret (w', wc', res, e)" "EngineArgs r = None"
  shows "Status res = ''error'' \<and> e \<noteq> None"
proof -
  show ?thesis using assms(1)
  proof (cases rule: sandwich_processE)
    case (run w1 f buf ty a)
    have ty: "se_ocrType a = []" using new_sandwich_args_fields(3) [OF run(6) assms(2)] by simp
    have "Status res \<noteq> ''done''"
    proof
      assume "Status res = ''done''"
      from sandwich_image_done [OF run(7) this] ty show False
        by (simp add: sandwich_types_def)
    qed
    moreover have "e \<noteq> None"
    proof
      assume "e = None"
      with run(7) have "sandwich_processImageFile env f ty a (TimeOut r) w1 = (w', res, None)" by simp
      from sandwich_image_silent [OF this \<open>Status res \<noteq> ''done''\<close>] ty show False by simp
    qed
    ultimately show ?thesis using sandwich_image_contract(2) [OF run(7)] by blast
  qed (simp add: zero_result_def)
qed

text \<open>The identifier of a request that carries its image as base64 is taken as a path: the engine
  writes the decoded image over the file of that name, wherever it is.\<close>

lemma request_id_is_a_path:
  assumes "RequestID r \<noteq> []" "ImgBase64 r \<noteq> []" "b64_decode (ImgBase64 r) = Some c"
    and "env_write env (RequestID r) = None"
  shows "sandwich_tmpFile env r w = (w\<lparr>files := (files w)(RequestID r \<mapsto> c)\<rparr>, RequestID r, None)"
  using assms
  by (simp add: sandwich_tmpFile_def sandwich_tmpFileFromImageBase64_def named_or_temp_def
      saveBytesToFileName_def)

text \<open>A base64 image that does not decode is not an error for either engine: both go on with an
  empty file name, without having written anything.\<close>

lemma undecodable_base64_is_no_error:
  assumes "ImgBase64 r \<noteq> []" "b64_decode (ImgBase64 r) = None"
  shows "(\<exists>w1. tesseract_tmpFile env r w = (w1, [], None) \<and> files w1 = files w)
    \<and> (\<exists>w1. sandwich_tmpFile env r w = (w1, [], None) \<and> files w1 = files w)"
proof
  show "\<exists>w1. tesseract_tmpFile env r w = (w1, [], None) \<and> files w1 = files w"
    by (rule tesseract_bad_base64 [OF assms])
  show "\<exists>w1. sandwich_tmpFile env r w = (w1, [], None) \<and> files w1 = files w"
    using assms by (auto simp: sandwich_tmpFile_def sandwich_tmpFileFromImageBase64_def named_or_temp_def
        createTempFileName_def)
qed

end
