(* ===== verification/Ocr_Engine.thy ===== *)
theory Ocr_Engine
  imports Sandwich_Engine
begin

text \<open>
  The OcrEngine interface of ocr_engine.go, its three implementations and the factory
  NewOcrEngine. The interface is a locale whose laws are what the worker relies on; the
  interpretations discharge them for the three engines and for the dispatch over them.
\<close>

section \<open>The mock engine\<close>

definition MockEngineResponse :: string where
  "MockEngineResponse = ''mock engine decoder response''"

definition mock_ProcessRequest ::
  "os_env \<Rightarrow> OcrRequest \<Rightarrow> WorkerConfig \<Rightarrow> world
     \<Rightarrow> (world \<times> WorkerConfig \<times> OcrResult \<times> go_error) outcome" where
  "mock_ProcessRequest env r wc w = Ret (w, wc, zero_result\<lparr>Text := MockEngineResponse\<rparr>, None)"

section \<open>The factory and the dynamic dispatch\<close>

datatype OcrEngine = MockEngine | TesseractEngine | SandwichEngine

definition NewOcrEngine :: "OcrEngineType \<Rightarrow> OcrEngine option" where
  "NewOcrEngine engineType =
     (if engineType = EngineMock then Some MockEngine
      else if engineType = EngineTesseract then Some TesseractEngine
      else if engineType = EngineSandwichTesseract then Some SandwichEngine
      else None)"

fun engine_ProcessRequest ::
  "OcrEngine \<Rightarrow> os_env \<Rightarrow> OcrRequest \<Rightarrow> WorkerConfig \<Rightarrow> world
     \<Rightarrow> (world \<times> WorkerConfig \<times> OcrResult \<times> go_error) outcome" where
  "engine_ProcessRequest MockEngine = mock_ProcessRequest"
| "engine_ProcessRequest TesseractEngine = tesseract_ProcessRequest"
| "engine_ProcessRequest SandwichEngine = sandwich_ProcessRequest"

text \<open>A method call on an interface value, which may be nil.\<close>

definition ProcessRequest ::
  "OcrEngine option \<Rightarrow> os_env \<Rightarrow> OcrRequest \<Rightarrow> WorkerConfig \<Rightarrow> world
     \<Rightarrow> (world \<times> WorkerConfig \<times> OcrResult \<times> go_error) outcome" where
  "ProcessRequest e env r wc w =
     (case e of
        None \<Rightarrow> Panic ''runtime error: invalid memory address or nil pointer dereference''
      | Some e \<Rightarrow> engine_ProcessRequest e env r wc w)"

section \<open>The contract of an engine\<close>

text \<open>
  An engine leaves the identifier to the worker, reports done only without an error, keeps
  what the worker needs of its configuration to answer, and panics on nothing but
  config_vars of the wrong type.
\<close>

definition same_routing :: "WorkerConfig \<Rightarrow> WorkerConfig \<Rightarrow> bool" where
  "same_routing wc wc' \<longleftrightarrow> wc_Exchange wc' = wc_Exchange wc \<and> wc_ExchangeType wc' = wc_ExchangeType wc
     \<and> wc_RoutingKey wc' = wc_RoutingKey wc \<and> wc_Reliable wc' = wc_Reliable wc
     \<and> wc_SaveFiles wc' = wc_SaveFiles wc \<and> wc_Tiff2pdfConverter wc' = wc_Tiff2pdfConverter wc"

lemma same_routing_refl [simp]: "same_routing wc wc"
  by (simp add: same_routing_def)

lemma same_routing_trans: "same_routing a b \<Longrightarrow> same_routing b c \<Longrightarrow> same_routing a c"
  by (simp add: same_routing_def)

locale ocr_engine =
  fixes process :: "os_env \<Rightarrow> OcrRequest \<Rightarrow> WorkerConfig \<Rightarrow> world
    \<Rightarrow> (world \<times> WorkerConfig \<times> OcrResult \<times> go_error) outcome"
    and panic_free :: "OcrRequest \<Rightarrow> bool"
  assumes no_id: "process env r wc w = Ret (w', wc', res, e) \<Longrightarrow> ID res = []"
    and done_no_error: "process env r wc w = Ret (w', wc', res, e) \<Longrightarrow> Status res = ''done'' \<Longrightarrow> e = None"
    and keeps_routing: "process env r wc w = Ret (w', wc', res, e) \<Longrightarrow> same_routing wc wc'"
    and no_panic: "panic_free r \<Longrightarrow> \<not> panics (process env r wc w)"
begin

text \<open>
  What a worker makes of an engine's answer: the status error if there is an error value,
  so that done means that the engine returned done.
\<close>

lemma reported_done:
  assumes "process env r wc w = Ret (w', wc', res, e)"
    and "res' = (case e of None \<Rightarrow> res | Some err \<Rightarrow> res\<lparr>Text := t err, Status := ''error''\<rparr>)"
  shows "Status res' = ''done'' \<longleftrightarrow> Status res = ''done''" "ID res' = []"
    "e \<noteq> None \<Longrightarrow> Status res' = ''error''"
  using assms no_id done_no_error by (fastforce split: option.splits)+

lemma returns:
  assumes "panic_free r"
  obtains w' wc' res e where "process env r wc w = Ret (w', wc', res, e)" "same_routing wc wc'"
  using no_panic [OF assms, of env wc w] keeps_routing
  by (cases "process env r wc w") (auto simp: panics_def)

end

interpretation mock_engine: ocr_engine mock_ProcessRequest "\<lambda>_. True"
  by unfold_locales (auto simp: mock_ProcessRequest_def zero_result_def)

interpretation tesseract_engine: ocr_engine tesseract_ProcessRequest "\<lambda>r. \<not> bad_config_vars r"
  by unfold_locales (auto dest: tesseract_contract tesseract_process_panics)

interpretation sandwich_engine: ocr_engine sandwich_ProcessRequest "\<lambda>r. \<not> bad_config_vars r"
  by unfold_locales (auto simp: same_routing_def dest: sandwich_contract sandwich_process_panics)

definition engine_panic_free :: "OcrEngine option \<Rightarrow> OcrRequest \<Rightarrow> bool" where
  "engine_panic_free e r \<longleftrightarrow> e \<noteq> None \<and> (e = Some MockEngine \<or> \<not> bad_config_vars r)"

interpretation any_engine: ocr_engine "ProcessRequest e" "engine_panic_free e" for e
proof
  fix env r wc w w' wc' res err
  assume p: "ProcessRequest e env r wc w = Ret (w', wc', res, err)"
  then obtain en where e: "e = Some en" by (cases e) (simp_all add: ProcessRequest_def)
  with p show "ID res = []"
    by (cases en) (auto simp: ProcessRequest_def
        dest: mock_engine.no_id tesseract_engine.no_id sandwich_engine.no_id)
  from p e show "same_routing wc wc'"
    by (cases en) (auto simp: ProcessRequest_def
        dest: mock_engine.keeps_routing tesseract_engine.keeps_routing sandwich_engine.keeps_routing)
  assume "Status res = ''done''"
  with p e show "err = None"
    by (cases en) (auto simp: ProcessRequest_def dest: mock_engine.done_no_error
        tesseract_engine.done_no_error sandwich_engine.done_no_error)
next
  fix env r wc w
  assume "engine_panic_free e r"
  then obtain en where "e = Some en" "en = MockEngine \<or> \<not> bad_config_vars r"
    by (auto simp: engine_panic_free_def)
  then show "\<not> panics (ProcessRequest e env r wc w)"
    using mock_engine.no_panic tesseract_engine.no_panic sandwich_engine.no_panic
    by (cases en) (auto simp: ProcessRequest_def)
qed

text \<open>Which engine numbers have an engine.\<close>

lemma NewOcrEngine_None:
  "NewOcrEngine t = None \<longleftrightarrow> t \<notin> {EngineMock, EngineTesseract, EngineSandwichTesseract}"
  by (auto simp: NewOcrEngine_def)

lemma ProcessRequest_nil: "panics (ProcessRequest None env r wc w)"
  by (simp add: ProcessRequest_def)

end
