(* ===== verification/Ocr_Worker.thy ===== *)
theory Ocr_Worker
  imports Ocr_Engine Ocr_Amqp
begin

text \<open>
  ocr_rpc_worker.go: the worker that takes requests from the broker, has an engine process
  each, publishes the result to the queue named in the delivery and acknowledges it. The
  goroutine handle is a function of the list of deliveries; its second result is what it
  sends on Done.
\<close>

record OcrRpcWorker =
  w_workerConfig :: WorkerConfig
  w_tag :: string

definition NewOcrRpcWorker :: "string \<Rightarrow> WorkerConfig \<Rightarrow> OcrRpcWorker \<times> go_error" where
  "NewOcrRpcWorker tag wc = (\<lparr>w_workerConfig = wc, w_tag = tag\<rparr>, None)"

section \<open>Run and Shutdown\<close>

definition nil_dereference :: string where
  "nil_dereference = ''runtime error: invalid memory address or nil pointer dereference''"

text \<open>The address is parsed for the log, and the parser's error is dropped with its nil result.\<close>

definition w_Run ::
  "os_env \<Rightarrow> broker \<Rightarrow> OcrRpcWorker \<Rightarrow> amqp_trace \<Rightarrow> (amqp_trace \<times> go_error) outcome" where
  "w_Run env br wk tr =
     (let wc = w_workerConfig wk; queueArgs = Some [(''x-max-priority'', 9)] in
      case env_url_parse env (wc_AmqpURI wc) of
        Inl _ \<Rightarrow> Panic nil_dereference
      | Inr urlToLog \<Rightarrow> Ret
          (case amqp_all br
             [Dial (wc_AmqpURI wc), OpenChannel, Qos (sint (wc_NumParallelJobs wc)) 0 True,
              ExchangeDeclare (wc_Exchange wc) (wc_ExchangeType wc) True False False False,
              QueueDeclare (wc_RoutingKey wc) True False False False queueArgs] tr of
             (tr1, Some e) \<Rightarrow> (tr1, Some e)
           | (tr1, None) \<Rightarrow>
               (let queue = br_queue br tr1 (wc_RoutingKey wc) in
                amqp_all br
                  [QueueBind queue (wc_RoutingKey wc) (wc_Exchange wc) False queueArgs,
                   Consume queue (w_tag wk) False False False False queueArgs] tr1)))"

definition w_Shutdown ::
  "broker \<Rightarrow> OcrRpcWorker \<Rightarrow> go_error \<Rightarrow> amqp_trace \<Rightarrow> amqp_trace \<times> go_error" where
  "w_Shutdown br wk done_value tr =
     (case amqp_do br (CancelConsumer (w_tag wk) True) tr of
        (tr1, Some e) \<Rightarrow> (tr1, Some (''worker with tag '' @ w_tag wk @ '' cancel failed: '' @ e))
      | (tr1, None) \<Rightarrow>
          (case amqp_do br CloseConn tr1 of
             (tr2, Some e) \<Rightarrow>
               (tr2, Some (''AMQP connection with worker '' @ w_tag wk @ '' close error: '' @ e))
           | (tr2, None) \<Rightarrow> (tr2, done_value)))"

text \<open>A worker that runs gets the messages of its routing key and acknowledges them itself.\<close>

lemma w_Run_receives:
  assumes "w_Run env br wk tr = Ret (tr', None)"
  shows "receives tr' (wc_Exchange (w_workerConfig wk)) (wc_RoutingKey (w_workerConfig wk)) False"
    "published tr' = published tr" "acked tr' = acked tr"
    "\<exists>more. tr' = tr @ Dial (wc_AmqpURI (w_workerConfig wk)) # more"
proof -
  from assms obtain q where "tr' = tr @ [Dial (wc_AmqpURI (w_workerConfig wk)), OpenChannel,
      Qos (sint (wc_NumParallelJobs (w_workerConfig wk))) 0 True,
      ExchangeDeclare (wc_Exchange (w_workerConfig wk)) (wc_ExchangeType (w_workerConfig wk)) True False False False,
      QueueDeclare (wc_RoutingKey (w_workerConfig wk)) True False False False (Some [(''x-max-priority'', 9)]),
      QueueBind q (wc_RoutingKey (w_workerConfig wk)) (wc_Exchange (w_workerConfig wk)) False (Some [(''x-max-priority'', 9)]),
      Consume q (w_tag wk) False False False False (Some [(''x-max-priority'', 9)])]"
    by (auto simp: w_Run_def Let_def split: sum.splits option.splits prod.splits dest!: amqp_all_ok)
  then show "receives tr' (wc_Exchange (w_workerConfig wk)) (wc_RoutingKey (w_workerConfig wk)) False"
    "published tr' = published tr" "acked tr' = acked tr"
    "\<exists>more. tr' = tr @ Dial (wc_AmqpURI (w_workerConfig wk)) # more" by (auto simp: receives_def)
qed

section \<open>One delivery\<close>

text \<open>The engine gets a pointer to the worker's configuration, so its changes stay.\<close>

definition resultForDelivery ::
  "os_env \<Rightarrow> OcrRpcWorker \<Rightarrow> delivery \<Rightarrow> world
     \<Rightarrow> (world \<times> OcrRpcWorker \<times> OcrResult \<times> go_error) outcome" where
  "resultForDelivery env wk d w =
     (case unmarshal decode_request (d_Body d) zero_request of
        (_, Some err) \<Rightarrow>
          Ret (w, wk,
            \<lparr>Text = ''Error unmarshalling json: '' @ d_CorrelationId d @ ''.  Error: '' @ err,
             Status = ''error'', ID = d_CorrelationId d\<rparr>, Some err)
      | (ocrRequest, None) \<Rightarrow>
          bind_outcome
            (ProcessRequest (NewOcrEngine (EngineType ocrRequest)) env ocrRequest (w_workerConfig wk) w)
            (\<lambda>(w', wc', ocrResult, e). Ret (w', wk\<lparr>w_workerConfig := wc'\<rparr>,
               (case e of
                  None \<Rightarrow> ocrResult
                | Some err \<Rightarrow> ocrResult\<lparr>Text := ''Error processing image url: '' @ RequestID ocrRequest
                      @ ''.  Error: '' @ err, Status := ''error''\<rparr>), e)))"

text \<open>
  confirmDeliveryWorker is deferred: it waits for a confirmation on every way out that
  follows the registration, and panics when none comes.
\<close>

definition confirmDeliveryWorker :: "broker \<Rightarrow> amqp_trace \<Rightarrow> unit outcome" where
  "confirmDeliveryWorker br tr =
     (case br_confirm br tr of
        NoConfirmation \<Rightarrow> Panic ''timeout trying to confirm delivery. Worker panic''
      | _ \<Rightarrow> Ret ())"

definition response :: "OcrResult \<Rightarrow> string \<Rightarrow> publishing" where
  "response r correlationId =
     \<lparr>p_ContentType = ''text/plain'', p_Body = Some (encode_result r), p_DeliveryMode = Transient,
      p_Priority = 0, p_ReplyTo = [], p_CorrelationId = correlationId\<rparr>"

definition sendRpcResponse ::
  "broker \<Rightarrow> OcrRpcWorker \<Rightarrow> OcrResult \<Rightarrow> string \<Rightarrow> string \<Rightarrow> amqp_trace
     \<Rightarrow> (amqp_trace \<times> go_error) outcome" where
  "sendRpcResponse br wk r replyTo correlationId tr =
     (let wc = w_workerConfig wk;
          publish = amqp_do br (Publish (wc_Exchange wc) replyTo False False (response r correlationId)) in
      if wc_Reliable wc then
        (case amqp_do br (ConfirmMode False) tr of
           (tr1, Some e) \<Rightarrow> Ret (tr1, Some e)
         | (tr1, None) \<Rightarrow>
             (case publish tr1 of
                (tr2, e) \<Rightarrow> bind_outcome (confirmDeliveryWorker br tr2) (\<lambda>_. Ret (tr2, e))))
      else Ret (publish tr))"

fun w_handle ::
  "broker \<Rightarrow> os_env \<Rightarrow> delivery list \<Rightarrow> OcrRpcWorker \<Rightarrow> world \<Rightarrow> amqp_trace
     \<Rightarrow> ((OcrRpcWorker \<times> world \<times> amqp_trace) \<times> string list) outcome" where
  "w_handle br env [] wk w tr = Ret ((wk, w, tr), [''handle: deliveries channel closed''])"
| "w_handle br env (d # ds) wk w tr =
     bind_outcome (resultForDelivery env wk d w)
       (\<lambda>(w1, wk1, ocrResult, _).
          bind_outcome (sendRpcResponse br wk1 ocrResult (d_ReplyTo d) (d_CorrelationId d) tr)
            (\<lambda>(tr1, e). case e of
                Some err \<Rightarrow> Ret ((wk1, w1, tr1), [err, ''handle: deliveries channel closed''])
              | None \<Rightarrow>
                  (case amqp_do br (Ack (d_DeliveryTag d) False) tr1 of
                     (tr2, _) \<Rightarrow> w_handle br env ds wk1 w1 tr2)))"

section \<open>Facts\<close>

text \<open>The result for a delivery, in terms of the engine's answer.\<close>

lemma resultForDeliveryE:
  assumes "resultForDelivery env wk d w = Ret (w', wk', res, e)"
  obtains (undecoded) err where "snd (unmarshal decode_request (d_Body d) zero_request) = Some err"
      "w' = w" "wk' = wk" "Status res = ''error''" "ID res = d_CorrelationId d" "e = Some err"
  | (processed) r wc' res0 where "unmarshal decode_request (d_Body d) zero_request = (r, None)"
      "ProcessRequest (NewOcrEngine (EngineType r)) env r (w_workerConfig wk) w = Ret (w', wc', res0, e)"
      "wk' = wk\<lparr>w_workerConfig := wc'\<rparr>" "Status res = ''done'' \<longleftrightarrow> Status res0 = ''done''"
      "ID res = []" "e = None \<Longrightarrow> res = res0" "e \<noteq> None \<Longrightarrow> Status res = ''error''"
proof -
  obtain r u where u: "unmarshal decode_request (d_Body d) zero_request = (r, u)" by fastforce
  show thesis
  proof (cases u)
    case (Some err)
    with assms u undecoded show thesis by (auto simp: resultForDelivery_def)
  next
    case None
    with assms u obtain wc' res0 where
      p: "ProcessRequest (NewOcrEngine (EngineType r)) env r (w_workerConfig wk) w = Ret (w', wc', res0, e)"
      and wk: "wk' = wk\<lparr>w_workerConfig := wc'\<rparr>"
      and res: "res = (case e of None \<Rightarrow> res0 | Some err \<Rightarrow> res0\<lparr>Text := ''Error processing image url: ''
          @ RequestID r @ ''.  Error: '' @ err, Status := ''error''\<rparr>)"
      by (auto simp: resultForDelivery_def outcome_simps)
    note reported = any_engine.reported_done [OF p res]
    show thesis
      by (rule processed [of r wc' res0]) (use u None p wk res reported in auto)
  qed
qed

lemma resultForDelivery_routing:
  assumes "resultForDelivery env wk d w = Ret (w', wk', res, e)"
  shows "same_routing (w_workerConfig wk) (w_workerConfig wk')" "w_tag wk' = w_tag wk"
  using assms
  by (cases rule: resultForDeliveryE; auto dest: any_engine.keeps_routing)+

lemma resultForDelivery_error: "resultForDelivery env wk d w = Ret (w', wk', res, Some e) \<Longrightarrow> Status res = ''error''"
  by (erule resultForDeliveryE) simp_all

text \<open>A response is published at most once, to the right queue; success means that it was.\<close>

lemma sendRpcResponse_trace:
  assumes "sendRpcResponse br wk r q c tr = Ret (tr', e)"
  shows "acked tr' = acked tr" "e = None \<Longrightarrow> published tr' = published tr @ [(q, response r c)]"
    "published tr' = published tr \<or> published tr' = published tr @ [(q, response r c)]"
  using assms
  by (auto simp: sendRpcResponse_def amqp_do_def outcome_simps Let_def split: if_splits option.splits)

text \<open>The same answer can be read back by whoever receives it.\<close>

lemma response_readback: "unmarshal decode_result (p_Body (response r c)) r0 = (r, None)"
  by (simp add: response_def decode_encode_result)

lemma w_handle_step:
  assumes "w_handle br env (d # ds) wk w tr = Ret out"
  obtains w1 wk1 res e0 tr1 e where "resultForDelivery env wk d w = Ret (w1, wk1, res, e0)"
    "sendRpcResponse br wk1 res (d_ReplyTo d) (d_CorrelationId d) tr = Ret (tr1, e)"
    "out = ((wk1, w1, tr1), [the e, ''handle: deliveries channel closed'']) \<and> e \<noteq> None \<or>
     e = None \<and> w_handle br env ds wk1 w1 (tr1 @ [Ack (d_DeliveryTag d) False]) = Ret out"
proof -
  from assms obtain x where r: "resultForDelivery env wk d w = Ret x"
    by (cases "resultForDelivery env wk d w") auto
  obtain w1 wk1 res e0 where x: "x = (w1, wk1, res, e0)" by (cases x)
  from assms r x obtain y where
    s: "sendRpcResponse br wk1 res (d_ReplyTo d) (d_CorrelationId d) tr = Ret y"
    by (cases "sendRpcResponse br wk1 res (d_ReplyTo d) (d_CorrelationId d) tr") auto
  obtain tr1 e where y: "y = (tr1, e)" by (cases y)
  show thesis
    using assms r s x y by (intro that [of w1 wk1 res e0 tr1 e]) (auto simp: amqp_do_def split: option.splits)
qed

text \<open>The deliveries of a queue: those acknowledged are an initial part, and all were answered.\<close>

lemma w_handle_answers:
  assumes "w_handle br env ds wk w tr = Ret ((wk', w', tr'), dones)"
  shows "\<exists>n new. n \<le> length ds \<and> acked tr' = acked tr @ map d_DeliveryTag (take n ds)
    \<and> published tr' = published tr @ new
    \<and> (n = length ds \<longrightarrow> dones = [''handle: deliveries channel closed''])
    \<and> (n < length ds \<longrightarrow> length dones = 2)
    \<and> n \<le> length new \<and> length new \<le> Suc n
    \<and> map (\<lambda>(q, p). (q, p_CorrelationId p)) (take n new)
        = map (\<lambda>d. (d_ReplyTo d, d_CorrelationId d)) (take n ds)"
  using assms
proof (induction ds arbitrary: wk w tr)
  case (Cons d ds)
  from Cons.prems obtain w1 wk1 res e0 tr1 e where
    s: "sendRpcResponse br wk1 res (d_ReplyTo d) (d_CorrelationId d) tr = Ret (tr1, e)"
    and out: "((wk', w', tr'), dones) = ((wk1, w1, tr1), [the e, ''handle: deliveries channel closed'']) \<and> e \<noteq> None \<or>
     e = None \<and> w_handle br env ds wk1 w1 (tr1 @ [Ack (d_DeliveryTag d) False]) = Ret ((wk', w', tr'), dones)"
    by (rule w_handle_step)
  note t = sendRpcResponse_trace [OF s]
  show ?case
  proof (cases e)
    case (Some err)
    with out have d: "tr' = tr1" "length dones = 2" by auto
    have "\<exists>new. published tr1 = published tr @ new \<and> length new \<le> 1" using t(3) by auto
    with d t(1) show ?thesis by (intro exI [of _ 0]) auto
  next
    case None
    with out have "w_handle br env ds wk1 w1 (tr1 @ [Ack (d_DeliveryTag d) False])
        = Ret ((wk', w', tr'), dones)"
      by simp
    from Cons.IH [OF this] obtain n new where n: "n \<le> length ds"
      "acked tr' = acked (tr1 @ [Ack (d_DeliveryTag d) False]) @ map d_DeliveryTag (take n ds)"
      "published tr' = published (tr1 @ [Ack (d_DeliveryTag d) False]) @ new"
      "n = length ds \<longrightarrow> dones = [''handle: deliveries channel closed'']"
      "n < length ds \<longrightarrow> length dones = 2"
      "n \<le> length new" "length new \<le> Suc n"
      "map (\<lambda>(q, p). (q, p_CorrelationId p)) (take n new)
        = map (\<lambda>d. (d_ReplyTo d, d_CorrelationId d)) (take n ds)" by blast
    let ?new = "(d_ReplyTo d, response res (d_CorrelationId d)) # new"
    have "published tr' = published tr @ ?new" using n(3) t(2) [OF None] by simp
    moreover have "acked tr' = acked tr @ map d_DeliveryTag (take (Suc n) (d # ds))"
      using n(2) t(1) by simp
    ultimately show ?thesis using n
      by (intro exI [of _ "Suc n"] exI [of _ ?new]) (simp add: response_def)
  qed
qed auto

text \<open>Without reliable publishing, the worker panics only where an engine does.\<close>

definition safe_delivery :: "delivery \<Rightarrow> bool" where
  "safe_delivery d =
     (case unmarshal decode_request (d_Body d) zero_request of
        (r, None) \<Rightarrow> engine_panic_free (NewOcrEngine (EngineType r)) r
      | _ \<Rightarrow> True)"

lemma resultForDelivery_total: "safe_delivery d \<Longrightarrow> \<not> panics (resultForDelivery env wk d w)"
proof -
  assume safe: "safe_delivery d"
  obtain r u where u: "unmarshal decode_request (d_Body d) zero_request = (r, u)" by fastforce
  show ?thesis
  proof (cases u)
    case None
    with safe u have "engine_panic_free (NewOcrEngine (EngineType r)) r" by (simp add: safe_delivery_def)
    from any_engine.returns [OF this] obtain w' wc' res e where
      "ProcessRequest (NewOcrEngine (EngineType r)) env r (w_workerConfig wk) w = Ret (w', wc', res, e)" .
    with u None show ?thesis by (simp add: resultForDelivery_def)
  qed (simp add: resultForDelivery_def u)
qed

lemma sendRpcResponse_total: "\<not> wc_Reliable (w_workerConfig wk) \<Longrightarrow> \<not> panics (sendRpcResponse br wk r q c tr)"
  by (simp add: sendRpcResponse_def Let_def)

lemma w_handle_total:
  assumes "\<forall>d \<in> set ds. safe_delivery d" "\<not> wc_Reliable (w_workerConfig wk)"
  shows "\<not> panics (w_handle br env ds wk w tr)"
  using assms
proof (induction ds arbitrary: wk w tr)
  case (Cons d ds)
  obtain w1 wk1 res e0 where r: "resultForDelivery env wk d w = Ret (w1, wk1, res, e0)"
    using resultForDelivery_total [of d env wk w] Cons.prems(1)
    by (cases "resultForDelivery env wk d w") auto
  with resultForDelivery_routing [OF r] Cons.prems(2) have rel: "\<not> wc_Reliable (w_workerConfig wk1)"
    by (simp add: same_routing_def)
  obtain tr1 e where s: "sendRpcResponse br wk1 res (d_ReplyTo d) (d_CorrelationId d) tr = Ret (tr1, e)"
    using sendRpcResponse_total [OF rel, of br res "d_ReplyTo d" "d_CorrelationId d" tr]
    by (cases "sendRpcResponse br wk1 res (d_ReplyTo d) (d_CorrelationId d) tr") auto
  show ?case using Cons.IH [OF _ rel] Cons.prems(1) r s
    by (cases e) (simp_all add: amqp_do_def)
qed simp

lemma sendRpcResponse_extends:
  "sendRpcResponse br wk r q c tr = Ret (tr', e) \<Longrightarrow> \<exists>more. tr' = tr @ more"
  by (auto simp: sendRpcResponse_def amqp_do_def Let_def bind_outcome_Ret_iff
      split: if_splits prod.splits option.splits)

lemma w_handle_extends:
  assumes "w_handle br env ds wk w tr = Ret ((wk', w', tr'), dones)"
  shows "\<exists>more. tr' = tr @ more" "dones \<noteq> []"
proof -
  have "(\<exists>more. tr' = tr @ more) \<and> dones \<noteq> []" using assms
  proof (induction ds arbitrary: wk w tr)
    case (Cons d ds)
    from Cons.prems show ?case
    proof (cases rule: w_handle_step)
      case (1 w1 wk1 res e0 tr1 e)
      from sendRpcResponse_extends [OF 1(2)] obtain m where m: "tr1 = tr @ m" by blast
      from 1(3) show ?thesis
      proof (elim disjE conjE)
        assume "w_handle br env ds wk1 w1 (tr1 @ [Ack (d_DeliveryTag d) False]) = Ret ((wk', w', tr'), dones)"
        from Cons.IH [OF this] m show ?thesis by auto
      qed (simp add: m)
    qed
  qed auto
  then show "\<exists>more. tr' = tr @ more" "dones \<noteq> []" by simp_all
qed

section \<open>Properties\<close>


text \<open>A worker with the mock engine, and a broker whose third call fails.\<close>

definition sample_worker :: OcrRpcWorker where
  "sample_worker = fst (NewOcrRpcWorker ''t'' DefaultWorkerConfig)"

definition mock_delivery :: "string \<Rightarrow> uint64 \<Rightarrow> delivery" where
  "mock_delivery i t = \<lparr>d_Body = Some (encode_request (zero_request\<lparr>EngineType := EngineMock, RequestID := i\<rparr>)),
     d_ReplyTo = i, d_CorrelationId = i, d_DeliveryTag = t\<rparr>"

lemma mock_delivery_decodes:
  "unmarshal decode_request (d_Body (mock_delivery i t)) zero_request
     = (zero_request\<lparr>EngineType := EngineMock, RequestID := i\<rparr>, None)"
  using request_codec.dec_enc [of "zero_request\<lparr>EngineType := EngineMock, RequestID := i\<rparr>"]
  by (simp add: mock_delivery_def wf_request_def zero_request_def engine_type_defs)

lemma mock_delivery_result:
  "resultForDelivery env wk (mock_delivery i t) w = Ret (w, wk, zero_result\<lparr>Text := MockEngineResponse\<rparr>, None)"
  using mock_delivery_decodes [of i t]
  by (simp add: resultForDelivery_def ProcessRequest_def NewOcrEngine_def mock_ProcessRequest_def
      zero_request_def)


text \<open>C27: What a worker reports: for a body that it cannot decode the status error under the
  delivery's own identifier; otherwise the status done exactly when the engine said done, the
  engine's result unchanged if there was no error, and the status error if there was one.\<close>

theorem worker_reports_engine:
  assumes "resultForDelivery env wk d w = Ret (w', wk', res, e)"
  shows "case unmarshal decode_request (d_Body d) zero_request of
      (_, Some err) \<Rightarrow> Status res = ''error'' \<and> ID res = d_CorrelationId d \<and> e = Some err \<and> w' = w
    | (r, None) \<Rightarrow> \<exists>wc' res0. ProcessRequest (NewOcrEngine (EngineType r)) env r (w_workerConfig wk) w
          = Ret (w', wc', res0, e)
        \<and> (Status res = ''done'' \<longleftrightarrow> Status res0 = ''done'') \<and> (e = None \<longrightarrow> res = res0)
        \<and> (e \<noteq> None \<longrightarrow> Status res = ''error'') \<and> ID res = []"
  using assms
proof (cases rule: resultForDeliveryE)
  case (undecoded err)
  then show ?thesis by (cases "unmarshal decode_request (d_Body d) zero_request") simp
next
  case (processed r wc' res0)
  then show ?thesis by auto
qed

theorem worker_reports_engine_witness:
  "\<exists>wc' res0. ProcessRequest (NewOcrEngine EngineMock) sample_env
      (zero_request\<lparr>EngineType := EngineMock, RequestID := ''i''\<rparr>) (w_workerConfig sample_worker) sample_world
    = Ret (sample_world, wc', res0, None) \<and> zero_result\<lparr>Text := MockEngineResponse\<rparr> = res0"
  using worker_reports_engine [OF mock_delivery_result [of sample_env sample_worker "''i''" 1 sample_world]]
  by (simp add: mock_delivery_decodes)

text \<open>C28: Without publisher confirms a worker panics on no sequence of deliveries in which every
  request names an engine that exists and gives its variables as an object.\<close>

theorem worker_never_panics:
  assumes "list_all safe_delivery ds" "\<not> wc_Reliable (w_workerConfig wk)"
  shows "\<not> panics (w_handle br env ds wk w tr)"
  using w_handle_total [of ds wk] assms by (simp add: list_all_iff)

theorem worker_never_panics_witness:
  "\<not> panics (w_handle willing_broker sample_env [mock_delivery ''i'' 1,
     \<lparr>d_Body = None, d_ReplyTo = ''q'', d_CorrelationId = ''j'', d_DeliveryTag = 2\<rparr>] sample_worker sample_world [])"
  by (rule worker_never_panics)
    (simp_all add: safe_delivery_def mock_delivery_decodes engine_panic_free_def NewOcrEngine_def
      sample_worker_def NewOcrRpcWorker_def DefaultWorkerConfig_def)

text \<open>A request for an engine that does not exist, GO_TESSERACT or any other number than 0, 2 and
  3, takes the worker down: there is no engine to call.\<close>

lemma unknown_engine_panics:
  assumes "wf_request r" "EngineType r \<notin> {EngineMock, EngineTesseract, EngineSandwichTesseract}"
    and "d_Body d = Some (encode_request r)"
  shows "panics (w_handle br env (d # ds) wk w tr)"
proof -
  have "unmarshal decode_request (d_Body d) zero_request = (r, None)"
    unfolding assms(3) by (rule request_codec.dec_enc [OF assms(1)])
  moreover have "NewOcrEngine (EngineType r) = None" using assms(2) by (simp add: NewOcrEngine_None)
  ultimately have "panics (resultForDelivery env wk d w)"
    by (simp add: resultForDelivery_def ProcessRequest_def)
  then show ?thesis by (cases "resultForDelivery env wk d w") simp_all
qed

end
