(* ===== verification/Ocr_Preprocessor.thy ===== *)
theory Ocr_Preprocessor
  imports Tesseract_Engine
begin

text \<open>
  preprocessor.go, convert-pdf.go, stroke_width_transform.go and the older
  strokeWidthTransform of preprocessor_rpc_worker.go: the three preprocessors, the interface
  they implement, and what it promises to the worker that runs them. Deferred removals run
  in the reverse order of their registration.
\<close>

section \<open>The preprocessors\<close>

definition PreprocessorIdentity :: string where
  "PreprocessorIdentity = ''identity''"

definition PreprocessorStrokeWidthTransform :: string where
  "PreprocessorStrokeWidthTransform = ''stroke-width-transform''"

definition PreprocessorConvertPdf :: string where
  "PreprocessorConvertPdf = ''convert-pdf''"

lemmas preprocessor_names =
  PreprocessorIdentity_def PreprocessorStrokeWidthTransform_def PreprocessorConvertPdf_def

definition image_of :: "OcrRequest \<Rightarrow> bytes" where
  "image_of r = (case ImgBytes r of None \<Rightarrow> [] | Some bs \<Rightarrow> bs)"

definition identity_preprocess :: "os_env \<Rightarrow> OcrRequest \<Rightarrow> world \<Rightarrow> world \<times> OcrRequest \<times> go_error" where
  "identity_preprocess env r w = (w, r, None)"

definition convert_pdf_preprocess :: "os_env \<Rightarrow> OcrRequest \<Rightarrow> world \<Rightarrow> world \<times> OcrRequest \<times> go_error" where
  "convert_pdf_preprocess env r w =
     (case createTempFileName env [] w of
        (w1, _, Some e) \<Rightarrow> (w1, r, Some e)
      | (w1, t1, None) \<Rightarrow>
          (let tmpFileNameInput = t1 @ ''.pdf'' in
           case createTempFileName env [] w1 of
             (w2, _, Some e) \<Rightarrow> (remove_file tmpFileNameInput w2, r, Some e)
           | (w2, t2, None) \<Rightarrow>
               (let tmpFileNameOutput = t2 @ ''.tif'';
                    deferred = (\<lambda>w. remove_file tmpFileNameInput (remove_file tmpFileNameOutput w)) in
                case saveBytesToFileName env (image_of r) tmpFileNameInput w2 of
                  (w3, Some e) \<Rightarrow> (deferred w3, r, Some e)
                | (w3, None) \<Rightarrow>
                    (let (w4, out, err) = exec_cmd env ''gs''
                           [''-dQUIET'', ''-dNOPAUSE'', ''-dBATCH'', ''-sOutputFile='' @ tmpFileNameOutput,
                            ''-sDEVICE=tiffg4'', tmpFileNameInput] w3 in
                     case read_file env tmpFileNameOutput w4 of
                       (_, Some e) \<Rightarrow> (deferred w4, r, Some e)
                     | (resultBytes, None) \<Rightarrow>
                         (deferred w4, r\<lparr>ImgBytes := Some resultBytes\<rparr>, None)))))"

definition extractDarkOnLightParam :: "OcrRequest \<Rightarrow> string" where
  "extractDarkOnLightParam r =
     (case arg_of (PreprocessorArgs r) PreprocessorStrokeWidthTransform of
        JStr swtArg \<Rightarrow> if swtArg = ''0'' \<or> swtArg = ''1'' then swtArg else ''1''
      | _ \<Rightarrow> ''1'')"

definition swt_preprocess :: "os_env \<Rightarrow> OcrRequest \<Rightarrow> world \<Rightarrow> world \<times> OcrRequest \<times> go_error" where
  "swt_preprocess env r w =
     (case createTempFileName env [] w of
        (w1, _, Some e) \<Rightarrow> (w1, r, Some e)
      | (w1, t1, None) \<Rightarrow>
          (let tmpFileNameInput = t1 @ ''.png'' in
           case createTempFileName env [] w1 of
             (w2, _, Some e) \<Rightarrow> (remove_file tmpFileNameInput w2, r, Some e)
           | (w2, t2, None) \<Rightarrow>
               (let tmpFileNameOutput = t2 @ ''.png'';
                    deferred = (\<lambda>w. remove_file tmpFileNameInput (remove_file tmpFileNameOutput w)) in
                case saveBytesToFileName env (image_of r) tmpFileNameInput w2 of
                  (w3, Some e) \<Rightarrow> (deferred w3, r, Some e)
                | (w3, None) \<Rightarrow>
                    (let (w4, out, err) = exec_cmd env ''DetectText''
                           [tmpFileNameInput, tmpFileNameOutput, extractDarkOnLightParam r] w3 in
                     case read_file env tmpFileNameOutput w4 of
                       (_, Some e) \<Rightarrow> (deferred w4, r, Some e)
                     | (resultBytes, None) \<Rightarrow>
                         (deferred w4, r\<lparr>ImgBytes := Some resultBytes\<rparr>, None)))))"

text \<open>The method of the worker that does the same with files without an extension.\<close>

definition strokeWidthTransform :: "os_env \<Rightarrow> OcrRequest \<Rightarrow> world \<Rightarrow> world \<times> OcrRequest \<times> go_error" where
  "strokeWidthTransform env r w =
     (case createTempFileName env [] w of
        (w1, _, Some e) \<Rightarrow> (w1, r, Some e)
      | (w1, tmpFileNameInput, None) \<Rightarrow>
          (case createTempFileName env [] w1 of
             (w2, _, Some e) \<Rightarrow> (remove_file tmpFileNameInput w2, r, Some e)
           | (w2, tmpFileNameOutput, None) \<Rightarrow>
               (let deferred = (\<lambda>w. remove_file tmpFileNameInput (remove_file tmpFileNameOutput w)) in
                case saveBytesToFileName env (image_of r) tmpFileNameInput w2 of
                  (w3, Some e) \<Rightarrow> (deferred w3, r, Some e)
                | (w3, None) \<Rightarrow>
                    (let (w4, out, err) = exec_cmd env ''DetectText''
                           [tmpFileNameInput, tmpFileNameOutput, ''1''] w3 in
                     case read_file env tmpFileNameOutput w4 of
                       (_, Some e) \<Rightarrow> (deferred w4, r, Some e)
                     | (resultBytes, None) \<Rightarrow>
                         (deferred w4, r\<lparr>ImgBytes := Some resultBytes\<rparr>, None)))))"

section \<open>The common scheme\<close>

text \<open>
  All three image filters are one scheme: two fresh names, the image in the first, a
  program from the first to the second, whose exit status is only logged, and both
  files removed on every way out.
\<close>

definition run_filter ::
  "string \<Rightarrow> string \<Rightarrow> string \<Rightarrow> (string \<Rightarrow> string \<Rightarrow> string list)
     \<Rightarrow> os_env \<Rightarrow> OcrRequest \<Rightarrow> world \<Rightarrow> world \<times> OcrRequest \<times> go_error" where
  "run_filter ext1 ext2 cmd mk_args env r w =
     (let f1 = path_join (env_tmpdir env) (env_ksuid env (ksuids w)) @ ext1;
          f2 = path_join (env_tmpdir env) (env_ksuid env (Suc (ksuids w))) @ ext2;
          w2 = w\<lparr>ksuids := Suc (Suc (ksuids w))\<rparr>;
          tidy = (\<lambda>w. remove_file f1 (remove_file f2 w)) in
      case saveBytesToFileName env (image_of r) f1 w2 of
        (w3, Some e) \<Rightarrow> (tidy w3, r, Some e)
      | (w3, None) \<Rightarrow>
          (case exec_cmd env cmd (mk_args f1 f2) w3 of
             (w4, _) \<Rightarrow>
               (case read_file env f2 w4 of
                  (_, Some e) \<Rightarrow> (tidy w4, r, Some e)
                | (c, None) \<Rightarrow> (tidy w4, r\<lparr>ImgBytes := Some c\<rparr>, None))))"

lemma convert_pdf_filter:
  "convert_pdf_preprocess = run_filter ''.pdf'' ''.tif'' ''gs''
     (\<lambda>f1 f2. [''-dQUIET'', ''-dNOPAUSE'', ''-dBATCH'', ''-sOutputFile='' @ f2, ''-sDEVICE=tiffg4'', f1])"
  by (intro ext)
    (simp add: convert_pdf_preprocess_def run_filter_def createTempFileName_def Let_def
      split: prod.splits option.splits)

lemma swt_filter:
  "swt_preprocess env r = run_filter ''.png'' ''.png'' ''DetectText''
     (\<lambda>f1 f2. [f1, f2, extractDarkOnLightParam r]) env r"
  by (intro ext)
    (simp add: swt_preprocess_def run_filter_def createTempFileName_def Let_def
      split: prod.splits option.splits)

lemma strokeWidthTransform_filter:
  "strokeWidthTransform = run_filter [] [] ''DetectText'' (\<lambda>f1 f2. [f1, f2, ''1''])"
  by (intro ext)
    (simp add: strokeWidthTransform_def run_filter_def createTempFileName_def Let_def
      split: prod.splits option.splits)

lemma run_filterE:
  assumes "run_filter x1 x2 cmd mk env r w = (w', r', e)"
  obtains (failed) err where "r' = r" "e = Some err"
  | (filtered) c where "r' = r\<lparr>ImgBytes := Some c\<rparr>" "e = None"
  using assms by (auto simp: run_filter_def Let_def split: prod.splits option.splits)

lemma run_filter_tidy:
  assumes "run_filter x1 x2 cmd mk env r w = (w', r', e)"
  shows "files w' (path_join (env_tmpdir env) (env_ksuid env (ksuids w)) @ x1) = None"
    "files w' (path_join (env_tmpdir env) (env_ksuid env (Suc (ksuids w))) @ x2) = None"
  using assms by (auto simp: run_filter_def Let_def split: prod.splits option.splits)

lemma extractDarkOnLightParam_range: "extractDarkOnLightParam r \<in> {''0'', ''1''}"
  by (auto simp: extractDarkOnLightParam_def split: json.splits)

section \<open>The interface\<close>

text \<open>A preprocessor changes nothing of a request but its image, and nothing at all if it fails.\<close>

locale preprocessor =
  fixes preprocess :: "os_env \<Rightarrow> OcrRequest \<Rightarrow> world \<Rightarrow> world \<times> OcrRequest \<times> go_error"
  assumes only_image: "preprocess env r w = (w', r', e) \<Longrightarrow> \<exists>c. r' = r\<lparr>ImgBytes := c\<rparr>"
    and failed_keeps: "preprocess env r w = (w', r', Some err) \<Longrightarrow> r' = r"
begin

lemma keeps_route:
  assumes "preprocess env r w = (w', r', e)"
  shows "chain_of r' = chain_of r" "RequestID r' = RequestID r" "EngineType r' = EngineType r"
    "EngineArgs r' = EngineArgs r" "wf_request r' = wf_request r"
  using only_image [OF assms] by (auto simp: chain_of_def wf_request_def)

lemma preprocess_chain:
  assumes "preprocess env (fst (nextPreprocessor r k)) w = (w', r', e)"
  shows "chain_of r' = butlast (chain_of r)" "wf_request r' = wf_request r" "RequestID r' = RequestID r"
  using keeps_route [OF assms] by simp_all

end

lemma image_unchanged: "\<exists>c. r = r\<lparr>ImgBytes := c\<rparr>"
  by (rule exI [of _ "ImgBytes r"]) simp

interpretation identity: preprocessor identity_preprocess
  by unfold_locales (use image_unchanged in \<open>auto simp: identity_preprocess_def\<close>)

interpretation filter: preprocessor "run_filter x1 x2 cmd mk" for x1 x2 cmd mk
proof
  fix env r w w' r' e err
  show "\<exists>c. r' = r\<lparr>ImgBytes := c\<rparr>" if "run_filter x1 x2 cmd mk env r w = (w', r', e)"
    using that by (cases rule: run_filterE) (use image_unchanged in auto)
  show "r' = r" if "run_filter x1 x2 cmd mk env r w = (w', r', Some err)"
    using that by (cases rule: run_filterE) simp_all
qed

interpretation convert_pdf: preprocessor convert_pdf_preprocess
  unfolding convert_pdf_filter by (rule filter.preprocessor_axioms)

interpretation swt: preprocessor swt_preprocess
  by unfold_locales (auto simp: swt_filter dest: filter.only_image filter.failed_keeps)

text \<open>The dynamic dispatch, and the table of the worker.\<close>

datatype Preprocessor = StrokeWidthTransformer | IdentityPreprocessor | ConvertPdf

fun preprocess :: "Preprocessor \<Rightarrow> os_env \<Rightarrow> OcrRequest \<Rightarrow> world \<Rightarrow> world \<times> OcrRequest \<times> go_error" where
  "preprocess StrokeWidthTransformer = swt_preprocess"
| "preprocess IdentityPreprocessor = identity_preprocess"
| "preprocess ConvertPdf = convert_pdf_preprocess"

interpretation any_preprocessor: preprocessor "preprocess p" for p
  by (cases p)
    (simp_all add: identity.preprocessor_axioms swt.preprocessor_axioms convert_pdf.preprocessor_axioms)

section \<open>Properties\<close>

text \<open>C34: A preprocessor changes nothing of a request but its image, nothing at all when it fails, and
  both converting ones remove their two temporary files on every way out.\<close>

theorem preprocess_only_image:
  assumes "preprocess p env r w = (w', r', e)"
  shows "(\<exists>c. r' = r\<lparr>ImgBytes := c\<rparr>) \<and> (e \<noteq> None \<longrightarrow> r' = r) \<and>
    (case p of
       IdentityPreprocessor \<Rightarrow> w' = w
     | ConvertPdf \<Rightarrow> files w' (path_join (env_tmpdir env) (env_ksuid env (ksuids w)) @ ''.pdf'') = None
         \<and> files w' (path_join (env_tmpdir env) (env_ksuid env (Suc (ksuids w))) @ ''.tif'') = None
     | StrokeWidthTransformer \<Rightarrow> files w' (path_join (env_tmpdir env) (env_ksuid env (ksuids w)) @ ''.png'') = None
         \<and> files w' (path_join (env_tmpdir env) (env_ksuid env (Suc (ksuids w))) @ ''.png'') = None)"
proof -
  have "\<exists>c. r' = r\<lparr>ImgBytes := c\<rparr>" by (rule any_preprocessor.only_image [OF assms])
  moreover have "e \<noteq> None \<longrightarrow> r' = r" using any_preprocessor.failed_keeps assms by blast
  ultimately show ?thesis using assms run_filter_tidy
    by (cases p) (auto simp: identity_preprocess_def convert_pdf_filter swt_filter)
qed

theorem preprocess_only_image_witness:
  "files (fst (preprocess ConvertPdf (sample_env\<lparr>env_exec :=
       (\<lambda>c args fs. (fs(''/tmp/k1.tif'' \<mapsto> [9]), [], None))\<rparr>) (zero_request\<lparr>ImgBytes := Some [1]\<rparr>) sample_world))
     ''/tmp/k0.pdf'' = None"
proof -
  let ?env = "sample_env\<lparr>env_exec := (\<lambda>c args fs. (fs(''/tmp/k1.tif'' \<mapsto> [9]), [], None))\<rparr>"
  have tmp: "path_join ''/tmp'' ''k0'' = ''/tmp/k0''"
    by (simp add: path_join_def path_clean_def clean_elems_def)
  obtain w' r' e where run: "preprocess ConvertPdf ?env (zero_request\<lparr>ImgBytes := Some [1]\<rparr>) sample_world = (w', r', e)"
    by (metis prod_cases3)
  from preprocess_only_image [OF this] tmp have "files w' ''/tmp/k0.pdf'' = None"
    by (simp add: sample_env_def sample_world_def)
  with run show ?thesis by simp
qed

text \<open>The parameter of the stroke width transform that reaches the command line is 0 or 1,
  whatever the client sends, and 1 unless the client asks for 0 with a string.\<close>

lemma dark_on_light_param:
  "extractDarkOnLightParam r
     = (if arg_of (PreprocessorArgs r) ''stroke-width-transform'' = JStr ''0'' then ''0'' else ''1'')"
  by (auto simp: extractDarkOnLightParam_def PreprocessorStrokeWidthTransform_def split: json.splits)

end
