(* ===== verification/Preprocessor_Worker.thy ===== *)
theory Preprocessor_Worker
  imports Ocr_Preprocessor Ocr_Config Ocr_Amqp
begin

text \<open>
  preprocessor_rpc_worker.go: the worker that takes requests from the queue of one
  preprocessor, changes their image and passes them on to the next stop of their chain.
  Deliveries are acknowledged automatically. The handler runs until the channel of
  deliveries is closed; its goroutine is the function handle on the list of deliveries.
\<close>

record PreprocessorRpcWorker =
  pw_rabbitConfig :: RabbitConfig
  pw_tag :: string
  pw_bindingKey :: string
  pw_preprocessorMap :: "string \<rightharpoonup> Preprocessor"

text \<open>
  The error quotes the name as the verb q of package fmt does for a name in which no character
  needs an escape.
\<close>

definition NewPreprocessorRpcWorker ::
  "string \<Rightarrow> RabbitConfig \<Rightarrow> string \<Rightarrow> string + PreprocessorRpcWorker" where
  "NewPreprocessorRpcWorker preprocessorTag rc preproc =
     (let preprocessorMap = [PreprocessorStrokeWidthTransform \<mapsto> StrokeWidthTransformer,
            PreprocessorIdentity \<mapsto> IdentityPreprocessor,
            PreprocessorConvertPdf \<mapsto> ConvertPdf] in
      case preprocessorMap preproc of
        None \<Rightarrow> Inl (''no preprocessor found for: \"'' @ preproc @ ''\"'')
      | Some _ \<Rightarrow>
          Inr \<lparr>pw_rabbitConfig = rc, pw_tag = preprocessorTag, pw_bindingKey = preproc,
               pw_preprocessorMap = preprocessorMap\<rparr>)"

section \<open>Run and Shutdown\<close>

definition pw_Run :: "broker \<Rightarrow> PreprocessorRpcWorker \<Rightarrow> amqp_trace \<Rightarrow> amqp_trace \<times> go_error" where
  "pw_Run br pw tr =
     (let rc = pw_rabbitConfig pw; queueName = pw_bindingKey pw in
      case amqp_all br
             [Dial (rc_AmqpURI rc), OpenChannel,
              ExchangeDeclare (rc_Exchange rc) (rc_ExchangeType rc) True False False False,
              QueueDeclare queueName True False False False None] tr of
        (tr1, Some e) \<Rightarrow> (tr1, Some e)
      | (tr1, None) \<Rightarrow>
          (let queue = br_queue br tr1 queueName in
           amqp_all br
             [QueueBind queue (pw_bindingKey pw) (rc_Exchange rc) False None,
              Consume queue (pw_tag pw) True False False False None] tr1))"

text \<open>Shutdown, given what the handler sends on Done.\<close>

definition pw_Shutdown ::
  "broker \<Rightarrow> PreprocessorRpcWorker \<Rightarrow> go_error \<Rightarrow> amqp_trace \<Rightarrow> amqp_trace \<times> go_error" where
  "pw_Shutdown br pw done_value tr =
     (case amqp_do br (CancelConsumer (pw_tag pw) True) tr of
        (tr1, Some e) \<Rightarrow> (tr1, Some (''worker cancel failed: '' @ e))
      | (tr1, None) \<Rightarrow>
          (case amqp_do br CloseConn tr1 of
             (tr2, Some e) \<Rightarrow> (tr2, Some (''AMQP connection close error: '' @ e))
           | (tr2, None) \<Rightarrow> (tr2, done_value)))"

text \<open>A worker that runs gets the messages of its binding key, acknowledged automatically.\<close>

lemma pw_Run_receives:
  assumes "pw_Run br pw tr = (tr', None)"
  shows "receives tr' (rc_Exchange (pw_rabbitConfig pw)) (pw_bindingKey pw) True"
proof -
  from assms obtain q where "tr' = tr @ [Dial (rc_AmqpURI (pw_rabbitConfig pw)), OpenChannel,
      ExchangeDeclare (rc_Exchange (pw_rabbitConfig pw)) (rc_ExchangeType (pw_rabbitConfig pw)) True False False False,
      QueueDeclare (pw_bindingKey pw) True False False False None,
      QueueBind q (pw_bindingKey pw) (rc_Exchange (pw_rabbitConfig pw)) False None,
      Consume q (pw_tag pw) True False False False None]"
    by (auto simp: pw_Run_def Let_def split: option.splits prod.splits dest!: amqp_all_ok)
  then show ?thesis by (auto simp: receives_def)
qed

section \<open>Handling a delivery\<close>

text \<open>The preprocessor of the binding key; a missing one is a nil interface.\<close>

definition preprocessImage ::
  "PreprocessorRpcWorker \<Rightarrow> os_env \<Rightarrow> OcrRequest \<Rightarrow> world \<Rightarrow> (world \<times> OcrRequest \<times> go_error) outcome" where
  "preprocessImage pw env r w =
     (case pw_preprocessorMap pw (pw_bindingKey pw) of
        None \<Rightarrow> Panic ''runtime error: invalid memory address or nil pointer dereference''
      | Some p \<Rightarrow> Ret (preprocess p env r w))"

definition pw_handleDelivery ::
  "broker \<Rightarrow> os_env \<Rightarrow> PreprocessorRpcWorker \<Rightarrow> delivery \<Rightarrow> world \<times> amqp_trace
     \<Rightarrow> ((world \<times> amqp_trace) \<times> go_error) outcome" where
  "pw_handleDelivery br env pw d s =
     (case s of (w, tr) \<Rightarrow>
      case unmarshal decode_request (d_Body d) zero_request of
        (_, Some e) \<Rightarrow> Ret ((w, tr), Some e)
      | (r0, None) \<Rightarrow>
          (case nextPreprocessor r0 (rc_RoutingKey (pw_rabbitConfig pw)) of (r1, routingKey) \<Rightarrow>
           bind_outcome (preprocessImage pw env r1 w)
             (\<lambda>(w1, r2, err). Ret (case err of
                 Some e \<Rightarrow> ((w1, tr), Some e)
               | None \<Rightarrow>
                   (case amqp_do br
                      (Publish (rc_Exchange (pw_rabbitConfig pw)) routingKey False False
                        \<lparr>p_ContentType = ''text/plain'', p_Body = Some (encode_request r2),
                         p_DeliveryMode = Transient, p_Priority = 0, p_ReplyTo = d_ReplyTo d,
                         p_CorrelationId = d_CorrelationId d\<rparr>) tr of
                      (tr1, e) \<Rightarrow> ((w1, tr1), e))))))"

fun pw_handle ::
  "broker \<Rightarrow> os_env \<Rightarrow> PreprocessorRpcWorker \<Rightarrow> delivery list \<Rightarrow> world \<times> amqp_trace
     \<Rightarrow> ((world \<times> amqp_trace) \<times> go_error) outcome" where
  "pw_handle br env pw [] s = Ret (s, Some ''handle: deliveries channel closed'')"
| "pw_handle br env pw (d # ds) s =
     bind_outcome (pw_handleDelivery br env pw d s) (\<lambda>(s', _). pw_handle br env pw ds s')"

section \<open>Facts\<close>

text \<open>A worker as the constructor makes it.\<close>

definition pw_wf :: "PreprocessorRpcWorker \<Rightarrow> bool" where
  "pw_wf pw \<longleftrightarrow> pw_preprocessorMap pw (pw_bindingKey pw) \<noteq> None"

lemma new_preprocessor_wf: "NewPreprocessorRpcWorker t rc p = Inr pw \<Longrightarrow> pw_wf pw"
  by (auto simp: NewPreprocessorRpcWorker_def Let_def pw_wf_def split: option.splits)

lemma new_preprocessor_known:
  "(\<exists>pw. NewPreprocessorRpcWorker t rc p = Inr pw)
     \<longleftrightarrow> p \<in> {PreprocessorStrokeWidthTransform, PreprocessorIdentity, PreprocessorConvertPdf}"
  by (auto simp: NewPreprocessorRpcWorker_def Let_def split: option.splits)

text \<open>One delivery: dropped without a trace, or passed on once.\<close>

lemma pw_handleDeliveryE:
  assumes "pw_handleDelivery br env pw d (w, tr) = Ret ((w', tr'), e)"
  obtains (undecoded) err where "snd (unmarshal decode_request (d_Body d) zero_request) = Some err"
      "w' = w" "tr' = tr" "e = Some err"
  | (unfiltered) r p err where "unmarshal decode_request (d_Body d) zero_request = (r, None)"
      "pw_preprocessorMap pw (pw_bindingKey pw) = Some p"
      "preprocess p env (fst (nextPreprocessor r (rc_RoutingKey (pw_rabbitConfig pw)))) w
         = (w', fst (nextPreprocessor r (rc_RoutingKey (pw_rabbitConfig pw))), Some err)"
      "tr' = tr" "e = Some err"
  | (forwarded) r p r2 where "unmarshal decode_request (d_Body d) zero_request = (r, None)"
      "pw_preprocessorMap pw (pw_bindingKey pw) = Some p"
      "preprocess p env (fst (nextPreprocessor r (rc_RoutingKey (pw_rabbitConfig pw)))) w = (w', r2, None)"
      "tr' = tr @ [Publish (rc_Exchange (pw_rabbitConfig pw))
          (snd (nextPreprocessor r (rc_RoutingKey (pw_rabbitConfig pw)))) False False
          \<lparr>p_ContentType = ''text/plain'', p_Body = Some (encode_request r2), p_DeliveryMode = Transient,
           p_Priority = 0, p_ReplyTo = d_ReplyTo d, p_CorrelationId = d_CorrelationId d\<rparr>]"
proof -
  obtain r u where u: "unmarshal decode_request (d_Body d) zero_request = (r, u)" by fastforce
  obtain r1 key where n: "nextPreprocessor r (rc_RoutingKey (pw_rabbitConfig pw)) = (r1, key)" by fastforce
  show thesis
  proof (cases u)
    case (Some err)
    with assms u undecoded show thesis by (auto simp: pw_handleDelivery_def)
  next
    case None
    with assms u n obtain p where p: "pw_preprocessorMap pw (pw_bindingKey pw) = Some p"
      by (cases "pw_preprocessorMap pw (pw_bindingKey pw)") (auto simp: pw_handleDelivery_def preprocessImage_def)
    obtain w1 r2 err where f: "preprocess p env r1 w = (w1, r2, err)" by (metis prod_cases3)
    have d: "pw_handleDelivery br env pw d (w, tr) = Ret (case err of Some e \<Rightarrow> ((w1, tr), Some e)
      | None \<Rightarrow> (case amqp_do br (Publish (rc_Exchange (pw_rabbitConfig pw)) key False False
            \<lparr>p_ContentType = ''text/plain'', p_Body = Some (encode_request r2), p_DeliveryMode = Transient,
             p_Priority = 0, p_ReplyTo = d_ReplyTo d, p_CorrelationId = d_CorrelationId d\<rparr>) tr of
            (tr1, e) \<Rightarrow> ((w1, tr1), e)))"
      by (simp add: pw_handleDelivery_def preprocessImage_def u None n p f)
    show thesis
    proof (cases err)
      case (Some e0)
      with f have "r2 = r1" using any_preprocessor.failed_keeps by blast
      moreover from d assms Some have "w' = w1" "tr' = tr" "e = Some e0" by simp_all
      ultimately show thesis using u None f Some by (intro unfiltered [of r p e0]) (simp_all add: n p)
    next
      case no_err: None
      with d assms show thesis using u None f p
        by (intro forwarded [of r p r2]) (simp_all add: n amqp_do_def)
    qed
  qed
qed

lemma pw_handleDelivery_total: "pw_wf pw \<Longrightarrow> \<not> panics (pw_handleDelivery br env pw d s)"
  by (auto simp: pw_handleDelivery_def pw_wf_def preprocessImage_def split: prod.splits option.splits)

lemma pw_handle_total: "pw_wf pw \<Longrightarrow> \<not> panics (pw_handle br env pw ds s)"
proof (induction ds arbitrary: s)
  case (Cons d ds)
  then obtain s' e where "pw_handleDelivery br env pw d s = Ret (s', e)"
    using pw_handleDelivery_total [of pw br env d s]
    by (cases "pw_handleDelivery br env pw d s") (auto simp: panics_def)
  with Cons show ?case by simp
qed simp

text \<open>At most one message goes out for a delivery, and it carries the delivery's identifiers.\<close>

lemma pw_handleDelivery_published:
  assumes "pw_handleDelivery br env pw d (w, tr) = Ret ((w', tr'), e)"
  shows "\<exists>new. published tr' = published tr @ new \<and> length new \<le> 1
    \<and> (\<forall>(key, pub) \<in> set new. p_CorrelationId pub = d_CorrelationId d \<and> p_ReplyTo pub = d_ReplyTo d)"
  using assms by (cases rule: pw_handleDeliveryE) auto

lemma pw_handle_published:
  assumes "pw_handle br env pw ds (w, tr) = Ret ((w', tr'), e)"
  shows "\<exists>new. published tr' = published tr @ new \<and> length new \<le> length ds
    \<and> (\<forall>(key, pub) \<in> set new. p_CorrelationId pub \<in> d_CorrelationId ` set ds)"
  using assms
proof (induction ds arbitrary: w tr)
  case (Cons d ds)
  then obtain w1 tr1 e1 where h: "pw_handleDelivery br env pw d (w, tr) = Ret ((w1, tr1), e1)"
    "pw_handle br env pw ds (w1, tr1) = Ret ((w', tr'), e)"
    by (auto simp: outcome_simps split: prod.splits)
  from pw_handleDelivery_published [OF h(1)] obtain n1 where n1: "published tr1 = published tr @ n1"
    "length n1 \<le> 1" "\<forall>(key, pub) \<in> set n1. p_CorrelationId pub = d_CorrelationId d" by fastforce
  from Cons.IH [OF h(2)] obtain n2 where n2: "published tr' = published tr1 @ n2"
    "length n2 \<le> length ds" "\<forall>(key, pub) \<in> set n2. p_CorrelationId pub \<in> d_CorrelationId ` set ds" by blast
  have "length (n1 @ n2) \<le> length (d # ds)" using n1(2) n2(2) by simp
  moreover have "\<forall>(key, pub) \<in> set (n1 @ n2). p_CorrelationId pub \<in> d_CorrelationId ` set (d # ds)"
    using n1(3) n2(3) by fastforce
  ultimately show ?case using n1(1) n2(1) by (intro exI [of _ "n1 @ n2"]) simp
qed auto

lemma pw_handle_done:
  "pw_handle br env pw ds s = Ret (s', e) \<Longrightarrow> e = Some ''handle: deliveries channel closed''"
  by (induction ds arbitrary: s) (auto simp: outcome_simps)

section \<open>Properties\<close>

text \<open>C35: The worker of a preprocessor that could be created never panics. Over any deliveries it
  publishes at most one message for each, with the identifier of a delivery it got; a request
  that it could not decode or process is dropped without a message.\<close>

theorem preprocessor_worker_relays:
  assumes "NewPreprocessorRpcWorker t rc p = Inr pw"
  shows "\<exists>w' tr' new.
    pw_handle br env pw ds (w, tr) = Ret ((w', tr'), Some ''handle: deliveries channel closed'')
    \<and> published tr' = published tr @ new \<and> length new \<le> length ds
    \<and> (\<lambda>(key, pub). p_CorrelationId pub) ` set new \<subseteq> d_CorrelationId ` set ds"
proof -
  note wf = new_preprocessor_wf [OF assms]
  obtain s' e where h: "pw_handle br env pw ds (w, tr) = Ret (s', e)"
    using pw_handle_total [OF wf, of br env ds "(w, tr)"]
    by (cases "pw_handle br env pw ds (w, tr)") auto
  obtain w' tr' where s': "s' = (w', tr')" by (cases s')
  from pw_handle_published [OF h [unfolded s']] obtain new where
    "published tr' = published tr @ new" "length new \<le> length ds"
    "\<forall>(key, pub) \<in> set new. p_CorrelationId pub \<in> d_CorrelationId ` set ds" by blast
  with h s' pw_handle_done [OF h] show ?thesis by (intro exI [of _ w'] exI [of _ tr'] exI [of _ new]) auto
qed

theorem preprocessor_worker_relays_witness:
  "\<exists>pw w' tr' new. NewPreprocessorRpcWorker ''t'' DefaultTestConfig ''identity'' = Inr pw
    \<and> pw_handle willing_broker sample_env pw
        [\<lparr>d_Body = Some (encode_request zero_request), d_ReplyTo = ''q'', d_CorrelationId = ''i'', d_DeliveryTag = 1\<rparr>,
         \<lparr>d_Body = None, d_ReplyTo = ''q'', d_CorrelationId = ''j'', d_DeliveryTag = 2\<rparr>] (sample_world, [])
      = Ret ((w', tr'), Some ''handle: deliveries channel closed'')
    \<and> published tr' = new \<and> length new \<le> 2"
proof -
  obtain pw where pw: "NewPreprocessorRpcWorker ''t'' DefaultTestConfig ''identity'' = Inr pw"
    using new_preprocessor_known [of "''t''" DefaultTestConfig "''identity''"] by (auto simp: preprocessor_names)
  from preprocessor_worker_relays [OF pw, of willing_broker sample_env
    "[\<lparr>d_Body = Some (encode_request zero_request), d_ReplyTo = ''q'', d_CorrelationId = ''i'', d_DeliveryTag = 1\<rparr>,
      \<lparr>d_Body = None, d_ReplyTo = ''q'', d_CorrelationId = ''j'', d_DeliveryTag = 2\<rparr>]" sample_world "[]"] pw
  show ?thesis by (auto simp: numeral_2_eq_2)
qed

end
