(* ===== verification/Ocr_Pipeline.thy ===== *)
theory Ocr_Pipeline
  imports Ocr_Client Ocr_Worker Preprocessor_Worker
begin

text \<open>
  The components put together: a client, the workers of the preprocessors and an OCR worker
  around a broker whose direct exchange hands a message to the worker bound to its routing
  key. The composition follows one request from DecodeImage to the delivery on the callback
  queue; it is what DecodeImage takes as its other side.
\<close>

section \<open>The route of a message\<close>

definition to_delivery :: "publishing \<Rightarrow> delivery" where
  "to_delivery p =
     \<lparr>d_Body = p_Body p, d_ReplyTo = p_ReplyTo p, d_CorrelationId = p_CorrelationId p, d_DeliveryTag = 1\<rparr>"

text \<open>
  The preprocessors a message passes, until it reaches the key of the OCR worker, is dropped
  by a worker, or has a key without a worker. The number bounds the hops.
\<close>

fun forward ::
  "broker \<Rightarrow> os_env \<Rightarrow> (string \<rightharpoonup> PreprocessorRpcWorker) \<Rightarrow> string \<Rightarrow> nat \<Rightarrow> world \<Rightarrow> string \<times> publishing
     \<Rightarrow> (world \<times> (string \<times> publishing) option) outcome" where
  "forward br env workers final 0 w m = Ret (w, None)"
| "forward br env workers final (Suc n) w (key, pub) =
     (if key = final then Ret (w, Some (key, pub))
      else (case workers key of
              None \<Rightarrow> Ret (w, None)
            | Some pw \<Rightarrow>
                bind_outcome (pw_handleDelivery br env pw (to_delivery pub) (w, []))
                  (\<lambda>((w', tr'), err). case (err, published tr') of
                     (None, m # _) \<Rightarrow> forward br env workers final n w' m
                   | _ \<Rightarrow> Ret (w', None))))"

text \<open>The answer that reaches the callback queue: a worker acknowledges what it could publish.\<close>

definition answers_of :: "broker \<Rightarrow> os_env \<Rightarrow> OcrRpcWorker \<Rightarrow> world \<Rightarrow> publishing \<Rightarrow> delivery list" where
  "answers_of br env wk w pub =
     (case w_handle br env [to_delivery pub] wk w [] of
        Panic _ \<Rightarrow> []
      | Ret ((_, _, tr), _) \<Rightarrow>
          if acked tr = [] then []
          else map (\<lambda>(q, p). to_delivery p) (filter (\<lambda>(q, p). q = p_ReplyTo pub) (published tr)))"

definition system_peer ::
  "broker \<Rightarrow> os_env \<Rightarrow> (string \<rightharpoonup> PreprocessorRpcWorker) \<Rightarrow> OcrRpcWorker \<Rightarrow> nat \<Rightarrow> world
     \<Rightarrow> string \<Rightarrow> publishing \<Rightarrow> delivery list" where
  "system_peer br env workers wk n w key pub =
     (case forward br env workers (wc_RoutingKey (w_workerConfig wk)) n w (key, pub) of
        Ret (w', Some (_, pub')) \<Rightarrow> answers_of br env wk w' pub'
      | _ \<Rightarrow> [])"

section \<open>A message arrives as it was sent, but for the image\<close>

text \<open>A request as the OCR worker sees it: another image, and no preprocessors left.\<close>

definition arrived :: "OcrRequest \<Rightarrow> OcrRequest \<Rightarrow> bool" where
  "arrived r r' \<longleftrightarrow> chain_of r' = [] \<and> (\<exists>c cs. r' = r\<lparr>ImgBytes := c, PreprocessorChain := cs\<rparr>)"

lemma arrived_keeps:
  assumes "arrived r r'"
  shows "RequestID r' = RequestID r" "EngineType r' = EngineType r" "EngineArgs r' = EngineArgs r"
    "TimeOut r' = TimeOut r" "wf_request r' = wf_request r" "ImgUrl r' = ImgUrl r" "ImgBase64 r' = ImgBase64 r"
  using assms by (auto simp: arrived_def wf_request_def)

text \<open>The workers that serve the keys of a chain, all passing on to the same final key.\<close>

definition serves :: "(string \<rightharpoonup> PreprocessorRpcWorker) \<Rightarrow> string \<Rightarrow> string list \<Rightarrow> bool" where
  "serves workers final ks \<longleftrightarrow> final \<notin> set ks \<and>
     (\<forall>k \<in> set ks. \<exists>pw. workers k = Some pw \<and> pw_wf pw \<and> rc_RoutingKey (pw_rabbitConfig pw) = final)"

text \<open>Workers whose preprocessors have no reason to fail: their messages all get through.\<close>

definition never_fails :: "os_env \<Rightarrow> PreprocessorRpcWorker \<Rightarrow> bool" where
  "never_fails env pw \<longleftrightarrow>
     (\<forall>p r w. pw_preprocessorMap pw (pw_bindingKey pw) = Some p \<longrightarrow> snd (snd (preprocess p env r w)) = None)"

definition gets_through :: "os_env \<Rightarrow> (string \<rightharpoonup> PreprocessorRpcWorker) \<Rightarrow> string list \<Rightarrow> bool" where
  "gets_through env workers ks \<longleftrightarrow> (\<forall>k \<in> set ks. \<forall>pw. workers k = Some pw \<longrightarrow> never_fails env pw)"

lemma published_only_without_error:
  assumes "obliging br" "pw_handleDelivery br env pw d (w, tr) = Ret ((w', tr'), Some e)"
  shows "tr' = tr"
  using assms
  by (auto simp: pw_handleDelivery_def preprocessImage_def split: prod.splits option.splits)

lemma next_image:
  "nextPreprocessor (r\<lparr>ImgBytes := c\<rparr>) k
     = ((fst (nextPreprocessor r k))\<lparr>ImgBytes := c\<rparr>, snd (nextPreprocessor r k))"
  by (simp add: nextPreprocessor_def chain_of_def)

lemma unmarshal_request:
  "wf_request r \<Longrightarrow> unmarshal decode_request (Some (encode_request r)) zero_request = (r, None)"
  by (rule request_codec.dec_enc)

text \<open>A message at the OCR worker: the identifiers of the message sent, and its request.\<close>

definition carries :: "string \<Rightarrow> OcrRequest \<Rightarrow> publishing \<Rightarrow> string \<times> publishing \<Rightarrow> bool" where
  "carries final r pub m \<longleftrightarrow> (case m of (k', pub') \<Rightarrow> k' = final \<and> p_ReplyTo pub' = p_ReplyTo pub
     \<and> p_CorrelationId pub' = p_CorrelationId pub
     \<and> (\<exists>r'. arrived r r' \<and> p_Body pub' = Some (encode_request r')))"

text \<open>One hop: the message is dropped by a preprocessor that fails, or goes on with another image.\<close>

lemma forward_hop:
  assumes "obliging br" "wf_request r" "serves workers final (chain_of r)" "chain_of r \<noteq> []"
    and "key = snd (nextPreprocessor r final)"
    and "p_Body pub = Some (encode_request (fst (nextPreprocessor r final)))"
  obtains (dropped) w1 where "forward br env workers final (Suc n) w (key, pub) = Ret (w1, None)"
      "\<not> gets_through env workers (chain_of r)"
  | (passed) w1 r1 c pub1 where "r1 = r\<lparr>PreprocessorChain := Some (butlast (chain_of r)), ImgBytes := c\<rparr>"
      "p_Body pub1 = Some (encode_request (fst (nextPreprocessor r1 final)))"
      "p_ReplyTo pub1 = p_ReplyTo pub" "p_CorrelationId pub1 = p_CorrelationId pub"
      "forward br env workers final (Suc n) w (key, pub)
        = forward br env workers final n w1 (snd (nextPreprocessor r1 final), pub1)"
proof -
  define r0 where "r0 = r\<lparr>PreprocessorChain := Some (butlast (chain_of r))\<rparr>"
  have nx: "nextPreprocessor r final = (r0, last (chain_of r))"
    using assms(4) by (simp add: nextPreprocessor_def r0_def)
  have key: "key \<noteq> final" "key \<in> set (chain_of r)" using assms(3-5) nx by (auto simp: serves_def)
  then obtain pw where pw: "workers key = Some pw" "pw_wf pw" "rc_RoutingKey (pw_rabbitConfig pw) = final"
    using assms(3) by (auto simp: serves_def)
  have "wf_request r0" using assms(2) by (simp add: r0_def wf_request_def)
  then have body: "unmarshal decode_request (d_Body (to_delivery pub)) zero_request = (r0, None)"
    using unmarshal_request assms(6) nx by (simp add: to_delivery_def)
  obtain w1 tr1 e where h: "pw_handleDelivery br env pw (to_delivery pub) (w, []) = Ret ((w1, tr1), e)"
    using pw_handleDelivery_total [OF pw(2), of br env "to_delivery pub" "(w, [])"]
    by (cases "pw_handleDelivery br env pw (to_delivery pub) (w, [])") auto
  from h show thesis
  proof (cases rule: pw_handleDeliveryE)
    case (forwarded r0' p r2)
    with body have "r0' = r0" by simp
    with forwarded any_preprocessor.only_image pw(3) obtain c where
      r2: "r2 = (fst (nextPreprocessor r0 final))\<lparr>ImgBytes := c\<rparr>" by metis
    have e: "e = None" using published_only_without_error [OF assms(1), of env pw "to_delivery pub" w "[]" w1 tr1]
      forwarded(4) h by (cases e) auto
    show thesis
      by (rule passed [of "r0\<lparr>ImgBytes := c\<rparr>" c "\<lparr>p_ContentType = ''text/plain'',
            p_Body = Some (encode_request r2), p_DeliveryMode = Transient, p_Priority = 0,
            p_ReplyTo = p_ReplyTo pub, p_CorrelationId = p_CorrelationId pub\<rparr>" w1])
        (use h e forwarded(4) \<open>r0' = r0\<close> pw key(1) in \<open>simp_all add: r2 next_image to_delivery_def r0_def\<close>)
  next
    case (unfiltered r0' p err)
    have "snd (snd (preprocess p env (fst (nextPreprocessor r0' (rc_RoutingKey (pw_rabbitConfig pw)))) w)) \<noteq> None"
      using unfiltered(3) by simp
    moreover have "never_fails env pw \<Longrightarrow> snd (snd (preprocess p env r w)) = None" for r and w :: world
      using unfiltered(2) by (simp add: never_fails_def)
    ultimately have "\<not> never_fails env pw" by metis
    with pw(1) key(2) have "\<not> gets_through env workers (chain_of r)" by (auto simp: gets_through_def)
    moreover have "forward br env workers final (Suc n) w (key, pub) = Ret (w1, None)"
      using key(1) pw(1) h unfiltered(4,5) by simp
    ultimately show thesis using dropped by blast
  qed (use body in simp)
qed

lemma forward_chain:
  assumes "obliging br" "wf_request r" "serves workers final (chain_of r)"
    and "key = snd (nextPreprocessor r final)"
    and "p_Body pub = Some (encode_request (fst (nextPreprocessor r final)))"
  shows "\<exists>w' m. forward br env workers final (Suc (length (chain_of r))) w (key, pub) = Ret (w', m)
    \<and> (gets_through env workers (chain_of r) \<longrightarrow> m \<noteq> None) \<and> (\<forall>m'. m = Some m' \<longrightarrow> carries final r pub m')"
  using assms(2-)
proof (induction "length (chain_of r)" arbitrary: r w key pub)
  case 0
  then have "chain_of r = []" "nextPreprocessor r final = (r, final)" by (simp_all add: nextPreprocessor_def)
  moreover from this(1) have "arrived r r"
    by (auto simp: arrived_def intro!: exI [of _ "ImgBytes r"] exI [of _ "PreprocessorChain r"])
  ultimately show ?case using 0 by (auto simp: carries_def)
next
  case (Suc n)
  then have "chain_of r \<noteq> []" by auto
  from assms(1) Suc.prems(1,2) this Suc.prems(3,4) show ?case
  proof (cases rule: forward_hop [where n = "length (chain_of r)" and env = env and w = w])
    case (dropped w1)
    then show ?thesis by auto
  next
    case (passed w1 r1 c pub1)
    have r1: "chain_of r1 = butlast (chain_of r)" "wf_request r1" "n = length (chain_of r1)"
      using Suc.prems(1) Suc.hyps(2) by (simp_all add: passed(1) chain_of_def wf_request_def)
    moreover have "serves workers final (chain_of r1)"
      using Suc.prems(2) by (auto simp: serves_def r1(1) dest: in_set_butlastD)
    ultimately obtain w' m where
      f: "forward br env workers final (Suc (length (chain_of r1))) w1
        (snd (nextPreprocessor r1 final), pub1) = Ret (w', m)"
      and m: "gets_through env workers (chain_of r1) \<longrightarrow> m \<noteq> None" "\<forall>m'. m = Some m' \<longrightarrow> carries final r1 pub1 m'"
      using Suc.hyps(1) [OF r1(3,2) _ refl passed(2), of w1] by blast
    have arr: "arrived r1 r' \<Longrightarrow> arrived r r'" for r' by (auto simp: arrived_def passed(1))
    have "Suc (length (chain_of r1)) = length (chain_of r)" using Suc.hyps(2) r1(3) by simp
    then have "forward br env workers final (Suc (length (chain_of r))) w (key, pub) = Ret (w', m)"
      using f passed(5) by (simp only:)
    moreover have "gets_through env workers (chain_of r) \<longrightarrow> gets_through env workers (chain_of r1)"
      by (auto simp: gets_through_def r1(1) dest: in_set_butlastD)
    moreover have "\<forall>m'. m = Some m' \<longrightarrow> carries final r pub m'"
      using m(2) arr passed(3,4) by (fastforce simp: carries_def)
    ultimately show ?thesis using m(1) by blast
  qed
qed

section \<open>A request from end to end\<close>

lemma answers_of_eq:
  assumes "obliging br" "\<not> wc_Reliable (w_workerConfig wk)"
  shows "answers_of br env wk w pub =
    (case resultForDelivery env wk (to_delivery pub) w of
       Panic _ \<Rightarrow> []
     | Ret (_, _, res, _) \<Rightarrow> [to_delivery (response res (p_CorrelationId pub))])"
proof (cases "resultForDelivery env wk (to_delivery pub) w")
  case (Ret x)
  obtain w1 wk1 res e where x: "x = (w1, wk1, res, e)" by (cases x)
  with Ret resultForDelivery_routing(1) [of env wk "to_delivery pub" w w1 wk1 res e] assms(2)
  have "\<not> wc_Reliable (w_workerConfig wk1)" by (simp add: same_routing_def)
  with assms(1) Ret x show ?thesis
    by (simp add: answers_of_def sendRpcResponse_def to_delivery_def Let_def)
qed (simp add: answers_of_def)

text \<open>What the OCR worker answers to a message that carries a request.\<close>

definition engine_answer :: "os_env \<Rightarrow> WorkerConfig \<Rightarrow> OcrRequest \<Rightarrow> world \<Rightarrow> OcrResult option" where
  "engine_answer env wc r w =
     (case ProcessRequest (NewOcrEngine (EngineType r)) env r wc w of
        Panic _ \<Rightarrow> None
      | Ret (_, _, res, None) \<Rightarrow> Some res
      | Ret (_, _, res, Some e) \<Rightarrow>
          Some (res\<lparr>Text := ''Error processing image url: '' @ RequestID r @ ''.  Error: '' @ e,
            Status := ''error''\<rparr>))"

lemma answers_of_request:
  assumes "obliging br" "\<not> wc_Reliable (w_workerConfig wk)"
    and "p_Body pub = Some (encode_request r)" "wf_request r"
  shows "answers_of br env wk w pub =
    (case engine_answer env (w_workerConfig wk) r w of
       None \<Rightarrow> []
     | Some res \<Rightarrow> [to_delivery (response res (p_CorrelationId pub))])"
  using unmarshal_request [OF assms(4)] assms(3)
  by (simp add: answers_of_eq [OF assms(1,2)] resultForDelivery_def engine_answer_def
      to_delivery_def [of pub] split: outcome.splits option.splits prod.splits)

text \<open>Nothing on the way of the request fails: every preprocessor succeeds, the engine does not panic.\<close>

definition answered :: "os_env \<Rightarrow> (string \<rightharpoonup> PreprocessorRpcWorker) \<Rightarrow> WorkerConfig \<Rightarrow> OcrRequest \<Rightarrow> bool" where
  "answered env workers wc r \<longleftrightarrow> gets_through env workers (chain_of r)
     \<and> (\<forall>r' w. arrived r r' \<longrightarrow> engine_answer env wc r' w \<noteq> None)"

text \<open>The deliveries on the callback queue are the answer of the engine, or nothing if something failed.\<close>

lemma system_peer_answer:
  assumes "obliging br" "\<not> wc_Reliable (w_workerConfig wk)" "wf_request r"
    and "serves workers (rc_RoutingKey rc) (chain_of r)" "wc_RoutingKey (w_workerConfig wk) = rc_RoutingKey rc"
    and "m = request_message rc prio q c r"
  shows "system_peer br env workers wk (Suc (length (chain_of r))) w (fst m) (snd m) = []
        \<and> \<not> answered env workers (w_workerConfig wk) r \<or>
    (\<exists>r' w' res. arrived r r' \<and> engine_answer env (w_workerConfig wk) r' w' = Some res
      \<and> system_peer br env workers wk (Suc (length (chain_of r))) w (fst m) (snd m)
          = [to_delivery (response res c)])"
proof -
  have m: "fst m = snd (nextPreprocessor r (rc_RoutingKey rc))" "p_CorrelationId (snd m) = c"
    "p_Body (snd m) = Some (encode_request (fst (nextPreprocessor r (rc_RoutingKey rc))))"
    by (simp_all add: assms(6) request_message_def)
  from forward_chain [OF assms(1,3,4) m(1,3), of env w] obtain w' mo where
    f: "forward br env workers (rc_RoutingKey rc) (Suc (length (chain_of r))) w (fst m, snd m) = Ret (w', mo)"
    and mo: "gets_through env workers (chain_of r) \<longrightarrow> mo \<noteq> None"
      "\<forall>m'. mo = Some m' \<longrightarrow> carries (rc_RoutingKey rc) r (snd m) m'" by blast
  note f' = f [unfolded prod.collapse]
  show ?thesis
  proof (cases mo)
    case None
    with mo(1) show ?thesis
      by (simp add: system_peer_def assms(5) f' answered_def del: forward.simps)
  next
    case (Some km)
    then obtain k' pub' r' where km: "mo = Some (k', pub')" and r': "arrived r r'"
      "p_Body pub' = Some (encode_request r')" "p_CorrelationId pub' = c"
      using mo(2) by (cases km) (auto simp: carries_def m(2))
    have wf: "wf_request r'" using arrived_keeps(5) [OF r'(1)] assms(3) by simp
    have "system_peer br env workers wk (Suc (length (chain_of r))) w (fst m) (snd m)
        = answers_of br env wk w' pub'"
      by (simp add: system_peer_def assms(5) f' km del: forward.simps)
    with answers_of_request [OF assms(1,2) r'(2) wf, of env w'] r' show ?thesis
      by (cases "engine_answer env (w_workerConfig wk) r' w'") (auto simp: answered_def)
  qed
qed

section \<open>DecodeImage with the whole system on the other side\<close>

text \<open>
  For a request that is not deferred, DecodeImage returns the answer of the engine under the
  identifier of the request, or a timeout if something on the way can fail.
\<close>

lemma request_answered_by_engine:
  assumes "obliging br" "env_url_parse env (rc_AmqpURI rc) = Inr u" "\<not> rc_Reliable rc"
    and "\<not> wc_Reliable (w_workerConfig wk)" "wc_RoutingKey (w_workerConfig wk) = rc_RoutingKey rc"
    and "wf_request r" "ReplyTo r = []" "\<not> Deferred r" "chans st ch = []"
    and "fetch_image env (set_timeout rc r) = (r3, None)"
    and "serves workers (rc_RoutingKey rc) (chain_of r)"
  shows "\<exists>s' r' out. DecodeImage env br (system_peer br env workers wk (Suc (length (chain_of r))) w)
      rc tag ch r (st, tr) = Ret (s', r', Some out, NoGoroutine)
    \<and> RequestsTrack (fst s') = RequestsTrack st
    \<and> (out = (zero_result, 500, Some ''timeout waiting for RPC response'')
          \<and> \<not> answered env workers (w_workerConfig wk) r3 \<or>
       (\<exists>r4 w4 res. arrived r3 r4 \<and> engine_answer env (w_workerConfig wk) r4 w4 = Some res
          \<and> out = (res\<lparr>ID := RequestID r\<rparr>, 200, None)))"
proof -
  let ?peer = "system_peer br env workers wk (Suc (length (chain_of r))) w"
  have rt: "check_reply_to env r = Inr r" using assms(7) by (simp add: check_reply_to_def)
  note k3 = fetch_image_keeps [OF assms(10)]
  from DecodeImage_publishes [OF assms(1,2) rt assms(10), of tr ?peer tag ch st] obtain cq tr4 where
    d: "DecodeImage env br ?peer rc tag ch r (st, tr)
      = Ret (client_publish br ?peer rc ch cq (RequestID r) (message_priority rc r) r3 (st, tr4))" by blast
  obtain s' r' out g where
    p: "(s', r', out, g) = client_publish br ?peer rc ch cq (RequestID r) (message_priority rc r) r3 (st, tr4)"
    by (metis prod_cases4)
  define m where "m = request_message rc (message_priority rc r) cq (RequestID r) r3"
  have nd: "\<not> Deferred r3" using k3 assms(8) by simp
  have ans: "br_answer br tr4 (Publish (rc_Exchange rc) (fst m) False False (snd m)) = None"
    using assms(1) by (simp add: obliging_def)
  note waits = client_publish_waits [OF p nd assms(9,3) ans m_def]
  have sys: "?peer (fst m) (snd m) = [] \<and> \<not> answered env workers (w_workerConfig wk) r3 \<or>
    (\<exists>r' w' res. arrived r3 r' \<and> engine_answer env (w_workerConfig wk) r' w' = Some res
      \<and> ?peer (fst m) (snd m) = [to_delivery (response res (RequestID r))])"
    using system_peer_answer [OF assms(1,4), of r3 workers rc m "message_priority rc r" cq "RequestID r" env w]
      k3 assms(5,6,11) by (simp add: m_def)
  from sys have "out = Some (zero_result, 500, Some ''timeout waiting for RPC response'')
         \<and> \<not> answered env workers (w_workerConfig wk) r3 \<or>
       (\<exists>r4 w4 res. arrived r3 r4 \<and> engine_answer env (w_workerConfig wk) r4 w4 = Some res
          \<and> out = Some (res\<lparr>ID := RequestID r\<rparr>, 200, None))"
  proof (elim disjE exE conjE)
    assume "?peer (fst m) (snd m) = []" "\<not> answered env workers (w_workerConfig wk) r3"
    with waits(3) show ?thesis by simp
  next
    fix r' w' res
    assume "arrived r3 r'" "engine_answer env (w_workerConfig wk) r' w' = Some res"
      and "?peer (fst m) (snd m) = [to_delivery (response res (RequestID r))]"
    moreover from this(3) waits(3) have "out = Some (res\<lparr>ID := RequestID r\<rparr>, 200, None)"
      by (simp add: to_delivery_def response_def decode_encode_result)
    ultimately show ?thesis by blast
  qed
  moreover have "DecodeImage env br ?peer rc tag ch r (st, tr) = Ret (s', r', out, NoGoroutine)"
    using d p waits(2) by simp
  ultimately show ?thesis using waits(1) by blast
qed

text \<open>
  A deferred request is answered at once and registered; the deliveries that its message leads to
  are the answer of the engine, or none if something on the way can fail.
\<close>

lemma deferred_registered:
  assumes "obliging br" "env_url_parse env (rc_AmqpURI rc) = Inr u" "\<not> rc_Reliable rc"
    and "\<not> wc_Reliable (w_workerConfig wk)" "wc_RoutingKey (w_workerConfig wk) = rc_RoutingKey rc"
    and "wf_request r" "check_reply_to env r = Inr r1" "Deferred r1"
    and "fetch_image env (set_timeout rc r1) = (r3, None)"
    and "serves workers (rc_RoutingKey rc) (chain_of r)"
  shows "\<exists>tr1 r' key pub. DecodeImage env br peer rc tag ch r (st, tr)
      = Ret ((addNewOcrResultToQueue (RequestID r) ch st, tr1), r',
          Some (zero_result\<lparr>Status := ''processing'', ID := RequestID r\<rparr>, 200, None),
          if ReplyTo r1 = [] then DecayAfter (seconds (TimeOut r3 + 10)) (RequestID r)
          else PostBack (RequestID r) (ReplyTo r1))
    \<and> published tr1 = published tr @ [(key, pub)]
    \<and> (system_peer br env workers wk (Suc (length (chain_of r))) w key pub = []
          \<and> \<not> answered env workers (w_workerConfig wk) r3 \<or>
       (\<exists>r4 w4 res. arrived r3 r4 \<and> engine_answer env (w_workerConfig wk) r4 w4 = Some res
          \<and> system_peer br env workers wk (Suc (length (chain_of r))) w key pub
              = [to_delivery (response res (RequestID r))]))"
proof -
  have r1: "RequestID r1 = RequestID r" "chain_of r1 = chain_of r" "wf_request r1 = wf_request r"
    using check_reply_to_keeps [OF assms(7)] by (auto simp: chain_of_def wf_request_def)
  note k3 = fetch_image_keeps [OF assms(9), simplified r1 set_timeout_keeps]
  from DecodeImage_publishes [OF assms(1,2,7,9), of tr peer tag ch st] obtain cq tr4 where
    tr4: "published tr4 = published tr" and d: "DecodeImage env br peer rc tag ch r (st, tr)
      = Ret (client_publish br peer rc ch cq (RequestID r) (message_priority rc r1) r3 (st, tr4))" by blast
  obtain s' r' out g where
    p: "(s', r', out, g) = client_publish br peer rc ch cq (RequestID r) (message_priority rc r1) r3 (st, tr4)"
    by (metis prod_cases4)
  define m where "m = request_message rc (message_priority rc r1) cq (RequestID r) r3"
  have ans: "br_answer br tr4 (Publish (rc_Exchange rc) (fst m) False False (snd m)) = None"
    using assms(1) by (simp add: obliging_def)
  have "Deferred r3" using k3(2) assms(8) by simp
  note deferred = client_publish_deferred [OF p this assms(3) ans m_def]
  have "DecodeImage env br peer rc tag ch r (st, tr)
      = Ret ((addNewOcrResultToQueue (RequestID r) ch st, snd s'), r',
          Some (zero_result\<lparr>Status := ''processing'', ID := RequestID r\<rparr>, 200, None),
          if ReplyTo r1 = [] then DecayAfter (seconds (TimeOut r3 + 10)) (RequestID r)
          else PostBack (RequestID r) (ReplyTo r1))"
  proof -
    have "s' = (addNewOcrResultToQueue (RequestID r) ch st, snd s')"
      using deferred(1) k3(1) by (simp add: prod_eq_iff)
    moreover have "out = Some (zero_result\<lparr>Status := ''processing'', ID := RequestID r\<rparr>, 200, None)"
      using deferred(2) k3(1) by simp
    moreover have "g = (if ReplyTo r1 = [] then DecayAfter (seconds (TimeOut r3 + 10)) (RequestID r)
        else PostBack (RequestID r) (ReplyTo r1))"
      using deferred(3) k3(1,3) by simp
    ultimately show ?thesis unfolding d p [symmetric] by simp
  qed
  moreover have "published (snd s') = published tr @ [(fst m, snd m)]"
    using client_publish_message(1) [OF p] tr4 by (simp add: m_def)
  moreover have "wf_request r3" "serves workers (rc_RoutingKey rc) (chain_of r3)"
    using k3 assms(6,10) by simp_all
  note system_peer_answer [OF assms(1,4) this assms(5) m_def, of env w, unfolded k3]
  ultimately show ?thesis by blast
qed

text \<open>The identity preprocessor, the mock engine and a broker that accepts everything.\<close>

definition sample_workers :: "string \<rightharpoonup> PreprocessorRpcWorker" where
  "sample_workers k =
     (case NewPreprocessorRpcWorker ''t'' DefaultTestConfig k of Inl e \<Rightarrow> None | Inr pw \<Rightarrow> Some pw)"

lemma sample_serves: "serves sample_workers ''decode-ocr'' (chain_of sample_request)"
proof -
  obtain pw where pw: "NewPreprocessorRpcWorker ''t'' DefaultTestConfig ''identity'' = Inr pw"
    using new_preprocessor_known [of "''t''" DefaultTestConfig "''identity''"] by (auto simp: preprocessor_names)
  moreover have "rc_RoutingKey (pw_rabbitConfig pw) = ''decode-ocr''"
    using pw by (auto simp: NewPreprocessorRpcWorker_def DefaultTestConfig_def Let_def split: option.splits)
  ultimately show ?thesis
    using new_preprocessor_wf [OF pw]
    by (simp add: serves_def sample_workers_def sample_request_def chain_of_def)
qed

lemma sample_engine_answer:
  assumes "arrived (set_timeout DefaultTestConfig sample_request) r"
  shows "engine_answer env wc r w = Some (zero_result\<lparr>Text := MockEngineResponse\<rparr>)"
proof -
  have "EngineType r = EngineMock" using arrived_keeps(2) [OF assms] by (simp add: sample_request_def)
  then show ?thesis
    by (simp add: engine_answer_def ProcessRequest_def NewOcrEngine_def mock_ProcessRequest_def)
qed

lemma sample_answered:
  "answered sample_env sample_workers wc (set_timeout DefaultTestConfig sample_request)"
proof -
  have "never_fails sample_env pw" if "sample_workers ''identity'' = Some pw" for pw
    using that by (auto simp: sample_workers_def NewPreprocessorRpcWorker_def Let_def never_fails_def
        preprocessor_names identity_preprocess_def split: option.splits)
  then have "gets_through sample_env sample_workers (chain_of sample_request)"
    by (simp add: gets_through_def sample_request_def chain_of_def)
  then show ?thesis by (simp add: answered_def sample_engine_answer)
qed

end
