(* ===== verification/Ocr_Store_Conc.thy ===== *)
theory Ocr_Store_Conc
  imports Ocr_Store
begin

text \<open>
  The table of pending requests under concurrency. deleteRequestFromQueue and
  addNewOcrResultToQueue are sequences of atomic actions (a load of the map, an atomic
  addition to the counter, a change of the gauge, a store or a delete in the map), run by
  the HTTP handlers and the goroutines that DecodeImage starts. A state is the table with a
  program counter for every thread, and a step is one action of one thread.
\<close>

section \<open>Threads and their steps\<close>

datatype pc =
    Idle
  | DelLoaded string      \<comment> \<open>the load found the request\<close>
  | DelCounted string     \<comment> \<open>the counter is decremented\<close>
  | DelGauged string      \<comment> \<open>the gauge is decremented, the entry is still there\<close>
  | AddCounted string nat \<comment> \<open>the counter is incremented\<close>
  | AddGauged string nat  \<comment> \<open>the gauge is incremented, the entry is not yet there\<close>

record conc =
  c_store :: store
  c_pcs :: "pc list"

definition init_conc :: "nat \<Rightarrow> conc" where
  "init_conc n = \<lparr>c_store = empty_store, c_pcs = replicate n Idle\<rparr>"

inductive conc_step :: "conc \<Rightarrow> conc \<Rightarrow> bool" where
  del_load: "i < length (c_pcs c) \<Longrightarrow> c_pcs c ! i = Idle \<Longrightarrow> RequestsTrack (c_store c) r \<noteq> None \<Longrightarrow>
    conc_step c (c\<lparr>c_pcs := (c_pcs c)[i := DelLoaded r]\<rparr>)"
| del_count: "i < length (c_pcs c) \<Longrightarrow> c_pcs c ! i = DelLoaded r \<Longrightarrow>
    conc_step c (c\<lparr>c_store := (c_store c)\<lparr>RequestTrackLength := RequestTrackLength (c_store c) + NOT 0\<rparr>,
                   c_pcs := (c_pcs c)[i := DelCounted r]\<rparr>)"
| del_gauge: "i < length (c_pcs c) \<Longrightarrow> c_pcs c ! i = DelCounted r \<Longrightarrow>
    conc_step c (c\<lparr>c_store := (c_store c)\<lparr>inFlightGauge := inFlightGauge (c_store c) - 1\<rparr>,
                   c_pcs := (c_pcs c)[i := DelGauged r]\<rparr>)"
| del_store: "i < length (c_pcs c) \<Longrightarrow> c_pcs c ! i = DelGauged r \<Longrightarrow>
    conc_step c (c\<lparr>c_store := (c_store c)\<lparr>RequestsTrack := (RequestsTrack (c_store c))(r := None)\<rparr>,
                   c_pcs := (c_pcs c)[i := Idle]\<rparr>)"
| add_count: "i < length (c_pcs c) \<Longrightarrow> c_pcs c ! i = Idle \<Longrightarrow>
    conc_step c (c\<lparr>c_store := (c_store c)\<lparr>RequestTrackLength := RequestTrackLength (c_store c) + 1\<rparr>,
                   c_pcs := (c_pcs c)[i := AddCounted r ch]\<rparr>)"
| add_gauge: "i < length (c_pcs c) \<Longrightarrow> c_pcs c ! i = AddCounted r ch \<Longrightarrow>
    conc_step c (c\<lparr>c_store := (c_store c)\<lparr>inFlightGauge := inFlightGauge (c_store c) + 1\<rparr>,
                   c_pcs := (c_pcs c)[i := AddGauged r ch]\<rparr>)"
| add_store: "i < length (c_pcs c) \<Longrightarrow> c_pcs c ! i = AddGauged r ch \<Longrightarrow>
    conc_step c (c\<lparr>c_store := (c_store c)\<lparr>RequestsTrack := (RequestsTrack (c_store c))(r \<mapsto> ch)\<rparr>,
                   c_pcs := (c_pcs c)[i := Idle]\<rparr>)"

inductive conc_reach :: "nat \<Rightarrow> conc \<Rightarrow> bool" for n where
  start: "conc_reach n (init_conc n)"
| step: "conc_reach n c \<Longrightarrow> conc_step c c' \<Longrightarrow> conc_reach n c'"

section \<open>Runs in which no two threads work on the same request\<close>

fun active :: "pc \<Rightarrow> string option" where
  "active Idle = None"
| "active (DelLoaded r) = Some r"
| "active (DelCounted r) = Some r"
| "active (DelGauged r) = Some r"
| "active (AddCounted r ch) = Some r"
| "active (AddGauged r ch) = Some r"

fun adding :: "pc \<Rightarrow> bool" where
  "adding (AddCounted r ch) = True"
| "adding (AddGauged r ch) = True"
| "adding _ = False"

text \<open>One thread per request, and an added request is not in the table.\<close>

definition exclusive :: "conc \<Rightarrow> bool" where
  "exclusive c \<longleftrightarrow>
     (\<forall>i < length (c_pcs c). \<forall>j < length (c_pcs c).
        i \<noteq> j \<and> active (c_pcs c ! i) = active (c_pcs c ! j) \<longrightarrow> active (c_pcs c ! i) = None)
   \<and> (\<forall>i < length (c_pcs c). \<forall>r. adding (c_pcs c ! i) \<and> active (c_pcs c ! i) = Some r \<longrightarrow>
        RequestsTrack (c_store c) r = None)"

inductive excl_reach :: "nat \<Rightarrow> conc \<Rightarrow> bool" for n where
  start: "excl_reach n (init_conc n)"
| step: "excl_reach n c \<Longrightarrow> conc_step c c' \<Longrightarrow> exclusive c' \<Longrightarrow> excl_reach n c'"

inductive_cases conc_stepE: "conc_step c c'"

section \<open>The counter, exactly\<close>

text \<open>What a thread in the middle of an operation has added to the counter, and to the gauge.\<close>

fun pc_weight :: "pc \<Rightarrow> uint32" where
  "pc_weight (DelCounted r) = - 1"
| "pc_weight (DelGauged r) = - 1"
| "pc_weight (AddCounted r ch) = 1"
| "pc_weight (AddGauged r ch) = 1"
| "pc_weight _ = 0"

fun pc_gauge :: "pc \<Rightarrow> int" where
  "pc_gauge (DelGauged r) = - 1"
| "pc_gauge (AddGauged r ch) = 1"
| "pc_gauge _ = 0"

definition conc_inv :: "conc \<Rightarrow> bool" where
  "conc_inv c \<longleftrightarrow>
     finite (dom (RequestsTrack (c_store c)))
   \<and> RequestTrackLength (c_store c)
       = of_nat (card (dom (RequestsTrack (c_store c)))) + sum_list (map pc_weight (c_pcs c))
   \<and> inFlightGauge (c_store c)
       = int (card (dom (RequestsTrack (c_store c)))) + sum_list (map pc_gauge (c_pcs c))
   \<and> (\<forall>i < length (c_pcs c). \<forall>r. active (c_pcs c ! i) = Some r \<and> \<not> adding (c_pcs c ! i) \<longrightarrow>
        RequestsTrack (c_store c) r \<noteq> None)"

lemma card_dom_delete:
  assumes "finite (dom m)" "m r \<noteq> None"
  shows "card (dom m) = Suc (card (dom m - {r}))"
  by (metis assms card_Suc_Diff1 domIff)

lemma conc_inv_init: "conc_inv (init_conc n)"
  by (simp add: conc_inv_def init_conc_def empty_store_def sum_list_replicate map_replicate_const)

text \<open>The part of the invariant about deleting threads: their requests are in the table.\<close>

lemma conc_invI:
  assumes "finite (dom (RequestsTrack (c_store c)))"
    and "RequestTrackLength (c_store c)
       = of_nat (card (dom (RequestsTrack (c_store c)))) + sum_list (map pc_weight (c_pcs c))"
    and "inFlightGauge (c_store c)
       = int (card (dom (RequestsTrack (c_store c)))) + sum_list (map pc_gauge (c_pcs c))"
    and "\<And>i r. i < length (c_pcs c) \<Longrightarrow> active (c_pcs c ! i) = Some r \<Longrightarrow> \<not> adding (c_pcs c ! i) \<Longrightarrow>
      RequestsTrack (c_store c) r \<noteq> None"
  shows "conc_inv c"
  using assms unfolding conc_inv_def by blast

lemma conc_step_inv:
  assumes "conc_step c c'" "conc_inv c" "exclusive c"
  shows "conc_inv c'"
  using assms(1)
proof cases
  case (del_store i r)
  let ?m = "RequestsTrack (c_store c)"
  have r: "?m r \<noteq> None" using del_store assms(2) by (fastforce simp: conc_inv_def)
  have other: "active (c_pcs c ! j) \<noteq> Some r" if "j < length (c_pcs c)" "j \<noteq> i" for j
    using that del_store assms(3) unfolding exclusive_def
    by (metis active.simps(4) option.distinct(1))
  have "card (dom ?m) = Suc (card (dom ?m - {r}))"
    using r assms(2) by (intro card_dom_delete) (simp_all add: conc_inv_def)
  with assms(2) del_store other show ?thesis
    by (intro conc_invI) (auto simp: conc_inv_def sum_list_map_update nth_list_update split: if_splits)
next
  case (add_store i r ch)
  let ?m = "RequestsTrack (c_store c)"
  have "?m r = None" using add_store assms(3) by (fastforce simp: exclusive_def)
  then have "r \<notin> dom ?m" by auto
  with assms(2) add_store show ?thesis
    by (intro conc_invI) (auto simp: conc_inv_def sum_list_map_update nth_list_update split: if_splits)
qed (use assms(2) in \<open>auto simp: conc_inv_def sum_list_map_update nth_list_update split: if_splits\<close>)

lemma excl_reach_exclusive: "excl_reach n c \<Longrightarrow> exclusive c"
  by (induction rule: excl_reach.induct) (auto simp: exclusive_def init_conc_def)

lemma excl_reach_inv: "excl_reach n c \<Longrightarrow> conc_inv c"
  by (induction rule: excl_reach.induct)
    (auto simp: conc_inv_init intro: conc_step_inv excl_reach_exclusive)

text \<open>No thread in the middle of an operation.\<close>

definition quiescent :: "conc \<Rightarrow> bool" where
  "quiescent c \<longleftrightarrow> (\<forall>p \<in> set (c_pcs c). p = Idle)"

lemma quiescent_weight:
  assumes "quiescent c"
  shows "sum_list (map pc_weight (c_pcs c)) = 0" "sum_list (map pc_gauge (c_pcs c)) = 0"
proof -
  have "c_pcs c = replicate (length (c_pcs c)) Idle"
    using assms by (simp add: quiescent_def replicate_length_same)
  then obtain k where "c_pcs c = replicate k Idle" by blast
  then show "sum_list (map pc_weight (c_pcs c)) = 0" "sum_list (map pc_gauge (c_pcs c)) = 0"
    by (simp_all add: map_replicate sum_list_replicate)
qed

lemma excl_reach_quiescent:
  assumes "excl_reach n c" "quiescent c"
  shows "store_inv (c_store c)"
    and "inFlightGauge (c_store c) = int (card (dom (RequestsTrack (c_store c))))"
  using excl_reach_inv [OF assms(1)] quiescent_weight [OF assms(2)]
  by (simp_all add: conc_inv_def store_inv_def)

section \<open>Two deletions of one request\<close>

text \<open>
  Nothing in the code makes deletions exclusive: a poll that took the result and the timer
  goroutine of the same request may both have loaded the entry before either deletes it.
  The run below adds a request and deletes it by two threads.
\<close>

definition table_with :: "string \<Rightarrow> uint32 \<Rightarrow> int \<Rightarrow> bool \<Rightarrow> store" where
  "table_with r n g b =
     empty_store\<lparr>RequestsTrack := (if b then [r \<mapsto> 0] else Map.empty),
       RequestTrackLength := n, inFlightGauge := g\<rparr>"

lemma double_delete_run:
  "conc_reach 2 \<lparr>c_store = table_with r (- 1) (- 1) False, c_pcs = [Idle, Idle]\<rparr>"
proof -
  let ?c = "\<lambda>n g b p q. \<lparr>c_store = table_with r n g b, c_pcs = [p, q]\<rparr>"
  have s0: "conc_reach 2 (?c 0 0 False Idle Idle)"
    using conc_reach.start [of 2] by (simp add: init_conc_def table_with_def empty_store_def numeral_2_eq_2)
  have go: "conc_reach 2 c'" if "conc_reach 2 c" "conc_step c c'' " "c'' = c'" for c c' c''
    using that conc_reach.step by blast
  have s1: "conc_reach 2 (?c 1 0 False (AddCounted r 0) Idle)"
    by (rule go [OF s0 conc_step.add_count [of 0 _ r 0]]) (simp_all add: table_with_def)
  have s2: "conc_reach 2 (?c 1 1 False (AddGauged r 0) Idle)"
    by (rule go [OF s1 conc_step.add_gauge [of 0 _ r 0]]) (simp_all add: table_with_def)
  have s3: "conc_reach 2 (?c 1 1 True Idle Idle)"
    by (rule go [OF s2 conc_step.add_store [of 0 _ r 0]]) (simp_all add: table_with_def)
  have s4: "conc_reach 2 (?c 1 1 True (DelLoaded r) Idle)"
    by (rule go [OF s3 conc_step.del_load [of 0 _ r]]) (simp_all add: table_with_def)
  have s5: "conc_reach 2 (?c 1 1 True (DelLoaded r) (DelLoaded r))"
    by (rule go [OF s4 conc_step.del_load [of 1 _ r]]) (simp_all add: table_with_def)
  have s6: "conc_reach 2 (?c 0 1 True (DelCounted r) (DelLoaded r))"
    by (rule go [OF s5 conc_step.del_count [of 0 _ r]]) (simp_all add: table_with_def)
  have s7: "conc_reach 2 (?c (- 1) 1 True (DelCounted r) (DelCounted r))"
    by (rule go [OF s6 conc_step.del_count [of 1 _ r]]) (simp_all add: table_with_def)
  have s8: "conc_reach 2 (?c (- 1) 0 True (DelGauged r) (DelCounted r))"
    by (rule go [OF s7 conc_step.del_gauge [of 0 _ r]]) (simp_all add: table_with_def)
  have s9: "conc_reach 2 (?c (- 1) (- 1) True (DelGauged r) (DelGauged r))"
    by (rule go [OF s8 conc_step.del_gauge [of 1 _ r]]) (simp_all add: table_with_def)
  have s10: "conc_reach 2 (?c (- 1) (- 1) False Idle (DelGauged r))"
    by (rule go [OF s9 conc_step.del_store [of 0 _ r]]) (simp_all add: table_with_def)
  show ?thesis
    by (rule go [OF s10 conc_step.del_store [of 1 _ r]]) (simp_all add: table_with_def)
qed

section \<open>Properties\<close>


lemma one_add_reached:
  "excl_reach 1 \<lparr>c_store = table_with r 1 1 True, c_pcs = [Idle]\<rparr>"
proof -
  let ?c = "\<lambda>n g b p. \<lparr>c_store = table_with r n g b, c_pcs = [p]\<rparr>"
  have go: "excl_reach 1 c'" if "excl_reach 1 c" "conc_step c c''" "c'' = c'" "exclusive c'" for c c' c''
    using that excl_reach.step by blast
  have s0: "excl_reach 1 (?c 0 0 False Idle)"
    using excl_reach.start [of 1] by (simp add: init_conc_def table_with_def empty_store_def)
  have s1: "excl_reach 1 (?c 1 0 False (AddCounted r 0))"
    by (rule go [OF s0 conc_step.add_count [of 0 _ r 0]]) (simp_all add: table_with_def exclusive_def)
  have s2: "excl_reach 1 (?c 1 1 False (AddGauged r 0))"
    by (rule go [OF s1 conc_step.add_gauge [of 0 _ r 0]]) (simp_all add: table_with_def exclusive_def)
  show ?thesis
    by (rule go [OF s2 conc_step.add_store [of 0 _ r 0]]) (simp_all add: table_with_def exclusive_def)
qed


text \<open>C29: Two threads that delete the same request can leave an empty table with the counter at
  2^32 - 1: neither the scheduler nor the shutdown then sees that the table is empty.\<close>

theorem double_delete_wraps:
  "\<exists>c. conc_reach 2 c \<and> quiescent c \<and> RequestsTrack (c_store c) = Map.empty
    \<and> unat (getQueueLen (c_store c)) = 2 ^ 32 - 1"
proof (intro exI conjI)
  show "conc_reach 2 \<lparr>c_store = table_with ''a'' (- 1) (- 1) False, c_pcs = [Idle, Idle]\<rparr>"
    by (rule double_delete_run)
qed (simp_all add: quiescent_def table_with_def getQueueLen_def empty_store_def unsigned_ucast_eq unsigned_minus_1_eq_mask mask_eq_exp_minus_1)

end
