(* ===== verification/Ocr_Lifecycle.thy ===== *)
theory Ocr_Lifecycle
  imports Ocr_Client
begin

text \<open>
  The life of deferred requests under concurrency. Every deferred request has activities that
  share the table of pending requests: the handler that registers it (the end of
  DecodeImage), the goroutine that receives its answer (handleRPCResponse), the goroutine that
  lets it decay or posts its result, and any number of polls (CheckOcrStatusByID). Each is a
  sequence of atomic actions on the table, the counter, the gauge and the channels, and the
  actions of different activities interleave in any order. Clients may choose any
  identifiers, the same one several times included.

  Two theorems about all interleavings rest on the invariants here: a request in the table
  always has an activity that will remove it, and a result is handed out at most once and
  under the identifier of its request. The activities that run alone do what the sequential
  definitions of Ocr_Store say.
\<close>

section \<open>Activities and their actions\<close>

datatype activity =
    Registering string nat string  \<comment> \<open>published; identifier, channel and reply address\<close>
  | RegCounted string nat string   \<comment> \<open>the counter is incremented\<close>
  | RegGauged string nat string    \<comment> \<open>the gauge is incremented\<close>
  | Starting string nat string     \<comment> \<open>in the table, before the go statement\<close>
  | Decaying string bool           \<comment> \<open>the loop of the decay goroutine; whether the timer can still fire\<close>
  | AwaitingPost string nat        \<comment> \<open>the postback goroutine before its select\<close>
  | Polling string                 \<comment> \<open>CheckOcrStatusByID before its load\<close>
  | Claiming string nat            \<comment> \<open>the load found the channel\<close>
  | Deleting string                \<comment> \<open>deleteRequestFromQueue before its load\<close>
  | DelFound string                \<comment> \<open>the load found the request\<close>
  | DelCounted string              \<comment> \<open>the counter is decremented\<close>
  | DelGauged string               \<comment> \<open>the gauge is decremented, the entry is still there\<close>
  | Listening string nat           \<comment> \<open>handleRPCResponse before the delivery\<close>
  | Ended

type_synonym handed = "(string \<times> nat \<times> OcrResult) list"

text \<open>
  One action of one activity, with the results it hands to a client (the request asked for,
  the channel, the result). A select takes the case of its timer at any time.
\<close>

inductive act :: "store \<Rightarrow> activity \<Rightarrow> store \<Rightarrow> activity \<Rightarrow> handed \<Rightarrow> bool" where
  reg_count: "act s (Registering r ch rt)
     (s\<lparr>RequestTrackLength := RequestTrackLength s + 1\<rparr>) (RegCounted r ch rt) []"
| reg_gauge: "act s (RegCounted r ch rt) (s\<lparr>inFlightGauge := inFlightGauge s + 1\<rparr>) (RegGauged r ch rt) []"
| reg_store: "act s (RegGauged r ch rt)
     (s\<lparr>RequestsTrack := (RequestsTrack s)(r \<mapsto> ch)\<rparr>) (Starting r ch rt) []"
| start_decay: "rt = [] \<Longrightarrow> act s (Starting r ch rt) s (Decaying r True) []"
| start_post: "rt \<noteq> [] \<Longrightarrow> act s (Starting r ch rt) s (AwaitingPost r ch) []"
| decay_due: "RequestsTrack s r \<noteq> None \<Longrightarrow> act s (Decaying r True) s (Deleting r) []"
| decay_late: "RequestsTrack s r = None \<Longrightarrow> act s (Decaying r True) s (Decaying r False) []"
| decay_gone: "RequestsTrack s r = None \<Longrightarrow> act s (Decaying r b) s Ended []"
| decay_again: "RequestsTrack s r \<noteq> None \<Longrightarrow> act s (Decaying r b) s (Decaying r b) []"
| post_result: "chans s ch = res # rest \<Longrightarrow>
     act s (AwaitingPost r ch) (s\<lparr>chans := (chans s)(ch := rest)\<rparr>) (Deleting r) [(r, ch, res)]"
| post_timeout: "act s (AwaitingPost r ch) s (Deleting r) []"
| poll_found: "RequestsTrack s r = Some ch \<Longrightarrow> act s (Polling r) s (Claiming r ch) []"
| poll_unknown: "RequestsTrack s r = None \<Longrightarrow> act s (Polling r) s Ended []"
| claim_result: "chans s ch = res # rest \<Longrightarrow>
     act s (Claiming r ch) (s\<lparr>chans := (chans s)(ch := rest)\<rparr>) (Deleting r) [(r, ch, res)]"
| claim_wait: "chans s ch = [] \<Longrightarrow> act s (Claiming r ch) s Ended []"
| del_found: "RequestsTrack s r \<noteq> None \<Longrightarrow> act s (Deleting r) s (DelFound r) []"
| del_absent: "RequestsTrack s r = None \<Longrightarrow> act s (Deleting r) s Ended []"
| del_count: "act s (DelFound r) (s\<lparr>RequestTrackLength := RequestTrackLength s + NOT 0\<rparr>) (DelCounted r) []"
| del_gauge: "act s (DelCounted r) (s\<lparr>inFlightGauge := inFlightGauge s - 1\<rparr>) (DelGauged r) []"
| del_store: "act s (DelGauged r) (s\<lparr>RequestsTrack := (RequestsTrack s)(r := None)\<rparr>) Ended []"
| listen: "act s (Listening r ch) (send_result ch (res\<lparr>ID := r\<rparr>) s) Ended []"

inductive_simps act_simps:
  "act s (Registering r ch rt) s' a out" "act s (RegCounted r ch rt) s' a out"
  "act s (RegGauged r ch rt) s' a out" "act s (Polling r) s' a out" "act s (Claiming r ch) s' a out"
  "act s (Deleting r) s' a out" "act s (DelFound r) s' a out" "act s (DelCounted r) s' a out"
  "act s (DelGauged r) s' a out" "act s Ended s' a out"

section \<open>The daemon\<close>

record daemon =
  d_store :: store
  d_activities :: "activity list"
  d_next :: nat
  d_handed :: handed

definition init_daemon :: daemon where
  "init_daemon = \<lparr>d_store = empty_store, d_activities = [], d_next = 0, d_handed = []\<rparr>"

text \<open>
  A step is an action of an activity, a new deferred request (with the channel that DecodeImage
  makes, and handleRPCResponse listening on its callback queue), or a new poll.
\<close>

inductive daemon_step :: "daemon \<Rightarrow> daemon \<Rightarrow> bool" where
  action: "i < length (d_activities d) \<Longrightarrow> act (d_store d) (d_activities d ! i) s' a' out \<Longrightarrow>
    daemon_step d (d\<lparr>d_store := s', d_activities := (d_activities d)[i := a'],
                     d_handed := d_handed d @ out\<rparr>)"
| new_request: "daemon_step d (d\<lparr>d_activities := d_activities d @ [Registering r (d_next d) rt, Listening r (d_next d)],
                     d_next := Suc (d_next d)\<rparr>)"
| new_poll: "daemon_step d (d\<lparr>d_activities := d_activities d @ [Polling r]\<rparr>)"

inductive daemon_reach :: "daemon \<Rightarrow> daemon \<Rightarrow> bool" for d where
  here: "daemon_reach d d"
| onward: "daemon_reach d d1 \<Longrightarrow> daemon_step d1 d2 \<Longrightarrow> daemon_reach d d2"

lemma daemon_reach_trans:
  assumes "daemon_reach a b" "daemon_reach b c"
  shows "daemon_reach a c"
  using assms(2,1) by induction (auto intro: daemon_reach.onward)

section \<open>Every request in the table is looked after\<close>

text \<open>The request that an activity is going to remove, whatever the others do.\<close>

fun minds :: "activity \<Rightarrow> string option" where
  "minds (Starting r ch rt) = Some r"
| "minds (Decaying r True) = Some r"
| "minds (AwaitingPost r ch) = Some r"
| "minds (Deleting r) = Some r"
| "minds (DelFound r) = Some r"
| "minds (DelCounted r) = Some r"
| "minds (DelGauged r) = Some r"
| "minds _ = None"

lemma minds_Decaying [simp]: "minds (Decaying r b) = (if b then Some r else None)"
  by (cases b) simp_all

definition looked_after :: "daemon \<Rightarrow> bool" where
  "looked_after d \<longleftrightarrow> (\<forall>r. RequestsTrack (d_store d) r \<noteq> None \<longrightarrow>
     (\<exists>i < length (d_activities d). minds (d_activities d ! i) = Some r))"

text \<open>Who puts a request into the table minds it, and stops only when the request is not there.\<close>

lemma act_minds:
  assumes "act s a s' a' out"
  shows "RequestsTrack s' r \<noteq> None \<Longrightarrow> RequestsTrack s r \<noteq> None \<or> minds a' = Some r"
    and "minds a = Some r \<Longrightarrow> minds a' = Some r \<or> RequestsTrack s' r = None"
  using assms by (induction rule: act.induct) (simp_all add: send_result_def split: if_splits)

lemma daemon_step_looked_after:
  assumes "daemon_step d d'" "looked_after d"
  shows "looked_after d'"
  using assms(1)
proof cases
  case (action i s' a' out)
  show ?thesis unfolding looked_after_def
  proof (intro allI impI)
    fix r
    assume "RequestsTrack (d_store d') r \<noteq> None"
    then have r: "RequestsTrack s' r \<noteq> None" by (simp add: action(1))
    show "\<exists>j < length (d_activities d'). minds (d_activities d' ! j) = Some r"
    proof (cases "minds a' = Some r")
      case True
      with action show ?thesis by (intro exI [of _ i]) simp
    next
      case False
      with act_minds(1) [OF action(3) r] assms(2) obtain j where
        j: "j < length (d_activities d)" "minds (d_activities d ! j) = Some r"
        by (auto simp: looked_after_def)
      with act_minds(2) [OF action(3), of r] False r have "j \<noteq> i" by auto
      with j action(1) show ?thesis by (intro exI [of _ j]) simp
    qed
  qed
qed (use assms(2) in \<open>force simp: looked_after_def nth_append\<close>)+

lemma reach_looked_after: "daemon_reach d d' \<Longrightarrow> looked_after d \<Longrightarrow> looked_after d'"
  by (induction rule: daemon_reach.induct) (auto intro: daemon_step_looked_after)

lemma init_looked_after: "looked_after init_daemon"
  by (simp add: looked_after_def init_daemon_def empty_store_def)

section \<open>Everything can come to an end\<close>

text \<open>How many actions an activity has before it at most, when it makes progress.\<close>

fun rank :: "activity \<Rightarrow> nat" where
  "rank (Registering r ch rt) = 9"
| "rank (RegCounted r ch rt) = 8"
| "rank (RegGauged r ch rt) = 7"
| "rank (Starting r ch rt) = 6"
| "rank (Decaying r timer) = (if timer then 5 else 1)"
| "rank (AwaitingPost r ch) = 5"
| "rank (Polling r) = 6"
| "rank (Claiming r ch) = 5"
| "rank (Deleting r) = 4"
| "rank (DelFound r) = 3"
| "rank (DelCounted r) = 2"
| "rank (DelGauged r) = 1"
| "rank (Listening r ch) = 1"
| "rank Ended = 0"

lemma act_rank: "act s a s' a' out \<Longrightarrow> rank a' \<le> rank a"
  by (cases rule: act.cases) auto

text \<open>Only a decay goroutine whose timer is used up may have to wait for another activity.\<close>

lemma act_progress:
  assumes "a \<noteq> Ended" "\<And>r. a = Decaying r False \<Longrightarrow> RequestsTrack s r = None"
  shows "\<exists>s' a' out. act s a s' a' out \<and> rank a' < rank a"
proof (cases a)
  case (Registering r ch rt)
  with act.reg_count show ?thesis by fastforce
next
  case (RegCounted r ch rt)
  with act.reg_gauge show ?thesis by fastforce
next
  case (RegGauged r ch rt)
  with act.reg_store show ?thesis by fastforce
next
  case (Starting r ch rt)
  with act.start_decay act.start_post show ?thesis by (cases "rt = []") fastforce+
next
  case (Decaying r b)
  show ?thesis
  proof (cases "RequestsTrack s r = None")
    case True
    with Decaying act.decay_gone [of s r b] show ?thesis by fastforce
  next
    case False
    with Decaying assms(2) have "a = Decaying r True" by (cases b) auto
    with act.decay_due [OF False] show ?thesis by fastforce
  qed
next
  case (AwaitingPost r ch)
  with act.post_timeout show ?thesis by fastforce
next
  case (Polling r)
  show ?thesis
  proof (cases "RequestsTrack s r")
    case None
    with Polling act.poll_unknown [OF None] show ?thesis by fastforce
  next
    case (Some ch)
    with Polling act.poll_found [OF Some] show ?thesis by fastforce
  qed
next
  case (Claiming r ch)
  show ?thesis
  proof (cases "chans s ch")
    case Nil
    with Claiming act.claim_wait [OF Nil] show ?thesis by fastforce
  next
    case (Cons res rest)
    with Claiming act.claim_result [OF Cons] show ?thesis by fastforce
  qed
next
  case (Deleting r)
  show ?thesis
  proof (cases "RequestsTrack s r = None")
    case True
    with Deleting act.del_absent [OF True] show ?thesis by fastforce
  next
    case False
    with Deleting act.del_found [OF False] show ?thesis by fastforce
  qed
next
  case (DelFound r)
  with act.del_count show ?thesis by fastforce
next
  case (DelCounted r)
  with act.del_gauge show ?thesis by fastforce
next
  case (DelGauged r)
  with act.del_store show ?thesis by fastforce
next
  case (Listening r ch)
  with act.listen show ?thesis by fastforce
qed (use assms(1) in simp)

definition all_ended :: "daemon \<Rightarrow> bool" where
  "all_ended d \<longleftrightarrow> (\<forall>a \<in> set (d_activities d). a = Ended)"

lemma ended_empty:
  assumes "looked_after d" "all_ended d"
  shows "RequestsTrack (d_store d) = Map.empty"
proof
  fix r
  show "RequestsTrack (d_store d) r = None"
  proof (rule ccontr)
    assume "RequestsTrack (d_store d) r \<noteq> None"
    with assms(1) obtain i where "i < length (d_activities d)" "minds (d_activities d ! i) = Some r"
      by (auto simp: looked_after_def)
    moreover from this(1) assms(2) have "d_activities d ! i = Ended" by (simp add: all_ended_def)
    ultimately show False by simp
  qed
qed

definition work :: "daemon \<Rightarrow> nat" where
  "work d = sum_list (map rank (d_activities d))"

lemma work_decreases:
  assumes "looked_after d" "\<not> all_ended d"
  shows "\<exists>d'. daemon_step d d' \<and> work d' < work d"
proof -
  have "\<exists>i < length (d_activities d). d_activities d ! i \<noteq> Ended \<and>
    (\<forall>r. d_activities d ! i = Decaying r False \<longrightarrow> RequestsTrack (d_store d) r = None)"
  proof (rule ccontr)
    assume none: "\<not> ?thesis"
    from assms(2) obtain i where i: "i < length (d_activities d)" "d_activities d ! i \<noteq> Ended"
      by (metis all_ended_def in_set_conv_nth)
    with none obtain r where "RequestsTrack (d_store d) r \<noteq> None" by blast
    with assms(1) obtain j where j: "j < length (d_activities d)" "minds (d_activities d ! j) = Some r"
      by (auto simp: looked_after_def)
    then have "d_activities d ! j \<noteq> Ended" "\<forall>r. d_activities d ! j \<noteq> Decaying r False" by auto
    with none j show False by blast
  qed
  then obtain i where i: "i < length (d_activities d)" "d_activities d ! i \<noteq> Ended"
    "\<And>r. d_activities d ! i = Decaying r False \<Longrightarrow> RequestsTrack (d_store d) r = None" by blast
  from act_progress [OF i(2,3)] obtain s' a' out where
    a: "act (d_store d) (d_activities d ! i) s' a' out" "rank a' < rank (d_activities d ! i)" by blast
  have "sum_list (map rank ((d_activities d)[i := a'])) < sum_list (map rank (d_activities d))"
    using i(1) a(2) by (rule sum_list_map_less)
  with daemon_step.action [OF i(1) a(1)] show ?thesis by (force simp: work_def)
qed

lemma drains:
  assumes "looked_after d"
  shows "\<exists>d'. daemon_reach d d' \<and> all_ended d' \<and> RequestsTrack (d_store d') = Map.empty"
  using assms
proof (induction "work d" arbitrary: d rule: less_induct)
  case less
  show ?case
  proof (cases "all_ended d")
    case True
    with ended_empty [OF less.prems] show ?thesis using daemon_reach.here by blast
  next
    case False
    from work_decreases [OF less.prems this] obtain d1 where d1: "daemon_step d d1" "work d1 < work d" by blast
    from less.hyps [OF d1(2) daemon_step_looked_after [OF d1(1) less.prems]] obtain d' where
      "daemon_reach d1 d'" "all_ended d'" "RequestsTrack (d_store d') = Map.empty" by blast
    moreover have "daemon_reach d d1" using d1(1) daemon_reach.here daemon_reach.onward by blast
    ultimately show ?thesis using daemon_reach_trans by blast
  qed
qed

section \<open>Results are handed out once, to the right client\<close>

text \<open>
  The channel an activity works with, and the request the channel was made for: no channel
  changes hands between requests, and each gets at most one result, which is then in the
  channel or handed out.
\<close>

fun channel_of :: "activity \<Rightarrow> (string \<times> nat) option" where
  "channel_of (Registering r ch rt) = Some (r, ch)"
| "channel_of (RegCounted r ch rt) = Some (r, ch)"
| "channel_of (RegGauged r ch rt) = Some (r, ch)"
| "channel_of (Starting r ch rt) = Some (r, ch)"
| "channel_of (AwaitingPost r ch) = Some (r, ch)"
| "channel_of (Claiming r ch) = Some (r, ch)"
| "channel_of (Listening r ch) = Some (r, ch)"
| "channel_of _ = None"

definition owned :: "(nat \<Rightarrow> string) \<Rightarrow> store \<Rightarrow> bool" where
  "owned own s \<longleftrightarrow> (\<forall>r ch. RequestsTrack s r = Some ch \<longrightarrow> own ch = r)
     \<and> (\<forall>ch. \<forall>res \<in> set (chans s ch). ID res = own ch)"

lemma act_owned:
  assumes "act s a s' a' out" "owned own s" "\<And>r ch. channel_of a = Some (r, ch) \<Longrightarrow> own ch = r"
  shows "owned own s'" and "channel_of a' = Some (r, ch) \<Longrightarrow> own ch = r"
    and "(r, ch, res) \<in> set out \<Longrightarrow> own ch = r \<and> ID res = r"
  using assms by (induction rule: act.induct) (auto simp: owned_def send_result_def split: if_splits)

text \<open>Below the next channel: an unused channel is in nobody's hands.\<close>

definition used_below :: "nat \<Rightarrow> daemon \<Rightarrow> bool" where
  "used_below n d \<longleftrightarrow> (\<forall>a \<in> set (d_activities d). \<forall>r ch. channel_of a = Some (r, ch) \<longrightarrow> ch < n)
     \<and> (\<forall>r ch. RequestsTrack (d_store d) r = Some ch \<longrightarrow> ch < n)
     \<and> (\<forall>ch. chans (d_store d) ch \<noteq> [] \<longrightarrow> ch < n) \<and> (\<forall>(r, ch, res) \<in> set (d_handed d). ch < n)"

lemma act_used_below:
  assumes "act s a s' a' out" "\<And>r ch. channel_of a = Some (r, ch) \<Longrightarrow> ch < n"
    and "\<And>r ch. RequestsTrack s r = Some ch \<Longrightarrow> ch < n" "\<And>ch. chans s ch \<noteq> [] \<Longrightarrow> ch < n"
  shows "channel_of a' = Some (r, ch) \<Longrightarrow> ch < n" "RequestsTrack s' r = Some ch \<Longrightarrow> ch < n"
    "chans s' ch \<noteq> [] \<Longrightarrow> ch < n" "(r, ch, res) \<in> set out \<Longrightarrow> ch < n"
  using assms by (induction rule: act.induct) (auto simp: send_result_def split: if_splits)

text \<open>The result of a channel: still expected, in the channel, or handed out.\<close>

fun expects :: "nat \<Rightarrow> activity \<Rightarrow> nat" where
  "expects ch (Listening r ch') = (if ch' = ch then 1 else 0)"
| "expects ch _ = 0"

definition given :: "nat \<Rightarrow> handed \<Rightarrow> nat" where
  "given ch h = length (filter (\<lambda>(r, ch', res). ch' = ch) h)"

definition results_of :: "nat \<Rightarrow> daemon \<Rightarrow> nat" where
  "results_of ch d = sum_list (map (expects ch) (d_activities d)) + length (chans (d_store d) ch)
     + given ch (d_handed d)"

lemma act_results:
  assumes "act s a s' a' out"
  shows "expects ch a' + length (chans s' ch) + given ch out = expects ch a + length (chans s ch)"
  using assms by (induction rule: act.induct) (auto simp: send_result_def given_def)

lemma daemon_step_results:
  assumes "daemon_step d d'"
  shows "results_of ch d' = results_of ch d \<or> ch = d_next d \<and> results_of ch d' = Suc (results_of ch d)"
  using assms
proof cases
  case (action i s' a' out)
  have "sum_list (map (expects ch) ((d_activities d)[i := a'])) + expects ch (d_activities d ! i)
      = sum_list (map (expects ch) (d_activities d)) + expects ch a'"
    using action(2) by (rule sum_list_map_swap)
  moreover have "given ch (d_handed d @ out) = given ch (d_handed d) + given ch out"
    by (simp add: given_def)
  ultimately have "results_of ch d' = results_of ch d"
    using act_results [OF action(3), of ch] by (simp add: results_of_def action(1))
  then show ?thesis ..
qed (auto simp: results_of_def)

definition handing_inv :: "daemon \<Rightarrow> bool" where
  "handing_inv d \<longleftrightarrow> used_below (d_next d) d \<and> (\<forall>ch. results_of ch d \<le> 1)
     \<and> (\<exists>own. owned own (d_store d)
          \<and> (\<forall>a \<in> set (d_activities d). \<forall>r ch. channel_of a = Some (r, ch) \<longrightarrow> own ch = r)
          \<and> (\<forall>(r, ch, res) \<in> set (d_handed d). own ch = r \<and> ID res = r))"

lemma expects_channel: "expects ch a \<noteq> 0 \<Longrightarrow> \<exists>r. channel_of a = Some (r, ch)"
  by (cases a) (simp_all split: if_splits)

lemma unused_channel:
  assumes "used_below n d"
  shows "results_of n d = 0"
proof -
  have "expects n a = 0" if "a \<in> set (d_activities d)" for a
    using that assms expects_channel [of n a] by (fastforce simp: used_below_def)
  moreover have "chans (d_store d) n = []" using assms by (force simp: used_below_def)
  moreover have "given n (d_handed d) = 0"
    using assms by (force simp: given_def used_below_def filter_empty_conv)
  ultimately show ?thesis by (simp add: results_of_def)
qed

lemma action_used_below:
  assumes "used_below n d" "i < length (d_activities d)" "act (d_store d) (d_activities d ! i) s' a' out"
  shows "used_below n (d\<lparr>d_store := s', d_activities := (d_activities d)[i := a'],
                          d_handed := d_handed d @ out\<rparr>)"
proof -
  have "channel_of (d_activities d ! i) = Some (r, ch) \<Longrightarrow> ch < n" for r ch
    using assms(1,2) nth_mem by (fastforce simp: used_below_def)
  note below = act_used_below [OF assms(3) this]
  from assms(1) show ?thesis
    unfolding used_below_def
    by (auto dest!: set_update_subset_insert [THEN subsetD] intro: below)
qed

lemma daemon_step_handing:
  assumes "daemon_step d d'" "handing_inv d"
  shows "handing_inv d'"
proof -
  from assms(2) obtain own where own: "owned own (d_store d)"
    "\<And>a r ch. a \<in> set (d_activities d) \<Longrightarrow> channel_of a = Some (r, ch) \<Longrightarrow> own ch = r"
    "\<And>r ch res. (r, ch, res) \<in> set (d_handed d) \<Longrightarrow> own ch = r \<and> ID res = r"
    by (fastforce simp: handing_inv_def)
  have below: "used_below (d_next d) d" using assms(2) by (simp add: handing_inv_def)
  have once: "results_of ch d' \<le> 1" for ch
    using daemon_step_results [OF assms(1), of ch] unused_channel [OF below] assms(2)
    by (auto simp: handing_inv_def)
  from assms(1) show ?thesis
  proof cases
    case (action i s' a' out)
    have mine: "channel_of (d_activities d ! i) = Some (r, ch) \<Longrightarrow> own ch = r" for r ch
      using own(2) action(2) nth_mem by blast
    note keeps = act_owned [OF action(3) own(1) mine]
    have "\<exists>own. owned own (d_store d')
          \<and> (\<forall>a \<in> set (d_activities d'). \<forall>r ch. channel_of a = Some (r, ch) \<longrightarrow> own ch = r)
          \<and> (\<forall>(r, ch, res) \<in> set (d_handed d'). own ch = r \<and> ID res = r)"
      using keeps own(2,3) by (intro exI [of _ own])
        (auto simp: action(1) dest!: set_update_subset_insert [THEN subsetD])
    with once action_used_below [OF below action(2,3)] show ?thesis by (simp add: handing_inv_def action(1))
  next
    case (new_request r rt)
    have fresh: "a \<in> set (d_activities d) \<Longrightarrow> channel_of a = Some (r', ch) \<Longrightarrow> ch \<noteq> d_next d"
      "RequestsTrack (d_store d) r' = Some ch \<Longrightarrow> ch \<noteq> d_next d" "chans (d_store d) (d_next d) = []"
      "(r', ch, res) \<in> set (d_handed d) \<Longrightarrow> ch \<noteq> d_next d" for a r' ch res
      using below by (force simp: used_below_def)+
    let ?own = "own(d_next d := r)"
    have "owned ?own (d_store d')" using own(1) fresh by (auto simp: owned_def new_request)
    moreover have "\<forall>a \<in> set (d_activities d'). \<forall>r ch. channel_of a = Some (r, ch) \<longrightarrow> ?own ch = r"
      using own(2) fresh(1) by (auto simp: new_request)
    moreover have "\<forall>(r, ch, res) \<in> set (d_handed d'). ?own ch = r \<and> ID res = r"
      using own(3) fresh(4) by (fastforce simp: new_request)
    moreover have "used_below (d_next d') d'"
      using below by (fastforce simp: used_below_def new_request less_Suc_eq)
    ultimately show ?thesis using once unfolding handing_inv_def by blast
  next
    case (new_poll r)
    have "used_below (d_next d') d'" using below by (auto simp: used_below_def new_poll)
    moreover have "\<forall>a \<in> set (d_activities d'). \<forall>r ch. channel_of a = Some (r, ch) \<longrightarrow> own ch = r"
      using own(2) by (auto simp: new_poll)
    ultimately show ?thesis using once own(1,3) unfolding handing_inv_def
      by (intro conjI exI [of _ own]) (auto simp: new_poll)
  qed
qed

lemma init_handing: "handing_inv init_daemon"
  by (auto simp: handing_inv_def init_daemon_def used_below_def empty_store_def results_of_def given_def owned_def)

lemma reach_handing: "daemon_reach d d' \<Longrightarrow> handing_inv d \<Longrightarrow> handing_inv d'"
  by (induction rule: daemon_reach.induct) (auto intro: daemon_step_handing)

lemma given_distinct:
  assumes "\<And>ch. given ch h \<le> 1"
  shows "distinct (map (\<lambda>(r, ch, res). ch) h)"
  using assms
proof (induction h)
  case (Cons x h)
  obtain r ch res where x: "x = (r, ch, res)" by (cases x)
  have "given ch' h \<le> 1" for ch'
    using Cons.prems [of ch'] by (simp add: given_def split: if_splits)
  then have "distinct (map (\<lambda>(r, ch, res). ch) h)" by (rule Cons.IH)
  moreover have "given ch h = 0" using Cons.prems [of ch] by (simp add: given_def x)
  then have "ch \<notin> (\<lambda>(r, ch, res). ch) ` set h"
    by (auto simp: given_def filter_empty_conv)
  ultimately show ?case by (simp add: x)
qed simp

section \<open>An activity that runs alone\<close>

text \<open>The actions of one activity one after the other, with nobody in between.\<close>

inductive alone :: "store \<Rightarrow> activity \<Rightarrow> store \<Rightarrow> activity \<Rightarrow> handed \<Rightarrow> bool" where
  stop: "alone s a s a []"
| go: "act s a s1 a1 o1 \<Longrightarrow> alone s1 a1 s2 a2 o2 \<Longrightarrow> alone s a s2 a2 (o1 @ o2)"

inductive_cases aloneE: "alone s a s' a' out"

lemma alone_act: "act s a s1 a1 o1 \<Longrightarrow> alone s a s1 a1 o1"
  using alone.go [OF _ alone.stop] by fastforce

lemma alone_iff:
  assumes "a \<noteq> a'"
  shows "alone s a s' a' out \<longleftrightarrow> (\<exists>s1 a1 o1 o2. act s a s1 a1 o1 \<and> alone s1 a1 s' a' o2 \<and> out = o1 @ o2)"
proof
  assume "alone s a s' a' out"
  then show "\<exists>s1 a1 o1 o2. act s a s1 a1 o1 \<and> alone s1 a1 s' a' o2 \<and> out = o1 @ o2"
    by (cases rule: alone.cases) (use assms in blast)+
qed (blast intro: alone.go)

lemma alone_Ended [simp]: "alone s Ended s' a' out \<longleftrightarrow> s' = s \<and> a' = Ended \<and> out = []"
  by (auto simp: act_simps intro: alone.stop elim: aloneE)

lemma alone_Deleting:
  "alone s (Deleting r) s' Ended out \<longleftrightarrow> s' = deleteRequestFromQueue r s \<and> out = []"
  by (cases "RequestsTrack s r")
    (simp_all add: alone_iff act_simps deleteRequestFromQueue_def)

text \<open>A poll, as CheckOcrStatusByID has it.\<close>

lemma alone_Polling:
  "alone s (Polling r) s' Ended out \<longleftrightarrow> s' = fst (CheckOcrStatusByID r s) \<and>
     out = (case RequestsTrack s r of None \<Rightarrow> [] | Some ch \<Rightarrow>
              if chans s ch = [] then [] else [(r, ch, fst (snd (CheckOcrStatusByID r s)))])"
proof (cases "RequestsTrack s r")
  case (Some ch)
  then show ?thesis
    by (cases "chans s ch") (auto simp: alone_iff act_simps CheckOcrStatusByID_def alone_Deleting)
qed (auto simp: alone_iff act_simps CheckOcrStatusByID_def)

text \<open>Registering, up to the go statement, after which it does not come back there.\<close>

lemma alone_rank: "alone s a s' a' out \<Longrightarrow> rank a' \<le> rank a"
  by (induction rule: alone.induct) (auto dest: act_rank)

lemma alone_Starting: "alone s (Starting r ch rt) s' (Starting r ch rt) out \<longleftrightarrow> s' = s \<and> out = []"
proof
  assume "alone s (Starting r ch rt) s' (Starting r ch rt) out"
  then show "s' = s \<and> out = []"
  proof (cases rule: alone.cases)
    case (go s1 a1 o1 o2)
    from go(2) have "rank a1 < rank (Starting r ch rt)" by cases auto
    with alone_rank [OF go(3)] show ?thesis by simp
  qed simp
qed (simp add: alone.stop)

lemma alone_Registering:
  "alone s (Registering r ch rt) s' (Starting r ch rt) out
     \<longleftrightarrow> s' = addNewOcrResultToQueue r ch s \<and> out = []"
  by (auto simp: alone_iff act_simps alone_Starting addNewOcrResultToQueue_def)

section \<open>A request that is polled\<close>

text \<open>Registered, answered, found by a poll and claimed, while its decay goroutine has not started.\<close>

definition sample_result :: OcrResult where
  "sample_result = \<lparr>Text = ''t'', Status = ''done'', ID = ''i''\<rparr>"

definition polled_daemon :: daemon where
  "polled_daemon =
     \<lparr>d_store = \<lparr>RequestsTrack = [''i'' \<mapsto> 0], RequestTrackLength = 1, inFlightGauge = 1, chans = (\<lambda>_. [])\<rparr>,
      d_activities = [Starting ''i'' 0 [], Ended, Deleting ''i''], d_next = 1,
      d_handed = [(''i'', 0, sample_result)]\<rparr>"

lemma daemon_action:
  assumes "daemon_reach d0 d" "i < length (d_activities d)" "act (d_store d) (d_activities d ! i) s' a' out"
    and "d' = d\<lparr>d_store := s', d_activities := (d_activities d)[i := a'], d_handed := d_handed d @ out\<rparr>"
  shows "daemon_reach d0 d'"
  using daemon_reach.onward [OF assms(1) daemon_step.action [OF assms(2,3)]] by (simp add: assms(4))

lemma polled_daemon_reached: "daemon_reach init_daemon polled_daemon"
proof -
  let ?d = "\<lambda>t n g c as h. \<lparr>d_store = \<lparr>RequestsTrack = t, RequestTrackLength = n, inFlightGauge = g,
    chans = (\<lambda>k. if k = 0 then c else [])\<rparr>, d_activities = as, d_next = 1, d_handed = h\<rparr>"
  let ?i = "''i''" and ?r = sample_result
  have s0: "daemon_reach init_daemon (?d Map.empty 0 0 [] [Registering ?i 0 [], Listening ?i 0] [])"
    using daemon_reach.onward [OF daemon_reach.here daemon_step.new_request [of init_daemon ?i "[]"]]
    by (simp add: init_daemon_def empty_store_def)
  have s1: "daemon_reach init_daemon (?d Map.empty 1 0 [] [RegCounted ?i 0 [], Listening ?i 0] [])"
    by (rule daemon_action [OF s0, of 0]) (simp_all add: act_simps)
  have s2: "daemon_reach init_daemon (?d Map.empty 1 1 [] [RegGauged ?i 0 [], Listening ?i 0] [])"
    by (rule daemon_action [OF s1, of 0]) (simp_all add: act_simps)
  have s3: "daemon_reach init_daemon (?d [?i \<mapsto> 0] 1 1 [] [Starting ?i 0 [], Listening ?i 0] [])"
    by (rule daemon_action [OF s2, of 0]) (simp_all add: act_simps)
  have s4: "daemon_reach init_daemon (?d [?i \<mapsto> 0] 1 1 [?r] [Starting ?i 0 [], Ended] [])"
    by (rule daemon_action [OF s3, of 1], simp, simp, rule act.listen [of _ ?i 0 ?r])
      (auto simp: send_result_def sample_result_def)
  have s5: "daemon_reach init_daemon (?d [?i \<mapsto> 0] 1 1 [?r] [Starting ?i 0 [], Ended, Polling ?i] [])"
    using daemon_reach.onward [OF s4 daemon_step.new_poll [of _ ?i]] by simp
  have s6: "daemon_reach init_daemon (?d [?i \<mapsto> 0] 1 1 [?r] [Starting ?i 0 [], Ended, Claiming ?i 0] [])"
    by (rule daemon_action [OF s5, of 2]) (simp_all add: act_simps)
  have s7: "daemon_reach init_daemon (?d [?i \<mapsto> 0] 1 1 [] [Starting ?i 0 [], Ended, Deleting ?i] [(?i, 0, ?r)])"
    by (rule daemon_action [OF s6, of 2], simp, simp, rule act.claim_result [of _ 0 ?r "[]" ?i]) auto
  then show ?thesis by (simp add: polled_daemon_def cong: if_cong)
qed

section \<open>Properties\<close>

text \<open>C4: No request is forgotten: in every state that the handlers and goroutines of deferred requests
  can reach, in any interleaving and with any identifiers, a request in the table has an
  activity that will still remove it; when all activities have ended, the table is empty.\<close>

theorem requests_looked_after:
  assumes "daemon_reach init_daemon d"
  shows "(\<forall>r \<in> dom (RequestsTrack (d_store d)). \<exists>a \<in> set (d_activities d). minds a = Some r)
    \<and> (all_ended d \<longrightarrow> RequestsTrack (d_store d) = Map.empty)"
proof -
  have "looked_after d" by (rule reach_looked_after [OF assms init_looked_after])
  then show ?thesis using ended_empty by (fastforce simp: looked_after_def)
qed

theorem requests_looked_after_witness:
  "\<exists>a \<in> set (d_activities polled_daemon). minds a = Some ''i''"
  using requests_looked_after [OF polled_daemon_reached] by (simp add: polled_daemon_def)



text \<open>C19: A result is handed out at most once, and only to a client that asked for the request it
  belongs to: no two results handed out come from one channel, and each carries the identifier
  it was asked for under, in every interleaving.\<close>

theorem results_handed_once:
  assumes "daemon_reach init_daemon d"
  shows "distinct (map (\<lambda>(r, ch, res). ch) (d_handed d)) \<and> (\<forall>(r, ch, res) \<in> set (d_handed d). ID res = r)"
proof -
  have inv: "handing_inv d" by (rule reach_handing [OF assms init_handing])
  then have "given ch (d_handed d) \<le> 1" for ch
    by (metis add_leD2 handing_inv_def results_of_def)
  then show ?thesis using inv given_distinct by (fastforce simp: handing_inv_def)
qed

theorem results_handed_once_witness:
  "d_handed polled_daemon = [(''i'', 0, sample_result)] \<and> ID sample_result = ''i''"
  using results_handed_once [OF polled_daemon_reached] by (simp add: polled_daemon_def)


end
