(* ===== verification/Ocr_Connections.thy ===== *)
theory Ocr_Connections
  imports Ocr_Client
begin

text \<open>
  The connections of the RPC client. Every call of DecodeImage dials a connection of its own, and the
  only place that closes one is handleRPCResponse, after an answer with the identifier of the
  request has come.
\<close>

section \<open>Calls that leave a connection open\<close>

definition leaves_open :: "amqp_trace \<Rightarrow> amqp_trace \<Rightarrow> bool" where
  "leaves_open tr tr' \<longleftrightarrow> (\<exists>more. tr' = tr @ more \<and> CloseConn \<notin> set more)"

lemma leaves_open_refl [simp]: "leaves_open tr tr"
  by (simp add: leaves_open_def)

lemma leaves_open_trans [trans]: "leaves_open tr tr' \<Longrightarrow> leaves_open tr' tr'' \<Longrightarrow> leaves_open tr tr''"
  by (auto simp: leaves_open_def)

lemma leaves_open_do: "amqp_do br c tr = (tr', e) \<Longrightarrow> c \<noteq> CloseConn \<Longrightarrow> leaves_open tr tr'"
  by (auto simp: amqp_do_def leaves_open_def)

lemma leaves_open_all:
  assumes "amqp_all br cs tr = (tr', e)" "CloseConn \<notin> set cs"
  shows "leaves_open tr tr'"
proof -
  from amqp_all_prefix [OF assms(1)] obtain n where "tr' = tr @ take n cs" by blast
  with assms(2) show ?thesis by (auto simp: leaves_open_def dest: in_set_takeD)
qed

lemma leaves_open_subscribe:
  assumes "subscribeCallbackQueue br rc tag c tr = (tr', q, e)"
  shows "leaves_open tr tr'"
proof -
  have declared: "leaves_open tr (tr @ [QueueDeclare c False True True False a])" for a
    by (simp add: leaves_open_def)
  with assms show ?thesis
    by (auto simp: subscribeCallbackQueue_def amqp_do_def Let_def split: option.splits prod.splits
        dest!: leaves_open_all intro: leaves_open_trans [OF declared])
qed

text \<open>The publication and what follows it: a close exactly for an answer that is waited for.\<close>

lemma client_publish_closes:
  assumes "(s', r', Some (res, status, err), g) = client_publish br peer rc ch q c prio r (st, tr)" "chans st ch = []"
  shows "\<exists>more. snd s' = tr @ more \<and> (CloseConn \<in> set more \<longleftrightarrow> g = NoGoroutine \<and> status = 200)"
proof -
  obtain r1 key where n: "nextPreprocessor r (rc_RoutingKey rc) = (r1, key)" by fastforce
  define pub where "pub = \<lparr>p_ContentType = ''application/json'', p_Body = Some (encode_request r1),
      p_DeliveryMode = Transient, p_Priority = prio, p_ReplyTo = q, p_CorrelationId = c\<rparr>"
  note unfolded = assms(1) [unfolded client_publish_def n prod.case Let_def, folded pub_def]
  show ?thesis
  proof (cases "br_answer br tr (Publish (rc_Exchange rc) key False False pub)")
    case (Some e)
    with unfolded show ?thesis by (auto simp: amqp_do_def confirmDelivery_def split: if_splits)
  next
    case None
    show ?thesis
    proof (cases "Deferred r1")
      case True
      with None unfolded show ?thesis by (auto simp: amqp_do_def confirmDelivery_def split: if_splits)
    next
      case False
      with None unfolded assms(2) show ?thesis
        by (cases "find (\<lambda>d. d_CorrelationId d = c) (peer key pub)")
          (auto simp: amqp_do_def handleRPCResponse_match confirmDelivery_def send_result_chans split: if_splits)
    qed
  qed
qed

section \<open>Properties\<close>

text \<open>C16: A connection for every request. Once the reply address is accepted DecodeImage dials first;
  and of all the calls that follow there is a close exactly if the answer has come while
  DecodeImage waited for it. Whenever the broker refuses a call after the connection is there,
  the image cannot be fetched, the message cannot be published or no answer comes in time, the
  connection of the request is left open, with its consumer, until an answer comes after all.\<close>

theorem connection_closed_by_answer:
  assumes "DecodeImage env br peer rc tag ch r (st, tr) = Ret (s', r', Some (res, status, err), g)"
    and "check_reply_to env r = Inr r1" "chans st ch = []"
  shows "\<exists>more. snd s' = tr @ Dial (rc_AmqpURI rc) # more
    \<and> (CloseConn \<in> set more \<longleftrightarrow> g = NoGoroutine \<and> status = 200)"
proof -
  let ?tr0 = "tr @ [Dial (rc_AmqpURI rc)]" and ?r2 = "set_timeout rc r1"
  have id: "RequestID r1 = RequestID r" using check_reply_to_keeps [OF assms(2)] by auto
  from assms(1,2) obtain u where u: "env_url_parse env (rc_AmqpURI rc) = Inr u"
    by (cases "env_url_parse env (rc_AmqpURI rc)") (auto simp: DecodeImage_def Let_def)
  obtain e1 where d: "amqp_do br (Dial (rc_AmqpURI rc)) tr = (?tr0, e1)" by (simp add: amqp_do_def)
  obtain tr2 e2 where a: "amqp_all br [OpenChannel,
      ExchangeDeclare (rc_Exchange rc) (rc_ExchangeType rc) True False False False] ?tr0 = (tr2, e2)" by fastforce
  obtain tr3 cq e3 where q: "subscribeCallbackQueue br rc tag (RequestID r) tr2 = (tr3, cq, e3)"
    by (metis prod_cases3)
  obtain tr4 e4 where c: "(if rc_Reliable rc then amqp_do br (ConfirmMode False) tr3 else (tr3, None)) = (tr4, e4)"
    by fastforce
  obtain r3 e5 where f: "fetch_image env ?r2 = (r3, e5)" by fastforce
  have 2: "leaves_open ?tr0 tr2" by (rule leaves_open_all [OF a]) simp
  have 3: "leaves_open ?tr0 tr3" using leaves_open_trans [OF 2 leaves_open_subscribe [OF q]] .
  have 4: "leaves_open ?tr0 tr4"
    using 3 c by (auto split: if_splits intro: leaves_open_trans leaves_open_do)
  have stays: ?thesis if "leaves_open ?tr0 (snd s')" "status = 500"
    using that by (auto simp: leaves_open_def)
  consider "e1 \<noteq> None" | "e1 = None" "e2 \<noteq> None" | "e1 = None" "e2 = None" "e3 \<noteq> None"
    | "e1 = None" "e2 = None" "e3 = None" "e4 \<noteq> None"
    | "e1 = None" "e2 = None" "e3 = None" "e4 = None" "e5 \<noteq> None"
    | "e1 = None" "e2 = None" "e3 = None" "e4 = None" "e5 = None" by blast
  then show ?thesis
  proof cases
    case 6
    then have p: "(s', r', Some (res, status, err), g)
        = client_publish br peer rc ch cq (RequestID r) (message_priority rc r1) r3 (st, tr4)"
      using assms(1) by (simp add: DecodeImage_def assms(2) u d a q c f id Let_def)
    from client_publish_closes [OF p assms(3)] 4 show ?thesis by (auto simp: leaves_open_def)
  qed (use assms(1) 2 3 4 in \<open>auto intro!: stays simp: DecodeImage_def assms(2) u d a q c f id
        confirmDelivery_def Let_def split: if_splits\<close>)
qed

theorem connection_closed_by_answer_witness:
  "\<exists>s' r'. DecodeImage sample_env willing_broker (\<lambda>k p. []) DefaultTestConfig ''t'' 0 sample_request (empty_store, [])
      = Ret (s', r', Some (zero_result, 500, Some ''timeout waiting for RPC response''), NoGoroutine)
    \<and> hd (snd s') = Dial (rc_AmqpURI DefaultTestConfig) \<and> CloseConn \<notin> set (tl (snd s'))"
proof -
  let ?peer = "\<lambda>k p. [] :: delivery list"
  have rt: "check_reply_to sample_env sample_request = Inr sample_request"
    by (simp add: check_reply_to_def sample_request_def zero_request_def)
  have img: "fetch_image sample_env (set_timeout DefaultTestConfig sample_request)
      = (set_timeout DefaultTestConfig sample_request, None)"
    by (simp add: fetch_image_def) (simp add: sample_request_def)
  obtain u where "env_url_parse sample_env (rc_AmqpURI DefaultTestConfig) = Inr u"
    by (simp add: sample_env_def)
  from DecodeImage_publishes [OF obliging_willing this rt img, of "[]" ?peer "''t''" 0 empty_store]
  obtain cq tr4 where d: "DecodeImage sample_env willing_broker ?peer DefaultTestConfig ''t'' 0 sample_request (empty_store, [])
      = Ret (client_publish willing_broker ?peer DefaultTestConfig 0 cq (RequestID sample_request)
        (message_priority DefaultTestConfig sample_request) (set_timeout DefaultTestConfig sample_request)
        (empty_store, tr4))" by blast
  obtain s' r' out g where p: "(s', r', out, g) = client_publish willing_broker ?peer DefaultTestConfig 0 cq
      (RequestID sample_request) (message_priority DefaultTestConfig sample_request)
      (set_timeout DefaultTestConfig sample_request) (empty_store, tr4)" by (metis prod_cases4)
  have "\<not> Deferred (set_timeout DefaultTestConfig sample_request)" by (simp add: sample_request_def zero_request_def)
  from client_publish_waits [OF p this _ _ _ refl]
  have out: "out = Some (zero_result, 500, Some ''timeout waiting for RPC response'')" "g = NoGoroutine"
    by (simp_all add: empty_store_def DefaultTestConfig_def willing_broker_def)
  with d p have run: "DecodeImage sample_env willing_broker ?peer DefaultTestConfig ''t'' 0 sample_request (empty_store, [])
      = Ret (s', r', Some (zero_result, 500, Some ''timeout waiting for RPC response''), NoGoroutine)" by simp
  from connection_closed_by_answer [OF run rt] have "\<exists>more. snd s' = [] @ Dial (rc_AmqpURI DefaultTestConfig) # more
      \<and> CloseConn \<notin> set more" by (simp add: empty_store_def)
  with run show ?thesis by (intro exI [of _ s'] exI [of _ r']) auto
qed

end
