(* ===== verification/Ocr_ResManager.thy ===== *)
theory Ocr_ResManager
  imports Ocr_Store Ocr_Config
begin

text \<open>
  ocr_res_manager.go: the decision whether the daemon takes new requests. The statistics of
  the broker are fetched over HTTP (the environment), parsed (a parameter) and decoded into
  package variables, which keep their members when a reply does not mention them. Two
  schedulers read them, one for the memory of the broker's nodes and one for the number of
  pending requests; the loop of SetResManagerState publishes the outcome.
\<close>

section \<open>State\<close>

record OcrQueueManager =
  NumMessages :: uint
  NumConsumers :: uint
  MessageBytes :: uint

record ocrResManager =
  MemLimit :: uint64
  MemUsed :: uint64

text \<open>The package variables, with those of ocr_http_handler.go that the loop sets.\<close>

record resman =
  queueManager :: "OcrQueueManager option"
  resManager :: "ocrResManager list"
  factorForMessageAccept :: uint
  TechnicalErrorResManager :: bool
  ServiceCanAccept :: bool
  AppStop :: bool

definition newOcrQueueManager :: OcrQueueManager where
  "newOcrQueueManager = \<lparr>NumMessages = 0, NumConsumers = 0, MessageBytes = 0\<rparr>"

definition newOcrResManager :: "ocrResManager list" where
  "newOcrResManager = []"

definition init_resman :: resman where
  "init_resman =
     \<lparr>queueManager = None, resManager = [], factorForMessageAccept = 0,
      TechnicalErrorResManager = False, ServiceCanAccept = False, AppStop = False\<rparr>"

definition memoryThreshold :: uint64 where
  "memoryThreshold = 95"

section \<open>Decoding the statistics\<close>

definition queue_fields :: "(string \<times> OcrQueueManager field_dec) list" where
  "queue_fields =
     [(''messages'', at_field dec_word NumMessages (\<lambda>v r. r\<lparr>NumMessages := v\<rparr>)),
      (''consumers'', at_field dec_word NumConsumers (\<lambda>v r. r\<lparr>NumConsumers := v\<rparr>)),
      (''message_bytes'', at_field dec_word MessageBytes (\<lambda>v r. r\<lparr>MessageBytes := v\<rparr>))]"

definition res_fields :: "(string \<times> ocrResManager field_dec) list" where
  "res_fields =
     [(''mem_limit'', at_field dec_word MemLimit (\<lambda>v r. r\<lparr>MemLimit := v\<rparr>)),
      (''mem_used'', at_field dec_word MemUsed (\<lambda>v r. r\<lparr>MemUsed := v\<rparr>))]"

definition decode_queue :: "json \<Rightarrow> OcrQueueManager \<Rightarrow> OcrQueueManager \<times> go_error" where
  "decode_queue j q = decode_struct queue_fields ''ocrworker.OcrQueueManager'' j q"

text \<open>An array goes into the elements the slice has already, then into new ones.\<close>

fun decode_res_elems ::
  "json list \<Rightarrow> ocrResManager list \<Rightarrow> go_error \<Rightarrow> ocrResManager list \<times> go_error" where
  "decode_res_elems [] old e = ([], e)"
| "decode_res_elems (x # xs) old e =
     (let (r, err) = decode_struct res_fields ''ocrworker.ocrResManager'' x
            (case old of [] \<Rightarrow> \<lparr>MemLimit = 0, MemUsed = 0\<rparr> | r0 # _ \<Rightarrow> r0);
          (rs, e') = decode_res_elems xs (tl old) (if e = None then err else e)
      in (r # rs, e'))"

definition decode_res :: "json \<Rightarrow> ocrResManager list \<Rightarrow> ocrResManager list \<times> go_error" where
  "decode_res j old =
     (case j of
        JNull \<Rightarrow> ([], None)
      | JArr xs \<Rightarrow> decode_res_elems xs old None
      | _ \<Rightarrow> (old, Some (mismatch ''[]ocrworker.ocrResManager'')))"

section \<open>The two schedulers\<close>

fun mem_sums :: "ocrResManager list \<Rightarrow> uint64 \<Rightarrow> uint64 \<Rightarrow> uint64 \<times> uint64" where
  "mem_sums [] memTotalInUse memTotalAvailable = (memTotalInUse, memTotalAvailable)"
| "mem_sums (r # rs) memTotalInUse memTotalAvailable =
     mem_sums rs (memTotalInUse + MemUsed r) (memTotalAvailable + MemLimit r)"

definition schedulerByMemoryLoad :: "resman \<Rightarrow> bool" where
  "schedulerByMemoryLoad s =
     (let (memTotalInUse, memTotalAvailable) = mem_sums (resManager s) 0 0 in
      memTotalInUse < memTotalAvailable * memoryThreshold div 100)"

definition schedulerByWorkerNumber :: "resman \<Rightarrow> store \<Rightarrow> bool outcome" where
  "schedulerByWorkerNumber s st =
     (case queueManager s of
        None \<Rightarrow> Panic ''runtime error: invalid memory address or nil pointer dereference''
      | Some q \<Rightarrow> Ret (getQueueLen st < NumConsumers q * factorForMessageAccept s))"

section \<open>CheckForAcceptRequest\<close>

text \<open>
  The result is the changed package variables and the answer. json.Unmarshal refuses a nil
  target with an error; url2bytes gives a body whenever it gives no error.
\<close>

definition CheckForAcceptRequest ::
  "os_env \<Rightarrow> (bytes \<Rightarrow> body) \<Rightarrow> string \<Rightarrow> string \<Rightarrow> store \<Rightarrow> resman \<Rightarrow> resman \<times> bool" where
  "CheckForAcceptRequest env parse urlQueue urlStat st s0 =
     (let s = s0\<lparr>TechnicalErrorResManager := False\<rparr>;
          fail = (\<lambda>s. (s\<lparr>TechnicalErrorResManager := True\<rparr>, False)) in
      case (url2bytes env urlQueue, url2bytes env urlStat) of
        ((Some jsonQueueStat, None), (Some jsonResStat, None)) \<Rightarrow>
          (case queueManager s of
             None \<Rightarrow> fail s
           | Some q \<Rightarrow>
               (case unmarshal decode_queue (parse jsonQueueStat) q of
                  (q', Some e) \<Rightarrow> fail (s\<lparr>queueManager := Some q'\<rparr>)
                | (q', None) \<Rightarrow>
                    (let s1 = s\<lparr>queueManager := Some q'\<rparr> in
                     case unmarshal decode_res (parse jsonResStat) (resManager s1) of
                       (rs, Some e) \<Rightarrow> fail (s1\<lparr>resManager := rs\<rparr>)
                     | (rs, None) \<Rightarrow>
                         (let s2 = s1\<lparr>resManager := rs\<rparr> in
                          if NumConsumers q' = 0 then fail s2
                          else if schedulerByWorkerNumber s2 st = Ret True \<and> schedulerByMemoryLoad s2
                          then (s2\<lparr>TechnicalErrorResManager := False\<rparr>, True)
                          else (s2, False)))))
      | _ \<Rightarrow> fail s)"

section \<open>The loop of SetResManagerState\<close>

record loop_state =
  lp_globals :: resman
  boolCurValue :: bool
  boolOldValue :: bool

text \<open>What one turn of the loop meets: a pending stop signal, the environment, the table.\<close>

record loop_in =
  in_stop :: bool
  in_env :: os_env
  in_store :: store

definition SetResManagerState_init :: "RabbitConfig \<Rightarrow> resman \<Rightarrow> loop_state" where
  "SetResManagerState_init cfg s =
     \<lparr>lp_globals = s\<lparr>resManager := newOcrResManager, queueManager := Some newOcrQueueManager,
        factorForMessageAccept := rc_FactorForMessageAccept cfg\<rparr>,
      boolCurValue = False, boolOldValue = True\<rparr>"

definition urlQueue_of :: "RabbitConfig \<Rightarrow> string" where
  "urlQueue_of cfg = rc_AmqpAPIURI cfg @ rc_APIPathQueue cfg @ rc_APIQueueName cfg"

definition urlStat_of :: "RabbitConfig \<Rightarrow> string" where
  "urlStat_of cfg = rc_AmqpAPIURI cfg @ rc_APIPathStats cfg"

text \<open>One turn: the new state, and whether the loop has ended.\<close>

definition SetResManagerState_turn ::
  "(bytes \<Rightarrow> body) \<Rightarrow> RabbitConfig \<Rightarrow> loop_in \<Rightarrow> loop_state \<Rightarrow> loop_state \<times> bool" where
  "SetResManagerState_turn parse cfg x l =
     (let s = lp_globals l in
      if AppStop s then (l, True)
      else if in_stop x then (l\<lparr>lp_globals := s\<lparr>ServiceCanAccept := False, AppStop := True\<rparr>\<rparr>, True)
      else
        (let (s', v) = CheckForAcceptRequest (in_env x) parse (urlQueue_of cfg) (urlStat_of cfg)
               (in_store x) s in
         (l\<lparr>lp_globals := s'\<lparr>ServiceCanAccept := v\<rparr>,
            boolOldValue := boolCurValue l, boolCurValue := v\<rparr>, False)))"

fun SetResManagerState_loop ::
  "(bytes \<Rightarrow> body) \<Rightarrow> RabbitConfig \<Rightarrow> loop_in list \<Rightarrow> loop_state \<Rightarrow> loop_state \<times> bool" where
  "SetResManagerState_loop parse cfg [] l = (l, False)"
| "SetResManagerState_loop parse cfg (x # xs) l =
     (case SetResManagerState_turn parse cfg x l of
        (l', True) \<Rightarrow> (l', True)
      | (l', False) \<Rightarrow> SetResManagerState_loop parse cfg xs l')"

definition SetResManagerState ::
  "(bytes \<Rightarrow> body) \<Rightarrow> RabbitConfig \<Rightarrow> loop_in list \<Rightarrow> resman \<Rightarrow> loop_state \<times> bool" where
  "SetResManagerState parse cfg xs s = SetResManagerState_loop parse cfg xs (SetResManagerState_init cfg s)"

section \<open>Facts about the schedulers\<close>

definition total_used :: "ocrResManager list \<Rightarrow> nat" where
  "total_used rs = sum_list (map (\<lambda>r. unat (MemUsed r)) rs)"

definition total_limit :: "ocrResManager list \<Rightarrow> nat" where
  "total_limit rs = sum_list (map (\<lambda>r. unat (MemLimit r)) rs)"

lemma mem_sums_eq:
  "mem_sums rs a b = (a + of_nat (total_used rs), b + of_nat (total_limit rs))"
  by (induction rs arbitrary: a b) (simp_all add: total_used_def total_limit_def add.assoc)

lemma memory_scheduler_exact:
  assumes "total_used (resManager s) < 2 ^ 64" "95 * total_limit (resManager s) < 2 ^ 64"
  shows "schedulerByMemoryLoad s \<longleftrightarrow> 100 * (total_used (resManager s) + 1) \<le> 95 * total_limit (resManager s)"
proof -
  let ?u = "total_used (resManager s)" and ?l = "total_limit (resManager s)"
  have "(of_nat ?l :: uint64) * 95 = of_nat (?l * 95)" by simp
  then have "unat ((of_nat ?l :: uint64) * 95) = ?l * 95"
    using assms(2) by (simp only: unat_of_nat take_bit_eq_mod) (simp add: mult.commute)
  moreover have "unat (of_nat ?u :: uint64) = ?u"
    using assms(1) by (simp add: unat_of_nat take_bit_eq_mod)
  ultimately have "schedulerByMemoryLoad s \<longleftrightarrow> ?u < ?l * 95 div 100"
    by (simp add: schedulerByMemoryLoad_def mem_sums_eq memoryThreshold_def word_less_nat_alt unat_div)
  moreover have "u < x div 100 \<longleftrightarrow> 100 * (u + 1) \<le> x" for u x :: nat
    using less_eq_div_iff_mult_less_eq [of 100 "Suc u" x] by (auto simp: Suc_le_eq)
  ultimately show ?thesis by (simp only: mult.commute)
qed

lemma worker_scheduler_exact:
  assumes "queueManager s = Some q" "store_inv st" "card (dom (RequestsTrack st)) < 2 ^ 32"
    and "unat (NumConsumers q) * unat (factorForMessageAccept s) < 2 ^ 64"
  shows "schedulerByWorkerNumber s st
    = Ret (card (dom (RequestsTrack st)) < unat (NumConsumers q) * unat (factorForMessageAccept s))"
  using assms getQueueLen_card [OF assms(2,3)]
  by (simp add: schedulerByWorkerNumber_def word_less_nat_alt unat_word_ariths)

section \<open>Facts about CheckForAcceptRequest\<close>

lemma check_frame:
  assumes "CheckForAcceptRequest env parse uq us st s = (s', ok)"
  shows "factorForMessageAccept s' = factorForMessageAccept s" "ServiceCanAccept s' = ServiceCanAccept s"
    "AppStop s' = AppStop s" "queueManager s \<noteq> None \<Longrightarrow> queueManager s' \<noteq> None"
  using assms by (auto simp: CheckForAcceptRequest_def Let_def split: option.splits prod.splits if_splits)

text \<open>The answer is yes exactly when there was no technical error and both schedulers agree.\<close>

lemma check_iff:
  assumes "CheckForAcceptRequest env parse uq us st s = (s', ok)"
  shows "ok \<longleftrightarrow> \<not> TechnicalErrorResManager s' \<and> schedulerByWorkerNumber s' st = Ret True
    \<and> schedulerByMemoryLoad s'"
  using assms
  by (auto simp: CheckForAcceptRequest_def Let_def schedulerByWorkerNumber_def schedulerByMemoryLoad_def
      split: option.splits prod.splits if_splits)

lemma check_no_consumers:
  assumes "CheckForAcceptRequest env parse uq us st s = (s', ok)" "\<not> TechnicalErrorResManager s'"
  shows "\<exists>q. queueManager s' = Some q \<and> NumConsumers q \<noteq> 0"
  using assms by (auto simp: CheckForAcceptRequest_def Let_def split: option.splits prod.splits if_splits)

text \<open>A reply without any of the known members leaves the old statistics in place.\<close>

lemma decode_members_unknown:
  "\<forall>(k, v) \<in> set ms. field_of tab k = None \<Longrightarrow> decode_members tab ms r e = (r, e)"
  by (induction ms) auto

lemma check_stale_queue:
  assumes "url2bytes env uq = (Some b, None)" "parse b = Some (JObj ms)"
    and "\<forall>(k, v) \<in> set ms. field_of queue_fields k = None"
    and "queueManager s = Some q"
    and "CheckForAcceptRequest env parse uq us st s = (s', ok)"
  shows "queueManager s' = Some q"
proof -
  have "decode_queue (JObj ms) q = (q, None)"
    using assms(3) by (simp add: decode_queue_def decode_struct_def decode_members_unknown)
  with assms show ?thesis
    by (auto simp: CheckForAcceptRequest_def Let_def split: option.splits prod.splits if_splits)
qed

section \<open>Facts about the loop\<close>

text \<open>While the loop runs the queue statistics exist, and a stopped service accepts nothing.\<close>

definition loop_inv :: "loop_state \<Rightarrow> bool" where
  "loop_inv l \<longleftrightarrow> queueManager (lp_globals l) \<noteq> None
     \<and> (AppStop (lp_globals l) \<longrightarrow> \<not> ServiceCanAccept (lp_globals l))"

lemma loop_inv_init: "\<not> AppStop s \<Longrightarrow> loop_inv (SetResManagerState_init cfg s)"
  by (simp add: loop_inv_def SetResManagerState_init_def)

lemma turn_cases:
  assumes "SetResManagerState_turn parse cfg x l = (l', fin)"
  obtains (stopped) "AppStop (lp_globals l)" "l' = l" "fin"
  | (stop) "\<not> AppStop (lp_globals l)" "in_stop x" "fin"
      "lp_globals l' = (lp_globals l)\<lparr>ServiceCanAccept := False, AppStop := True\<rparr>"
  | (check) s' v where "\<not> AppStop (lp_globals l)" "\<not> in_stop x" "\<not> fin"
      "CheckForAcceptRequest (in_env x) parse (urlQueue_of cfg) (urlStat_of cfg) (in_store x)
         (lp_globals l) = (s', v)"
      "lp_globals l' = s'\<lparr>ServiceCanAccept := v\<rparr>"
  using assms by (auto simp: SetResManagerState_turn_def Let_def split: if_splits prod.splits)

lemma loop_inv_turn:
  assumes "loop_inv l" "SetResManagerState_turn parse cfg x l = (l', fin)"
  shows "loop_inv l'" "fin \<longrightarrow> AppStop (lp_globals l')" "\<not> fin \<longrightarrow> \<not> AppStop (lp_globals l')"
    "in_stop x \<longrightarrow> fin"
  using assms(2)
  by (cases rule: turn_cases; use assms(1) in \<open>auto simp: loop_inv_def dest: check_frame\<close>)+

lemma loop_inv_loop:
  assumes "loop_inv l" "SetResManagerState_loop parse cfg xs l = (l', fin)"
  shows "loop_inv l' \<and> (fin \<longrightarrow> AppStop (lp_globals l')) \<and> ((\<exists>x \<in> set xs. in_stop x) \<longrightarrow> fin)"
  using assms
proof (induction xs arbitrary: l)
  case (Cons x xs)
  obtain l1 f where t: "SetResManagerState_turn parse cfg x l = (l1, f)" by fastforce
  note inv = loop_inv_turn [OF Cons.prems(1) t]
  show ?case
  proof (cases f)
    case True
    with Cons.prems(2) t inv show ?thesis by auto
  next
    case False
    with Cons.prems(2) t have "SetResManagerState_loop parse cfg xs l1 = (l', fin)" by simp
    from Cons.IH [OF inv(1) this] inv(4) False show ?thesis by auto
  qed
qed simp

text \<open>What the loop has published last is what the last check said.\<close>

lemma loop_snoc_check:
  assumes "SetResManagerState_loop parse cfg xs l = (l1, False)"
    and "SetResManagerState_turn parse cfg x l1 = (l', False)"
  shows "SetResManagerState_loop parse cfg (xs @ [x]) l = (l', False)"
  using assms by (induction xs arbitrary: l) (auto split: prod.splits bool.splits)

section \<open>Properties\<close>

text \<open>C20: The daemon takes new requests exactly when the broker could be asked without an error, fewer
  requests are pending than the consumers of the queue times the factor, and the nodes use
  less than 95 per cent of their memory, as long as the sums and the product stay in 64 bits.\<close>

theorem acceptance_exact:
  assumes "CheckForAcceptRequest env parse uq us st s = (s', ok)" "queueManager s' = Some q"
    and "store_inv st" "card (dom (RequestsTrack st)) < 2 ^ 32"
    and "unat (NumConsumers q) * unat (factorForMessageAccept s') < 2 ^ 64"
    and "total_used (resManager s') < 2 ^ 64" "95 * total_limit (resManager s') < 2 ^ 64"
  shows "ok \<longleftrightarrow> \<not> TechnicalErrorResManager s'
    \<and> card (dom (RequestsTrack st)) < unat (NumConsumers q) * unat (factorForMessageAccept s')
    \<and> 100 * (total_used (resManager s') + 1) \<le> 95 * total_limit (resManager s')"
  using check_iff [OF assms(1)] worker_scheduler_exact [OF assms(2,3,4,5)] memory_scheduler_exact [OF assms(6,7)]
  by simp

text \<open>A broker that reports two consumers and one node with half its memory in use.\<close>

definition sample_stats_env :: os_env where
  "sample_stats_env = sample_env\<lparr>env_http := (\<lambda>u. if u = ''queue'' then HttpOk 200 [1] else HttpOk 200 [2])\<rparr>"

definition sample_parse :: "bytes \<Rightarrow> body" where
  "sample_parse b =
     (if b = [1] then Some (JObj [(''messages'', JInt 5), (''consumers'', JInt 2)])
      else Some (JArr [JObj [(''mem_limit'', JInt 1000), (''mem_used'', JInt 500)]]))"

lemma sample_check:
  "CheckForAcceptRequest sample_stats_env sample_parse ''queue'' ''nodes'' empty_store
      (init_resman\<lparr>queueManager := Some newOcrQueueManager, factorForMessageAccept := 2\<rparr>)
   = (init_resman\<lparr>queueManager := Some \<lparr>NumMessages = 5, NumConsumers = 2, MessageBytes = 0\<rparr>,
        factorForMessageAccept := 2, resManager := [\<lparr>MemLimit = 1000, MemUsed = 500\<rparr>]\<rparr>, True)"
  by (simp add: CheckForAcceptRequest_def sample_stats_env_def sample_parse_def url2bytes_def init_resman_def
      newOcrQueueManager_def decode_queue_def decode_res_def decode_struct_def queue_fields_def res_fields_def
      field_of_def at_field_def schedulerByWorkerNumber_def schedulerByMemoryLoad_def memoryThreshold_def
      getQueueLen_def empty_store_def)

theorem acceptance_exact_witness:
  "100 * (total_used [\<lparr>MemLimit = 1000, MemUsed = 500\<rparr>] + 1) \<le> 95 * total_limit [\<lparr>MemLimit = 1000, MemUsed = 500\<rparr>]
    \<and> card (dom (RequestsTrack empty_store)) < unat (2 :: uint) * unat (2 :: uint)"
  using acceptance_exact [OF sample_check, of "\<lparr>NumMessages = 5, NumConsumers = 2, MessageBytes = 0\<rparr>"]
  by (simp add: total_used_def total_limit_def store_inv_empty)
    (simp add: empty_store_def)

text \<open>A stop signal is final: once the loop has met it, the service accepts nothing, the loop has
  ended, and running it again changes nothing; the queue statistics that the handlers read
  exist from the first turn on.\<close>

lemma stop_is_final:
  assumes "\<not> AppStop s" "SetResManagerState parse cfg xs s = (l, fin)" "\<exists>x \<in> set xs. in_stop x"
  shows "fin \<and> AppStop (lp_globals l) \<and> \<not> ServiceCanAccept (lp_globals l) \<and> queueManager (lp_globals l) \<noteq> None
    \<and> SetResManagerState_loop parse cfg ys l = (l, ys \<noteq> [])"
proof -
  have "SetResManagerState_loop parse cfg xs (SetResManagerState_init cfg s) = (l, fin)"
    using assms(2) by (simp add: SetResManagerState_def)
  from loop_inv_loop [OF loop_inv_init [OF assms(1)] this] assms(3)
  have "loop_inv l \<and> AppStop (lp_globals l) \<and> fin" by blast
  then show ?thesis
    by (cases ys) (auto simp: loop_inv_def SetResManagerState_turn_def)
qed

text \<open>A reply of the broker's API that does not mention the members of a queue leaves the old
  statistics in place without an error: the decision is then made on stale numbers.\<close>

lemma unknown_reply_keeps_statistics:
  assumes "url2bytes env uq = (Some b, None)" "parse b = Some (JObj ms)"
    and "list_all (\<lambda>(k, v). field_of queue_fields k = None) ms" "queueManager s = Some q"
    and "CheckForAcceptRequest env parse uq us st s = (s', ok)"
  shows "queueManager s' = Some q"
  using check_stale_queue [OF assms(1,2) _ assms(4,5)] assms(3) by (simp add: list_all_iff)

end
