(* ===== verification/Ocr_Http.thy ===== *)
theory Ocr_Http
  imports Ocr_ResManager Ocr_Client Ocr_Engine
begin

text \<open>
  ocr_http_handler.go, ocr_http_status_handler.go, ocr_http_multipart_handler.go and the
  shutdown of cli-httpd: the HTTP side of the daemon. A handler maps a request to a response; a handler that never answers has the
  response None, and a panic is a Panic (net/http recovers it and drops the connection).
  The K-sortable identifier that the handler draws is an argument, as are the parser of
  media types and package fmt's rendering of a format without operands.
\<close>

section \<open>Responses\<close>

datatype content = PlainText string | JsonText json

record http_response =
  hs_status :: int
  hs_content :: content

text \<open>http.Error ends the message with a newline.\<close>

definition http_Error :: "string \<Rightarrow> int \<Rightarrow> http_response" where
  "http_Error msg code = \<lparr>hs_status = code, hs_content = PlainText (msg @ [CHR 0x0A])\<rparr>"

definition write_json :: "OcrResult \<Rightarrow> http_response" where
  "write_json r = \<lparr>hs_status = 200, hs_content = JsonText (encode_result r)\<rparr>"

text \<open>The state the handlers work on: the machine, the table of requests, the broker.\<close>

type_synonym daemon_state = "world \<times> store \<times> amqp_trace"

section \<open>HandleOcrRequest\<close>

text \<open>The surroundings of a request: environment, broker, other side, configuration.\<close>

record setting =
  st_env :: os_env
  st_broker :: broker
  st_peer :: "string \<Rightarrow> publishing \<Rightarrow> delivery list"
  st_config :: RabbitConfig
  st_tag :: string

text \<open>An error hides the result it came with.\<close>

definition handled :: "OcrResult \<times> int \<times> go_error \<Rightarrow> OcrResult \<times> int \<times> go_error" where
  "handled x =
     (case x of (ocrResult, httpStatus, err) \<Rightarrow>
        if err \<noteq> None then (zero_result, httpStatus, err) else (ocrResult, httpStatus, None))"

definition HandleOcrRequest ::
  "setting \<Rightarrow> nat \<Rightarrow> OcrRequest \<Rightarrow> daemon_state
     \<Rightarrow> (daemon_state \<times> (OcrResult \<times> int \<times> go_error) option \<times> goroutine) outcome" where
  "HandleOcrRequest S ch r s =
     (case s of (w, st, tr) \<Rightarrow>
      if InplaceDecode r then
        bind_outcome
          (ProcessRequest (NewOcrEngine (EngineType r)) (st_env S) r zero_worker_config w)
          (\<lambda>(w', _, ocrResult, err). Ret ((w', st, tr),
             Some (case err of
                     Some e \<Rightarrow> (zero_result, 500, Some e)
                   | None \<Rightarrow> (ocrResult, 200, None)), NoGoroutine))
      else
        bind_outcome
          (DecodeImage (st_env S) (st_broker S) (st_peer S) (st_config S) (st_tag S) ch r (st, tr))
          (\<lambda>((st', tr'), r', out, g). Ret ((w, st', tr'),
             map_option handled out, g)))"

section \<open>The handler of ocr requests\<close>

text \<open>
  The gate: the conditions are evaluated from left to right, so that the statistics of the
  queue are read only after the first test.
\<close>

definition refused :: "resman \<Rightarrow> store \<Rightarrow> string \<Rightarrow> http_response option outcome" where
  "refused g st requestID =
     (let no_resources = Some (http_Error
            (''no resources available to process the request. RequestID '' @ requestID) 503) in
      if \<not> ServiceCanAccept g \<and> \<not> AppStop g then Ret no_resources
      else bind_outcome (schedulerByWorkerNumber g st) (\<lambda>ok. Ret (
        if \<not> ok then no_resources
        else if \<not> ServiceCanAccept g \<and> AppStop g then
          Some (http_Error (''service is going down. RequestID '' @ requestID) 503)
        else None)))"

text \<open>The answer: without an error the status is 200, whatever the second component says.\<close>

definition answer :: "OcrResult \<times> int \<times> go_error \<Rightarrow> http_response" where
  "answer x =
     (case x of (ocrResult, httpStatus, err) \<Rightarrow>
        case err of
          Some e \<Rightarrow> http_Error (''Unable to perform OCR decode. Error: '' @ e) httpStatus
        | None \<Rightarrow> write_json ocrResult)"

definition ServeHTTP ::
  "setting \<Rightarrow> resman \<Rightarrow> string \<Rightarrow> nat \<Rightarrow> body \<Rightarrow> daemon_state
     \<Rightarrow> (daemon_state \<times> http_response option \<times> goroutine) outcome" where
  "ServeHTTP S g requestID ch reqBody s =
     (case s of (w, st, tr) \<Rightarrow>
      bind_outcome (refused g st requestID) (\<lambda>refusal.
      case refusal of
        Some resp \<Rightarrow> Ret (s, Some resp, NoGoroutine)
      | None \<Rightarrow>
          (case unmarshal decode_request reqBody (zero_request\<lparr>RequestID := requestID\<rparr>) of
             (_, Some e) \<Rightarrow>
               Ret (s, Some (http_Error
                 (''Unable to unmarshal json, malformed request. RequestID '' @ requestID) 400), NoGoroutine)
           | (ocrRequest, None) \<Rightarrow>
               bind_outcome (HandleOcrRequest S ch ocrRequest s)
                 (\<lambda>(s', out, gr). Ret (s', map_option answer out, gr)))))"

section \<open>The status handler\<close>

text \<open>The identifier asked for comes in the member img_url.\<close>

definition status_ServeHTTP :: "body \<Rightarrow> store \<Rightarrow> store \<times> http_response" where
  "status_ServeHTTP reqBody st =
     (case unmarshal decode_request reqBody zero_request of
        (_, Some e) \<Rightarrow> (st, http_Error ''unable to unmarshal json'' 400)
      | (ocrRequest, None) \<Rightarrow>
          (case CheckOcrStatusByID (ImgUrl ocrRequest) st of
             (st', ocrResult, True) \<Rightarrow> (st', write_json ocrResult)
           | (st', ocrResult, False) \<Rightarrow>
               (st', write_json (ocrResult\<lparr>Text := [], ID := ImgUrl ocrRequest, Status := ''not found''\<rparr>))))"

section \<open>The multipart handler\<close>

text \<open>What NextPart gives before the end: a part with its header, content and read error, or an error.\<close>

datatype part_event = Part "string list" bytes go_error | NoPart string

record upload =
  up_method :: string
  up_content_type :: string
  up_parts :: "part_event list"

fun extract_loop ::
  "(bytes \<Rightarrow> body) \<Rightarrow> (string \<Rightarrow> string) \<Rightarrow> part_event list \<Rightarrow> OcrRequest \<Rightarrow> (OcrRequest \<times> go_error) outcome" where
  "extract_loop parse media [] ocrReq = Ret (ocrReq, Some ''didn't expect to get this far'')"
| "extract_loop parse media (NoPart e # ps) ocrReq =
     Panic ''runtime error: invalid memory address or nil pointer dereference''"
| "extract_loop parse media (Part headers partContents err # ps) ocrReq =
     (case headers of
        [] \<Rightarrow> Panic ''runtime error: index out of range [0] with length 0''
      | contentTypeOuter # _ \<Rightarrow>
          (let contentType = media contentTypeOuter in
           if contentType = ''application/json'' then
             (case unmarshal decode_request (parse partContents) ocrReq of
                (r, Some e) \<Rightarrow> Ret (r, Some (''unable to unmarshal json: '' @ e))
              | (r, None) \<Rightarrow> extract_loop parse media ps r)
           else if \<not> has_prefix contentType ''image'' then
             Ret (ocrReq, Some ''expected content-type: image/*'')
           else
             (case err of
                Some e \<Rightarrow> Ret (ocrReq, Some (''failed to read mime part: '' @ e))
              | None \<Rightarrow> Ret (ocrReq\<lparr>ImgBytes := Some partContents\<rparr>, None))))"

definition extractParts ::
  "(bytes \<Rightarrow> body) \<Rightarrow> (string \<Rightarrow> string) \<Rightarrow> upload \<Rightarrow> (OcrRequest \<times> go_error) outcome" where
  "extractParts parse media req =
     (if up_method req = ''POST'' then
        if \<not> has_prefix (up_content_type req) ''multipart/related''
        then Ret (zero_request, Some ''expected multipart related'')
        else extract_loop parse media (up_parts req) zero_request
      else Ret (zero_request, Some ''this endpoint only accepts POST requests''))"

definition multipart_ServeHTTP ::
  "setting \<Rightarrow> (bytes \<Rightarrow> body) \<Rightarrow> (string \<Rightarrow> string) \<Rightarrow> (string \<Rightarrow> string) \<Rightarrow> nat \<Rightarrow> upload \<Rightarrow> daemon_state
     \<Rightarrow> (daemon_state \<times> http_response option \<times> goroutine) outcome" where
  "multipart_ServeHTTP S parse media fprintf ch req s =
     bind_outcome (extractParts parse media req)
       (\<lambda>(ocrRequest, err). case err of
          Some e \<Rightarrow>
            Ret (s, Some (http_Error (''Error extracting multipart/related parts: '' @ e) 500), NoGoroutine)
        | None \<Rightarrow>
            bind_outcome (HandleOcrRequest S ch ocrRequest s)
              (\<lambda>(s', out, gr). Ret (s',
                 map_option (\<lambda>(ocrResult, httpStatus, err).
                   case err of
                     Some e \<Rightarrow> http_Error ''Unable to perform OCR decode.'' httpStatus
                   | None \<Rightarrow> \<lparr>hs_status = 200, hs_content = PlainText (fprintf (Text ocrResult))\<rparr>) out, gr)))"

section \<open>The end of the daemon\<close>

text \<open>
  The signal handler looks at the counter once a minute and ends the process when it is
  zero: the index of the look that ends it, over the tables it meets.
\<close>

fun shutdown_loop :: "store list \<Rightarrow> nat option" where
  "shutdown_loop [] = None"
| "shutdown_loop (s # ss) =
     (if RequestTrackLength s = 0 then Some 0 else map_option Suc (shutdown_loop ss))"

section \<open>Facts about the gate\<close>

text \<open>What the loop of the resource manager maintains, as the handlers see it.\<close>

definition gate_inv :: "resman \<Rightarrow> bool" where
  "gate_inv g \<longleftrightarrow> (ServiceCanAccept g \<or> AppStop g \<longrightarrow> queueManager g \<noteq> None)
     \<and> (AppStop g \<longrightarrow> \<not> ServiceCanAccept g)"

lemma gate_inv_init: "gate_inv init_resman"
  by (simp add: gate_inv_def init_resman_def)

lemma loop_inv_gate: "loop_inv l \<Longrightarrow> gate_inv (lp_globals l)"
  by (simp add: loop_inv_def gate_inv_def)

definition accepts :: "resman \<Rightarrow> store \<Rightarrow> bool" where
  "accepts g st \<longleftrightarrow> ServiceCanAccept g \<and> schedulerByWorkerNumber g st = Ret True"

lemma refused_iff:
  assumes "gate_inv g"
  shows "\<exists>resp. refused g st requestID = Ret resp \<and> (resp = None \<longleftrightarrow> accepts g st)
    \<and> (\<forall>x. resp = Some x \<longrightarrow> hs_status x = 503)"
proof (cases "ServiceCanAccept g \<or> AppStop g")
  case True
  with assms obtain q where q: "queueManager g = Some q" by (auto simp: gate_inv_def)
  from True assms show ?thesis
    by (auto simp: refused_def accepts_def schedulerByWorkerNumber_def q http_Error_def gate_inv_def)
next
  case False
  then show ?thesis by (simp add: refused_def accepts_def http_Error_def Let_def)
qed

lemma refused_accepts: "gate_inv g \<Longrightarrow> accepts g st \<Longrightarrow> refused g st requestID = Ret None"
  using refused_iff [of g st requestID] by auto

lemma serve_refuses:
  assumes "gate_inv g" "\<not> accepts g st"
  shows "\<exists>resp. ServeHTTP S g requestID ch b (w, st, tr) = Ret ((w, st, tr), Some resp, NoGoroutine)
    \<and> hs_status resp = 503"
proof -
  from refused_iff [OF assms(1), of st requestID] assms(2) obtain x where
    "refused g st requestID = Ret (Some x)" "hs_status x = 503" by (metis not_None_eq)
  then show ?thesis by (simp add: ServeHTTP_def)
qed

lemma serve_accepted:
  assumes "gate_inv g" "accepts g st"
    and "unmarshal decode_request b (zero_request\<lparr>RequestID := requestID\<rparr>) = (r, None)"
  shows "ServeHTTP S g requestID ch b (w, st, tr) =
    bind_outcome (HandleOcrRequest S ch r (w, st, tr))
      (\<lambda>(s', out, gr). Ret (s', map_option answer out, gr))"
  using assms(3) refused_accepts [OF assms(1,2)] by (simp add: ServeHTTP_def)

section \<open>Facts about uploads\<close>

text \<open>Uploads whose parts all have a content type and can all be read.\<close>

definition sound_part :: "part_event \<Rightarrow> bool" where
  "sound_part p \<longleftrightarrow> (\<exists>h hs c e. p = Part (h # hs) c e)"

lemma extract_loop_total:
  "\<forall>p \<in> set ps. sound_part p \<Longrightarrow> \<not> panics (extract_loop parse media ps r)"
proof (induction ps arbitrary: r)
  case (Cons p ps)
  then obtain h hs c e where "p = Part (h # hs) c e" by (auto simp: sound_part_def)
  with Cons show ?case by (auto simp: Let_def split: prod.splits option.splits)
qed simp

lemma extract_loop_image:
  assumes "extract_loop parse media ps r = Ret (r', None)"
  shows "\<exists>h hs c. Part (h # hs) c None \<in> set ps \<and> has_prefix (media h) ''image'' \<and> ImgBytes r' = Some c"
  using assms
proof (induction ps arbitrary: r)
  case (Cons p ps)
  show ?case
  proof (cases p)
    case (Part headers c err)
    with Cons.prems obtain h hs where h: "headers = h # hs" by (cases headers) auto
    show ?thesis
    proof (cases "media h = ''application/json''")
      case True
      with Cons.prems Part h obtain r1 where "extract_loop parse media ps r1 = Ret (r', None)"
        by (auto split: prod.splits option.splits)
      from Cons.IH [OF this] show ?thesis by auto
    next
      case False
      with Cons.prems Part h have "has_prefix (media h) ''image'' \<and> err = None \<and> r' = r\<lparr>ImgBytes := Some c\<rparr>"
        by (auto simp: Let_def split: if_splits option.splits)
      then have "Part (h # hs) c None \<in> set (p # ps)" "has_prefix (media h) ''image''" "ImgBytes r' = Some c"
        using Part h by simp_all
      then show ?thesis by blast
    qed
  qed (use Cons.prems in simp)
qed simp

section \<open>Facts about polling\<close>

text \<open>The body of a poll for an identifier.\<close>

definition poll_body :: "string \<Rightarrow> body" where
  "poll_body i = Some (JObj [(''img_url'', JStr i)])"

lemma poll_body_decodes: "unmarshal decode_request (poll_body i) zero_request = (zero_request\<lparr>ImgUrl := i\<rparr>, None)"
  by (simp add: poll_body_def decode_request_def decode_struct_def request_field_of at_field_def)

lemma status_poll:
  "status_ServeHTTP (poll_body i) st =
     (case CheckOcrStatusByID i st of
        (st', r, True) \<Rightarrow> (st', write_json r)
      | (st', r, False) \<Rightarrow> (st', write_json (r\<lparr>Text := [], ID := i, Status := ''not found''\<rparr>)))"
  unfolding status_ServeHTTP_def poll_body_decodes by simp

lemma shutdown_loop_Some:
  "shutdown_loop ss = Some n \<longleftrightarrow> n < length ss \<and> RequestTrackLength (ss ! n) = 0
     \<and> (\<forall>m < n. RequestTrackLength (ss ! m) \<noteq> 0)"
proof (induction ss arbitrary: n)
  case (Cons s ss)
  show ?case
  proof (cases n)
    case (Suc m)
    with Cons [of m] show ?thesis by (auto simp: less_Suc_eq_0_disj)
  qed auto
qed simp

section \<open>What the properties share\<close>

lemma DecodeImage_table:
  assumes "DecodeImage env br peer rc tag ch r (st, tr) = Ret (s', r', out, g)" "g \<noteq> NoGoroutine"
  shows "fst s' = addNewOcrResultToQueue (RequestID r) ch st"
  using assms(1)
proof (cases rule: DecodeImageE)
  case (sent r1 r3 cq tr4)
  have "RequestID r3 = RequestID r"
    using check_reply_to_keeps [OF sent(1)] fetch_image_keeps(1) [OF sent(2)] by auto
  with client_publish_table [OF sent(4)] assms(2) show ?thesis by auto
qed (use assms(2) in simp_all)

lemma status_processing:
  assumes "RequestsTrack st i = Some ch" "chans st ch = []"
  shows "status_ServeHTTP (poll_body i) st = (st, write_json \<lparr>Text = [], Status = ''processing'', ID = i\<rparr>)"
  using assms by (simp add: status_poll CheckOcrStatusByID_def zero_result_def)

lemma status_ready:
  assumes "RequestsTrack st i = Some ch" "chans st ch = res # rest"
  shows "\<exists>st'. status_ServeHTTP (poll_body i) st = (st', write_json res) \<and> RequestsTrack st' i = None"
  using assms by (simp add: status_poll CheckOcrStatusByID_def ocr_table.lookup_del)

lemma status_unknown:
  assumes "RequestsTrack st i = None"
  shows "status_ServeHTTP (poll_body i) st = (st, write_json \<lparr>Text = [], Status = ''not found'', ID = i\<rparr>)"
  using assms by (simp add: status_poll CheckOcrStatusByID_def zero_result_def)

section \<open>A sample daemon\<close>

definition sample_setting :: setting where
  "sample_setting = \<lparr>st_env = sample_env, st_broker = willing_broker, st_peer = (\<lambda>k p. []),
     st_config = DefaultTestConfig, st_tag = ''t''\<rparr>"

definition ready_resman :: resman where
  "ready_resman = init_resman\<lparr>ServiceCanAccept := True,
     queueManager := Some (newOcrQueueManager\<lparr>NumConsumers := 1\<rparr>), factorForMessageAccept := 2\<rparr>"

lemma ready_accepts: "gate_inv ready_resman" "accepts ready_resman empty_store"
  by (simp_all add: gate_inv_def ready_resman_def init_resman_def accepts_def schedulerByWorkerNumber_def
      newOcrQueueManager_def getQueueLen_def empty_store_def)

section \<open>Properties\<close>

text \<open>C3: The gate of the daemon: while the service may accept and the table has room a request is
  decoded over the identifier drawn for it and handled; otherwise the answer is 503 and nothing
  at all has happened. Looking at the gate never panics, whatever the state of the resource
  manager that its loop can reach.\<close>

theorem gate_decides:
  assumes "gate_inv g"
  shows "if ServiceCanAccept g \<and> schedulerByWorkerNumber g st = Ret True
    then ServeHTTP S g i ch b (w, st, tr) =
      (case unmarshal decode_request b (zero_request\<lparr>RequestID := i\<rparr>) of
         (_, Some e) \<Rightarrow> Ret ((w, st, tr), Some (http_Error
           (''Unable to unmarshal json, malformed request. RequestID '' @ i) 400), NoGoroutine)
       | (r, None) \<Rightarrow> bind_outcome (HandleOcrRequest S ch r (w, st, tr))
           (\<lambda>(s', out, gr). Ret (s', map_option answer out, gr)))
    else \<exists>resp. ServeHTTP S g i ch b (w, st, tr) = Ret ((w, st, tr), Some resp, NoGoroutine)
      \<and> hs_status resp = 503"
proof (cases "accepts g st")
  case True
  then have "refused g st i = Ret None" by (rule refused_accepts [OF assms])
  with True show ?thesis by (simp add: ServeHTTP_def accepts_def)
next
  case False
  then have closed: "\<not> (ServiceCanAccept g \<and> schedulerByWorkerNumber g st = Ret True)"
    by (simp add: accepts_def)
  show ?thesis unfolding if_not_P [OF closed] by (rule serve_refuses [OF assms False])
qed

theorem gate_decides_witness:
  "\<exists>resp. ServeHTTP sample_setting init_resman ''i'' 0 None (sample_world, empty_store, [])
      = Ret ((sample_world, empty_store, []), Some resp, NoGoroutine) \<and> hs_status resp = 503"
  using gate_decides [OF gate_inv_init, of empty_store sample_setting "''i''" 0 None sample_world "[]"]
  by (simp add: init_resman_def)

text \<open>A request that the broker does not take is reported as a success: when only the publication
  fails, the client gets status 200 with an empty result.\<close>

lemma lost_request_reported_ok:
  assumes "gate_inv g" "accepts g st"
    and "unmarshal decode_request b (zero_request\<lparr>RequestID := i\<rparr>) = (r, None)"
    and "\<not> InplaceDecode r" "check_reply_to (st_env S) r = Inr r1"
    and "fetch_image (st_env S) (set_timeout (st_config S) r1) = (r3, None)"
    and "env_url_parse (st_env S) (rc_AmqpURI (st_config S)) = Inr u" "\<not> rc_Reliable (st_config S)"
    and "\<And>tr c. br_answer (st_broker S) tr c
      = (case c of Publish _ _ _ _ _ \<Rightarrow> Some ''channel/connection is not open'' | _ \<Rightarrow> None)"
  shows "\<exists>s'. ServeHTTP S g i ch b (w, st, tr) = Ret (s', Some (write_json zero_result), NoGoroutine)
    \<and> fst (snd s') = st"
proof -
  let ?rc = "st_config S" and ?br = "st_broker S"
  have id: "RequestID r1 = RequestID r" using check_reply_to_keeps [OF assms(5)] by auto
  have do: "amqp_do ?br c tr = (tr @ [c], case c of Publish _ _ _ _ _ \<Rightarrow> Some ''channel/connection is not open'' | _ \<Rightarrow> None)"
    for c tr by (simp add: amqp_do_def assms(9))
  have all: "amqp_all ?br cs tr = (tr @ cs, None)" if "\<forall>c \<in> set cs. published [c] = []" for cs tr
    using that by (induction cs arbitrary: tr) (auto simp: amqp_all.simps do split: amqp_call.splits)
  obtain tr3 cq where sub: "subscribeCallbackQueue ?br ?rc (st_tag S) (RequestID r) (tr @ [Dial (rc_AmqpURI ?rc), OpenChannel,
    ExchangeDeclare (rc_Exchange ?rc) (rc_ExchangeType ?rc) True False False False]) = (tr3, cq, None)"
    by (simp add: subscribeCallbackQueue_def do all Let_def)
  have "\<exists>tr' r'. DecodeImage (st_env S) ?br (st_peer S) ?rc (st_tag S) ch r (st, tr)
      = Ret ((st, tr'), r', Some (zero_result, 500, None), NoGoroutine)"
    using sub by (simp add: DecodeImage_def assms(5,6,7,8) id do all client_publish_def confirmDelivery_def
        Let_def case_prod_beta)
  then have "\<exists>tr'. HandleOcrRequest S ch r (w, st, tr)
      = Ret ((w, st, tr'), Some (zero_result, 500, None), NoGoroutine)"
    using assms(4) by (auto simp: HandleOcrRequest_def handled_def)
  then show ?thesis by (auto simp: serve_accepted [OF assms(1,2,3)] answer_def)
qed

text \<open>The life of a deferred request as its client sees it: processing until the answer of the
  workers has come, then that answer once, under the identifier of the request, then not
  found.\<close>

lemma deferred_request_polled:
  assumes "DecodeImage env br peer rc tag ch r (st, tr) = Ret ((st1, tr1), r', out, g)" "g \<noteq> NoGoroutine"
    and "chans st ch = []"
    and "d_CorrelationId d = RequestID r" "unmarshal decode_result (d_Body d) zero_result = (res, None)"
    and "handleRPCResponse br [d] (RequestID r) ch (st1, tr1) = (st2, tr2)"
  shows "status_ServeHTTP (poll_body (RequestID r)) st1
      = (st1, write_json \<lparr>Text = [], Status = ''processing'', ID = RequestID r\<rparr>)
    \<and> (\<exists>st3. status_ServeHTTP (poll_body (RequestID r)) st2 = (st3, write_json (res\<lparr>ID := RequestID r\<rparr>))
      \<and> status_ServeHTTP (poll_body (RequestID r)) st3
        = (st3, write_json \<lparr>Text = [], Status = ''not found'', ID = RequestID r\<rparr>))"
proof -
  have st1: "st1 = addNewOcrResultToQueue (RequestID r) ch st"
    using DecodeImage_table [OF assms(1,2)] by simp
  have "st2 = send_result ch (res\<lparr>ID := RequestID r\<rparr>) st1"
    using assms(4,5,6) by (simp add: Let_def)
  then have st2: "RequestsTrack st2 (RequestID r) = Some ch" "chans st2 ch = res\<lparr>ID := RequestID r\<rparr> # []"
    using assms(3) st1 by (simp_all add: send_result_def addNewOcrResultToQueue_def)
  have "status_ServeHTTP (poll_body (RequestID r)) st1
      = (st1, write_json \<lparr>Text = [], Status = ''processing'', ID = RequestID r\<rparr>)"
    using assms(3) st1 by (intro status_processing) (simp_all add: addNewOcrResultToQueue_def)
  with status_ready [OF st2] status_unknown show ?thesis by blast
qed

text \<open>C38: An in-place decode touches neither the table nor the broker: the answer is the one of the
  engine, with status 500 and no result if there was an error, and its identifier is empty.\<close>

theorem inplace_decode:
  assumes "InplaceDecode r"
    and "HandleOcrRequest S ch r (w, st, tr) = Ret ((w', st', tr'), out, g)"
  shows "st' = st \<and> tr' = tr \<and> g = NoGoroutine \<and> (\<exists>wc' res e.
    ProcessRequest (NewOcrEngine (EngineType r)) (st_env S) r zero_worker_config w = Ret (w', wc', res, e)
    \<and> out = Some (case e of None \<Rightarrow> (res, 200, None) | Some err \<Rightarrow> (zero_result, 500, Some err)) \<and> ID res = [])"
proof -
  from assms obtain wc' res e where p:
    "ProcessRequest (NewOcrEngine (EngineType r)) (st_env S) r zero_worker_config w = Ret (w', wc', res, e)"
    by (cases "ProcessRequest (NewOcrEngine (EngineType r)) (st_env S) r zero_worker_config w")
      (auto simp: HandleOcrRequest_def)
  with any_engine.no_id [OF p] assms show ?thesis by (auto simp: HandleOcrRequest_def split: option.splits)
qed

theorem inplace_decode_witness:
  "\<exists>wc' res e. ProcessRequest (NewOcrEngine EngineMock) sample_env
      (zero_request\<lparr>InplaceDecode := True, EngineType := EngineMock\<rparr>) zero_worker_config sample_world
    = Ret (sample_world, wc', res, e) \<and> ID res = []"
proof -
  let ?r = "zero_request\<lparr>InplaceDecode := True, EngineType := EngineMock\<rparr>"
  have "HandleOcrRequest sample_setting 0 ?r (sample_world, empty_store, [])
    = Ret ((sample_world, empty_store, []), Some (zero_result\<lparr>Text := MockEngineResponse\<rparr>, 200, None), NoGoroutine)"
    by (simp add: HandleOcrRequest_def ProcessRequest_def NewOcrEngine_def mock_ProcessRequest_def)
  from inplace_decode [OF _ this] show ?thesis by (auto simp: sample_setting_def)
qed

text \<open>C39: An upload is accepted only as a POST of type multipart/related with a part of type image, whose
  content is the image of the request; and no upload whose parts all have a content type makes
  the parser panic, whereas a part without one does.\<close>

theorem upload_needs_image:
  "(\<forall>r. extractParts parse media req = Ret (r, None) \<longrightarrow>
      up_method req = ''POST'' \<and> has_prefix (up_content_type req) ''multipart/related''
      \<and> (\<exists>h hs c. Part (h # hs) c None \<in> set (up_parts req) \<and> has_prefix (media h) ''image'' \<and> ImgBytes r = Some c))
    \<and> (list_all sound_part (up_parts req) \<longrightarrow> \<not> panics (extractParts parse media req))
    \<and> panics (extractParts parse media \<lparr>up_method = ''POST'', up_content_type = ''multipart/related'',
        up_parts = [Part [] c0 None]\<rparr>)"
  using extract_loop_image [of parse media "up_parts req" zero_request]
    extract_loop_total [of "up_parts req" parse media zero_request]
  by (auto simp: extractParts_def list_all_iff has_prefix_def)

theorem upload_needs_image_witness:
  "panics (extractParts (\<lambda>b. None) (\<lambda>h. h) \<lparr>up_method = ''POST'', up_content_type = ''multipart/related'',
        up_parts = [Part [] [] None]\<rparr>)"
  using upload_needs_image [of "\<lambda>b. None" "\<lambda>h. h" "\<lparr>up_method = ''GET'', up_content_type = [], up_parts = []\<rparr>" "[]"]
  by simp

text \<open>C30: As long as the counter is the size of the table, a stopped daemon ends at the first of its
  looks at which no request is pending, and so never leaves one behind.\<close>

theorem shutdown_when_drained:
  assumes "list_all store_inv ss" "list_all (\<lambda>s. card (dom (RequestsTrack s)) < 2 ^ 32) ss"
  shows "shutdown_loop ss = Some n \<longleftrightarrow> n < length ss \<and> RequestsTrack (ss ! n) = Map.empty
    \<and> list_all (\<lambda>s. RequestsTrack s \<noteq> Map.empty) (take n ss)"
proof -
  have zero: "RequestTrackLength s = 0 \<longleftrightarrow> RequestsTrack s = Map.empty" if "s \<in> set ss" for s
  proof -
    from that assms have s: "store_inv s" "card (dom (RequestsTrack s)) < 2 ^ 32" by (simp_all add: list_all_iff)
    then have "unat (RequestTrackLength s) = card (dom (RequestsTrack s))"
      by (simp add: store_inv_def unat_of_nat take_bit_eq_mod)
    then have "RequestTrackLength s = 0 \<longleftrightarrow> card (dom (RequestsTrack s)) = 0" by (metis unat_eq_zero)
    with s show ?thesis by (simp add: store_inv_def)
  qed
  show ?thesis
    unfolding shutdown_loop_Some list_all_length
    using zero by (auto simp: nth_mem)
qed

theorem shutdown_when_drained_witness:
  "shutdown_loop [addNewOcrResultToQueue ''i'' 0 empty_store, empty_store] = Some 1"
proof -
  have "store_inv (addNewOcrResultToQueue ''i'' 0 empty_store)"
    by (rule store_inv_add [OF store_inv_empty]) (simp add: empty_store_def)
  moreover have none: "RequestsTrack empty_store = Map.empty" by (simp add: empty_store_def)
  ultimately show ?thesis
    by (intro iffD2 [OF shutdown_when_drained])
      (simp_all add: ocr_table.lookup_add none del: shutdown_loop.simps)
qed

end
