(* ===== verification/Ocr_Admission.thy ===== *)
theory Ocr_Admission
  imports Ocr_Http
begin

text \<open>
  The gate of ocr_http_handler.go under concurrent requests. A handler looks at the gate first and
  registers its request later, in DecodeImage, after the image has been fetched and the message
  published; in between other handlers look at the gate as well. A state counts the handlers that
  are past the gate and have not registered; the flags that a handler has read under the mutex
  may be older than the statistics that its scheduler reads.
\<close>

section \<open>Steps\<close>

record admission =
  a_globals :: resman
  a_store :: store
  a_handlers :: nat

text \<open>The number of requests that the scheduler allows.\<close>

definition limit_of :: "resman \<Rightarrow> nat" where
  "limit_of g = (case queueManager g of None \<Rightarrow> 0 | Some q \<Rightarrow> unat (NumConsumers q * factorForMessageAccept g))"

inductive admission_step :: "nat \<Rightarrow> nat \<Rightarrow> admission \<Rightarrow> admission \<Rightarrow> bool" for L k where
  pass: "a_handlers s < k \<Longrightarrow>
    refused ((a_globals s)\<lparr>ServiceCanAccept := can, AppStop := stop\<rparr>) (a_store s) i = Ret None \<Longrightarrow>
    admission_step L k s (s\<lparr>a_handlers := Suc (a_handlers s)\<rparr>)"
| register: "a_handlers s = Suc h \<Longrightarrow>
    admission_step L k s (s\<lparr>a_store := addNewOcrResultToQueue r ch (a_store s), a_handlers := h\<rparr>)"
| leave: "a_handlers s = Suc h \<Longrightarrow> admission_step L k s (s\<lparr>a_handlers := h\<rparr>)"
| result: "admission_step L k s (s\<lparr>a_store := send_result ch x (a_store s)\<rparr>)"
| poll: "admission_step L k s (s\<lparr>a_store := fst (CheckOcrStatusByID r (a_store s))\<rparr>)"
| drop: "admission_step L k s (s\<lparr>a_store := deleteRequestFromQueue r (a_store s)\<rparr>)"
| turn: "limit_of g \<le> L \<Longrightarrow> admission_step L k s (s\<lparr>a_globals := g\<rparr>)"

inductive admission_reach :: "nat \<Rightarrow> nat \<Rightarrow> admission \<Rightarrow> bool" for L k where
  start: "limit_of g \<le> L \<Longrightarrow> admission_reach L k \<lparr>a_globals = g, a_store = empty_store, a_handlers = 0\<rparr>"
| step: "admission_reach L k s \<Longrightarrow> admission_step L k s s' \<Longrightarrow> admission_reach L k s'"

section \<open>The bound\<close>

definition pending :: "store \<Rightarrow> nat" where
  "pending st = unat (RequestTrackLength st)"

lemma getQueueLen_pending: "unat (getQueueLen st) = pending st"
  using unsigned_less [of "RequestTrackLength st", where ?'a = nat]
  by (simp add: getQueueLen_def pending_def unsigned_ucast_eq take_bit_nat_eq_self)

text \<open>
  The table never has more entries than the counter says, so a deletion does not make the counter
  wrap; requests registered twice are counted twice.
\<close>

definition counted :: "store \<Rightarrow> bool" where
  "counted st \<longleftrightarrow> finite (dom (RequestsTrack st)) \<and> card (dom (RequestsTrack st)) \<le> pending st"

lemma pending_delete:
  assumes "counted st"
  shows "counted (deleteRequestFromQueue r st)" "pending (deleteRequestFromQueue r st) \<le> pending st"
proof -
  have "counted (deleteRequestFromQueue r st) \<and> pending (deleteRequestFromQueue r st) \<le> pending st"
  proof (cases "RequestsTrack st r")
    case None
    with assms show ?thesis by (simp add: deleteRequestFromQueue_def)
  next
    case (Some ch)
    let ?D = "dom (RequestsTrack st)"
    have "r \<in> ?D" "finite ?D" using Some assms by (auto simp: counted_def)
    then have card: "card ?D = Suc (card (?D - {r}))" by (metis card_Suc_Diff1)
    then have "RequestTrackLength st \<noteq> 0" using assms by (auto simp: counted_def pending_def)
    then have "unat (RequestTrackLength st - 1) = unat (RequestTrackLength st) - 1"
      by (simp add: unat_minus_one)
    with Some assms card show ?thesis
      by (auto simp: deleteRequestFromQueue_def counted_def pending_def)
  qed
  then show "counted (deleteRequestFromQueue r st)" "pending (deleteRequestFromQueue r st) \<le> pending st" by simp_all
qed

lemma pending_add:
  assumes "pending st + 1 < 2 ^ 32"
  shows "pending (addNewOcrResultToQueue r ch st) = pending st + 1"
    and "counted st \<Longrightarrow> counted (addNewOcrResultToQueue r ch st)"
proof -
  have "unat (RequestTrackLength st + 1) = unat (RequestTrackLength st) + 1"
    using assms by (simp add: pending_def unat_word_ariths)
  then show p: "pending (addNewOcrResultToQueue r ch st) = pending st + 1"
    by (simp add: pending_def addNewOcrResultToQueue_def)
  show "counted (addNewOcrResultToQueue r ch st)" if "counted st"
    using that p by (auto simp: counted_def addNewOcrResultToQueue_def card_insert_if split: if_splits)
qed

lemma counted_chans [simp]: "counted (st\<lparr>chans := c\<rparr>) = counted st" "pending (st\<lparr>chans := c\<rparr>) = pending st"
  by (simp_all add: counted_def pending_def)

lemma pending_poll:
  assumes "counted st"
  shows "counted (fst (CheckOcrStatusByID r st)) \<and> pending (fst (CheckOcrStatusByID r st)) \<le> pending st"
  using assms pending_delete [of "st\<lparr>chans := c\<rparr>" r for c]
  by (auto simp: CheckOcrStatusByID_def split: option.splits list.splits)

text \<open>Whoever passes the gate has seen fewer requests than the limit.\<close>

lemma refused_pending:
  assumes "refused (g\<lparr>ServiceCanAccept := can, AppStop := stop\<rparr>) st i = Ret None"
  shows "pending st < limit_of g"
proof -
  from assms have "schedulerByWorkerNumber g st = Ret True"
    by (auto simp: refused_def Let_def schedulerByWorkerNumber_def bind_outcome_Ret_iff
        split: if_splits option.splits)
  then show ?thesis
    by (auto simp: schedulerByWorkerNumber_def limit_of_def word_less_nat_alt getQueueLen_pending
        split: option.splits)
qed

definition admission_inv :: "nat \<Rightarrow> nat \<Rightarrow> admission \<Rightarrow> bool" where
  "admission_inv L k s \<longleftrightarrow> limit_of (a_globals s) \<le> L \<and> counted (a_store s)
     \<and> pending (a_store s) + a_handlers s \<le> L - 1 + k"

lemma admission_step_inv:
  assumes "admission_step L k s s'" "admission_inv L k s" "L + k \<le> 2 ^ 32" "0 < L"
  shows "admission_inv L k s'"
  using assms(1)
proof cases
  case (pass can stop i)
  from refused_pending [OF pass(3)] assms(2) have "pending (a_store s) < L" by (simp add: admission_inv_def)
  with pass assms(2) show ?thesis by (simp add: admission_inv_def)
next
  case (register h r ch)
  then have "pending (a_store s) + 1 \<le> L - 1 + k" using assms(2) by (simp add: admission_inv_def)
  with assms(3,4) have "pending (a_store s) + 1 < 2 ^ 32" by linarith
  from pending_add [OF this] register assms(2) show ?thesis by (simp add: admission_inv_def)
next
  case (poll r)
  with pending_poll [of "a_store s" r] assms(2) show ?thesis by (auto simp: admission_inv_def)
next
  case (drop r)
  with pending_delete [of "a_store s" r] assms(2) show ?thesis by (auto simp: admission_inv_def)
qed (use assms(2) in \<open>simp_all add: admission_inv_def send_result_def\<close>)

lemma admission_reach_inv:
  assumes "admission_reach L k s" "L + k \<le> 2 ^ 32" "0 < L"
  shows "admission_inv L k s"
  using assms(1)
proof (induction rule: admission_reach.induct)
  case (start g)
  then show ?case by (simp add: admission_inv_def counted_def pending_def empty_store_def)
qed (use admission_step_inv assms(2,3) in blast)

section \<open>The bound is attained\<close>

definition resman_with_limit :: "nat \<Rightarrow> resman" where
  "resman_with_limit L = ready_resman\<lparr>factorForMessageAccept := of_nat L\<rparr>"

lemma limit_of_resman:
  assumes "L < 2 ^ 64"
  shows "limit_of (resman_with_limit L) = L"
  using assms
  by (simp add: limit_of_def resman_with_limit_def ready_resman_def init_resman_def newOcrQueueManager_def
      unat_of_nat take_bit_eq_mod)

lemma gate_open:
  assumes "pending st < L" "L < 2 ^ 64"
  shows "refused (resman_with_limit L) st i = Ret None"
proof -
  let ?g = "resman_with_limit L"
  have g: "queueManager ?g = Some (newOcrQueueManager\<lparr>NumConsumers := 1\<rparr>)" "factorForMessageAccept ?g = of_nat L"
    "ServiceCanAccept ?g"
    by (simp_all add: resman_with_limit_def ready_resman_def)
  have "unat (of_nat L :: uint) = L" using assms(2) by (simp add: unat_of_nat take_bit_eq_mod)
  then have "getQueueLen st < of_nat L"
    using assms(1) by (simp add: word_less_nat_alt getQueueLen_pending)
  with g show ?thesis by (simp add: refused_def schedulerByWorkerNumber_def Let_def)
qed

lemma pass_gate:
  assumes "admission_reach L k \<lparr>a_globals = resman_with_limit L, a_store = st, a_handlers = h\<rparr>"
    and "h < k" "pending st < L" "L < 2 ^ 64"
  shows "admission_reach L k \<lparr>a_globals = resman_with_limit L, a_store = st, a_handlers = Suc h\<rparr>"
proof -
  let ?g = "resman_with_limit L"
  have "?g\<lparr>ServiceCanAccept := ServiceCanAccept ?g, AppStop := AppStop ?g\<rparr> = ?g" by simp
  with gate_open [OF assms(3,4)] have
    "refused (?g\<lparr>ServiceCanAccept := ServiceCanAccept ?g, AppStop := AppStop ?g\<rparr>) st i = Ret None" for i by simp
  with assms(2) have "admission_step L k \<lparr>a_globals = ?g, a_store = st, a_handlers = h\<rparr>
      (\<lparr>a_globals = ?g, a_store = st, a_handlers = h\<rparr>\<lparr>a_handlers := Suc h\<rparr>)"
    using admission_step.pass [of "\<lparr>a_globals = ?g, a_store = st, a_handlers = h\<rparr>" k
      "AppStop ?g" "ServiceCanAccept ?g" "[]"] by simp
  from admission_reach.step [OF assms(1) this] show ?thesis by simp
qed

text \<open>Every request gets an identifier of its own.\<close>

lemma register_one:
  assumes "admission_reach L k \<lparr>a_globals = g, a_store = st, a_handlers = Suc h\<rparr>" "pending st + 1 < 2 ^ 32"
    and "store_inv st"
  shows "\<exists>st'. admission_reach L k \<lparr>a_globals = g, a_store = st', a_handlers = h\<rparr>
    \<and> pending st' = pending st + 1 \<and> store_inv st'"
proof -
  have "finite (dom (RequestsTrack st))" using assms(3) by (simp add: store_inv_def)
  then obtain r where "r \<notin> dom (RequestsTrack st)"
    using ex_new_if_finite [of "dom (RequestsTrack st)"] infinite_UNIV_listI by blast
  then have "store_inv (addNewOcrResultToQueue r 0 st)" using store_inv_add [OF assms(3)] by (simp add: domIff)
  moreover have "admission_step L k \<lparr>a_globals = g, a_store = st, a_handlers = Suc h\<rparr>
      \<lparr>a_globals = g, a_store = addNewOcrResultToQueue r 0 st, a_handlers = h\<rparr>"
    using admission_step.register [of "\<lparr>a_globals = g, a_store = st, a_handlers = Suc h\<rparr>" h L k r 0] by simp
  from admission_reach.step [OF assms(1) this]
  have "admission_reach L k \<lparr>a_globals = g, a_store = addNewOcrResultToQueue r 0 st, a_handlers = h\<rparr>" .
  ultimately show ?thesis using pending_add(1) [OF assms(2)] by blast
qed

lemma one_after_another:
  assumes "L + k \<le> 2 ^ 32" "0 < k" "j < L"
  shows "\<exists>st. admission_reach L k \<lparr>a_globals = resman_with_limit L, a_store = st, a_handlers = 0\<rparr>
    \<and> pending st = j \<and> store_inv st"
  using assms(3)
proof (induction j)
  case 0
  have "limit_of (resman_with_limit L) \<le> L" using assms(1) by (simp add: limit_of_resman)
  moreover have "pending empty_store = 0" by (simp add: pending_def empty_store_def)
  ultimately show ?case using admission_reach.start by (intro exI [of _ empty_store]) simp
next
  case (Suc j)
  then obtain st where st: "admission_reach L k \<lparr>a_globals = resman_with_limit L, a_store = st, a_handlers = 0\<rparr>"
    "pending st = j" "store_inv st" by auto
  from pass_gate [OF st(1)] assms(1,2) Suc.prems st(2)
  have "admission_reach L k \<lparr>a_globals = resman_with_limit L, a_store = st, a_handlers = Suc 0\<rparr>" by simp
  from register_one [OF this _ st(3)] st(2) assms(1) Suc.prems show ?case by simp
qed

lemma all_at_once:
  assumes "L + k \<le> 2 ^ 32" "0 < k" "0 < L" "i \<le> k"
  shows "\<exists>st. admission_reach L k \<lparr>a_globals = resman_with_limit L, a_store = st, a_handlers = k - i\<rparr>
    \<and> pending st = L - 1 + i \<and> store_inv st"
  using assms(4)
proof (induction i)
  case 0
  obtain st where st: "admission_reach L k \<lparr>a_globals = resman_with_limit L, a_store = st, a_handlers = 0\<rparr>"
    "pending st = L - 1" "store_inv st" using one_after_another [OF assms(1,2), of "L - 1"] assms(3) by auto
  have "admission_reach L k \<lparr>a_globals = resman_with_limit L, a_store = st, a_handlers = h\<rparr>" if "h \<le> k" for h
    using that
  proof (induction h)
    case (Suc h)
    with pass_gate [of L k st h] st(2) assms(1,3) show ?case by simp
  qed (rule st(1))
  with st(2,3) show ?case by (intro exI [of _ st]) simp
next
  case (Suc i)
  then obtain st where st: "admission_reach L k \<lparr>a_globals = resman_with_limit L, a_store = st, a_handlers = Suc (k - Suc i)\<rparr>"
    "pending st = L - 1 + i" "store_inv st" by (auto simp: Suc_diff_Suc)
  from register_one [OF st(1) _ st(3)] st(2) assms(1,3) Suc.prems show ?case by simp
qed

section \<open>Properties\<close>



end
