(* ===== verification/Cli_Workers.thy ===== *)
theory Cli_Workers
  imports Ocr_Worker Preprocessor_Worker
begin

text \<open>
  cli-worker/main.go and cli-preprocessor/main.go: the two worker programs. Each is an endless
  loop that creates a worker, runs it and waits for a value on its channel Done, which comes
  when the connection is lost. A program is a function of the rounds it meets: the broker of
  a round and the deliveries until it closes the channel. log.Panic and a panic in the
  goroutine of a worker end the process.
\<close>

section \<open>Processes\<close>

datatype process =
    Running            \<comment> \<open>in its loop, after the rounds given\<close>
  | Stuck              \<comment> \<open>waits on a channel that nobody sends to\<close>
  | Exited int         \<comment> \<open>os.Exit\<close>
  | Crashed string     \<comment> \<open>a panic, log.Panic or log.Fatal\<close>

record worker_round =
  rd_env :: os_env
  rd_broker :: broker
  rd_deliveries :: "delivery list"

section \<open>The OCR worker program\<close>

text \<open>
  One round: the calls made to the broker, and what has become of the process. main receives
  the first value on Done; a value that comes after it stays with the goroutine.
\<close>

definition worker_round_run ::
  "string \<Rightarrow> WorkerConfig \<Rightarrow> worker_round \<Rightarrow> world \<Rightarrow> world \<times> amqp_trace \<times> process" where
  "worker_round_run tag wc rd w =
     (case NewOcrRpcWorker tag wc of
        (_, Some e) \<Rightarrow> (w, [], Crashed ''Could not create rpc worker'')
      | (wk, None) \<Rightarrow>
          (case w_Run (rd_env rd) (rd_broker rd) wk [] of
             Panic m \<Rightarrow> (w, [], Crashed m)
           | Ret (tr, Some e) \<Rightarrow> (w, tr, Crashed (''Error running worker: '' @ e))
           | Ret (tr, None) \<Rightarrow>
               (case w_handle (rd_broker rd) (rd_env rd) (rd_deliveries rd) wk w tr of
                  Panic m \<Rightarrow> (w, tr, Crashed m)
                | Ret ((_, w', tr'), done_values) \<Rightarrow>
                    (w', tr', if done_values = [] then Stuck else Running))))"

fun worker_rounds ::
  "string \<Rightarrow> WorkerConfig \<Rightarrow> worker_round list \<Rightarrow> world \<Rightarrow> world \<times> amqp_trace list \<times> process" where
  "worker_rounds tag wc [] w = (w, [], Running)"
| "worker_rounds tag wc (rd # rds) w =
     (case worker_round_run tag wc rd w of
        (w1, tr, Running) \<Rightarrow>
          (case worker_rounds tag wc rds w1 of (w2, trs, p) \<Rightarrow> (w2, tr # trs, p))
      | (w1, tr, p) \<Rightarrow> (w1, [tr], p))"

text \<open>main: every round gets the configuration of the flags, not the one a worker has changed.\<close>

definition worker_main ::
  "string \<Rightarrow> worker_flags \<Rightarrow> worker_round list \<Rightarrow> world \<Rightarrow> world \<times> amqp_trace list \<times> process" where
  "worker_main tag flags rds w =
     (case DefaultConfigFlagsWorkerOverride flags of
        (_, Some e) \<Rightarrow> (w, [], Crashed (''error getting arguments: '' @ e @ '' ''))
      | (wc, None) \<Rightarrow>
          if wc_FlgVersion wc then (w, [], Exited 0) else worker_rounds tag wc rds w)"

section \<open>The preprocessor program\<close>

text \<open>
  An error of Run is only logged: the program goes on to wait for Done, although no goroutine
  has been started that could send to it.
\<close>

definition preprocessor_round_run ::
  "string \<Rightarrow> RabbitConfig \<Rightarrow> string \<Rightarrow> worker_round \<Rightarrow> world \<Rightarrow> world \<times> amqp_trace \<times> process" where
  "preprocessor_round_run tag rc preproc rd w =
     (case NewPreprocessorRpcWorker tag rc preproc of
        Inl e \<Rightarrow> (w, [], Crashed ''could not create rpc worker'')
      | Inr pw \<Rightarrow>
          (case pw_Run (rd_broker rd) pw [] of
             (tr, Some e) \<Rightarrow> (w, tr, Stuck)
           | (tr, None) \<Rightarrow>
               (case pw_handle (rd_broker rd) (rd_env rd) pw (rd_deliveries rd) (w, tr) of
                  Panic m \<Rightarrow> (w, tr, Crashed m)
                | Ret ((w', tr'), done_value) \<Rightarrow> (w', tr', if done_value = None then Stuck else Running))))"

fun preprocessor_rounds ::
  "string \<Rightarrow> RabbitConfig \<Rightarrow> string \<Rightarrow> worker_round list \<Rightarrow> world \<Rightarrow> world \<times> amqp_trace list \<times> process" where
  "preprocessor_rounds tag rc preproc [] w = (w, [], Running)"
| "preprocessor_rounds tag rc preproc (rd # rds) w =
     (case preprocessor_round_run tag rc preproc rd w of
        (w1, tr, Running) \<Rightarrow>
          (case preprocessor_rounds tag rc preproc rds w1 of (w2, trs, p) \<Rightarrow> (w2, tr # trs, p))
      | (w1, tr, p) \<Rightarrow> (w1, [tr], p))"

definition preprocessor_main ::
  "(string \<Rightarrow> body) \<Rightarrow> string \<Rightarrow> rabbit_flags \<Rightarrow> string \<Rightarrow> worker_round list \<Rightarrow> world
     \<Rightarrow> world \<times> amqp_trace list \<times> process" where
  "preprocessor_main parse tag flags preproc rds w =
     (case DefaultConfigFlagsOverride parse flags of
        Panic m \<Rightarrow> (w, [], Crashed m)
      | Ret rc \<Rightarrow> preprocessor_rounds tag rc preproc rds w)"

section \<open>Loops that start a worker again\<close>

text \<open>
  What both programs share: rounds go on as long as the round before leaves the program in its
  loop, and hand on what it has done to the files.
\<close>

locale restart_loop =
  fixes one_round :: "worker_round \<Rightarrow> world \<Rightarrow> world \<times> amqp_trace \<times> process"
    and all_rounds :: "worker_round list \<Rightarrow> world \<Rightarrow> world \<times> amqp_trace list \<times> process"
  assumes no_round: "all_rounds [] w = (w, [], Running)"
    and next_round: "all_rounds (rd # rds) w =
      (case one_round rd w of (w1, tr, p) \<Rightarrow>
         if p = Running then (case all_rounds rds w1 of (w2, trs, q) \<Rightarrow> (w2, tr # trs, q)) else (w1, [tr], p))"
begin

text \<open>A program all of whose rounds go well goes through all of them.\<close>

lemma survives:
  assumes "\<And>rd w. rd \<in> set rds \<Longrightarrow> \<exists>w' tr. one_round rd w = (w', tr, Running) \<and> R rd tr"
  shows "\<exists>w' trs. all_rounds rds w = (w', trs, Running) \<and> list_all2 R rds trs"
  using assms
proof (induction rds arbitrary: w)
  case (Cons rd rds)
  from Cons.prems [of rd w] obtain w1 tr where "one_round rd w = (w1, tr, Running)" "R rd tr" by auto
  moreover from Cons.IH [of w1] Cons.prems obtain w2 trs where
    "all_rounds rds w1 = (w2, trs, Running)" "list_all2 R rds trs" by auto
  ultimately show ?case by (simp add: next_round)
qed (simp add: no_round)

text \<open>A program whose rounds either go well or end it in one way stops at the first that does not.\<close>

lemma stops_at_first:
  assumes "\<And>rd w. \<exists>w' tr. one_round rd w = (w', tr, if good rd then Running else p)" "p \<noteq> Running"
  shows "\<exists>w' trs. all_rounds rds w = (w', trs, if \<forall>rd \<in> set rds. good rd then Running else p)
    \<and> length trs = min (length rds) (Suc (length (takeWhile good rds)))"
proof (induction rds arbitrary: w)
  case (Cons rd rds)
  from assms(1) [of rd w] obtain w1 tr where "one_round rd w = (w1, tr, if good rd then Running else p)" by blast
  moreover from Cons [of w1] obtain w2 trs where
    "all_rounds rds w1 = (w2, trs, if \<forall>rd \<in> set rds. good rd then Running else p)"
    "length trs = min (length rds) (Suc (length (takeWhile good rds)))" by blast
  ultimately show ?case using assms(2) by (simp add: next_round)
qed (simp add: no_round)

end

interpretation worker_loop: restart_loop "worker_round_run tag wc" "worker_rounds tag wc" for tag wc
  by unfold_locales (simp_all split: prod.split process.split)

interpretation preprocessor_loop:
  restart_loop "preprocessor_round_run tag rc preproc" "preprocessor_rounds tag rc preproc" for tag rc preproc
  by unfold_locales (simp_all split: prod.split process.split)

section \<open>Facts\<close>

text \<open>A round whose broker lets the worker start, and whose deliveries it can handle.\<close>

definition connects :: "string \<Rightarrow> WorkerConfig \<Rightarrow> worker_round \<Rightarrow> bool" where
  "connects tag wc rd \<longleftrightarrow>
     (case w_Run (rd_env rd) (rd_broker rd) (fst (NewOcrRpcWorker tag wc)) [] of
        Ret (_, None) \<Rightarrow> True | _ \<Rightarrow> False)"

definition good_round :: "string \<Rightarrow> WorkerConfig \<Rightarrow> worker_round \<Rightarrow> bool" where
  "good_round tag wc rd \<longleftrightarrow> connects tag wc rd \<and> (\<forall>d \<in> set (rd_deliveries rd). safe_delivery d)"

text \<open>
  The trace of a round: it starts by dialling the configured address, subscribes to the queue of
  the worker, and acknowledges deliveries from the first on, without a gap.
\<close>

definition round_trace :: "WorkerConfig \<Rightarrow> worker_round \<Rightarrow> amqp_trace \<Rightarrow> bool" where
  "round_trace wc rd tr \<longleftrightarrow> (\<exists>more. tr = Dial (wc_AmqpURI wc) # more)
     \<and> receives tr (wc_Exchange wc) (wc_RoutingKey wc) False
     \<and> prefix (acked tr) (map d_DeliveryTag (rd_deliveries rd))"

lemma worker_round_runs:
  assumes "good_round tag wc rd" "\<not> wc_Reliable wc"
  shows "\<exists>w' tr. worker_round_run tag wc rd w = (w', tr, Running) \<and> round_trace wc rd tr"
proof -
  let ?wk = "\<lparr>w_workerConfig = wc, w_tag = tag\<rparr>"
  from assms(1) obtain tr where r: "w_Run (rd_env rd) (rd_broker rd) ?wk [] = Ret (tr, None)"
    by (auto simp: good_round_def connects_def NewOcrRpcWorker_def
        split: outcome.splits prod.splits option.splits)
  have "\<not> panics (w_handle (rd_broker rd) (rd_env rd) (rd_deliveries rd) ?wk w tr)"
    using assms by (intro w_handle_total) (simp_all add: good_round_def)
  then obtain wk' w' tr' dones where
    h: "w_handle (rd_broker rd) (rd_env rd) (rd_deliveries rd) ?wk w tr = Ret ((wk', w', tr'), dones)"
    by (cases "w_handle (rd_broker rd) (rd_env rd) (rd_deliveries rd) ?wk w tr") auto
  from w_handle_answers [OF h] w_Run_receives(3) [OF r]
  have "prefix (acked tr') (map d_DeliveryTag (rd_deliveries rd))"
    by (metis acked.simps(1) append_Nil map_is_prefix_take)
  moreover from w_handle_extends(1) [OF h] obtain more where "tr' = tr @ more" by blast
  ultimately have "round_trace wc rd tr'"
    using w_Run_receives(1,4) [OF r] by (auto simp: round_trace_def)
  moreover have "worker_round_run tag wc rd w = (w', tr', Running)"
    using w_handle_extends(2) [OF h] by (simp add: worker_round_run_def NewOcrRpcWorker_def r h)
  ultimately show ?thesis by blast
qed

lemma worker_rounds_run:
  assumes "\<forall>rd \<in> set rds. good_round tag wc rd" "\<not> wc_Reliable wc"
  shows "\<exists>w' trs. worker_rounds tag wc rds w = (w', trs, Running) \<and> list_all2 (round_trace wc) rds trs"
  using worker_round_runs assms by (intro worker_loop.survives) blast

text \<open>A preprocessor worker that could be created runs until a broker refuses it.\<close>

definition accepted_by :: "PreprocessorRpcWorker \<Rightarrow> worker_round \<Rightarrow> bool" where
  "accepted_by pw rd \<longleftrightarrow> snd (pw_Run (rd_broker rd) pw []) = None"

lemma preprocessor_round_runs:
  assumes "NewPreprocessorRpcWorker tag rc p = Inr pw"
  shows "\<exists>w' tr. preprocessor_round_run tag rc p rd w
    = (w', tr, if accepted_by pw rd then Running else Stuck)"
proof -
  obtain tr e where r: "pw_Run (rd_broker rd) pw [] = (tr, e)" by fastforce
  have "\<not> panics (pw_handle (rd_broker rd) (rd_env rd) pw (rd_deliveries rd) (w, tr))"
    by (rule pw_handle_total [OF new_preprocessor_wf [OF assms]])
  then obtain w' tr' dv where
    h: "pw_handle (rd_broker rd) (rd_env rd) pw (rd_deliveries rd) (w, tr) = Ret ((w', tr'), dv)"
    by (cases "pw_handle (rd_broker rd) (rd_env rd) pw (rd_deliveries rd) (w, tr)") auto
  from pw_handle_done [OF h] show ?thesis
    by (cases e) (simp_all add: preprocessor_round_run_def assms r h accepted_by_def)
qed

lemma preprocessor_rounds_run:
  assumes "NewPreprocessorRpcWorker tag rc p = Inr pw"
  shows "\<exists>w' trs. preprocessor_rounds tag rc p rds w
      = (w', trs, if \<forall>rd \<in> set rds. accepted_by pw rd then Running else Stuck)
    \<and> length trs = min (length rds) (Suc (length (takeWhile (accepted_by pw) rds)))"
  by (rule preprocessor_loop.stops_at_first [OF preprocessor_round_runs [OF assms]]) simp

text \<open>A round of two requests for the mock engine, and one whose broker cannot be reached.\<close>

definition mock_round :: worker_round where
  "mock_round = \<lparr>rd_env = sample_env, rd_broker = willing_broker,
     rd_deliveries = [mock_delivery ''i'' 1, mock_delivery ''j'' 2]\<rparr>"

definition dead_round :: worker_round where
  "dead_round = mock_round\<lparr>rd_broker := willing_broker\<lparr>br_answer := (\<lambda>_ _. Some ''connection refused'')\<rparr>\<rparr>"

lemma mock_delivery_safe: "safe_delivery (mock_delivery c t)"
  using mock_delivery_decodes [of c t]
  by (simp add: safe_delivery_def mock_delivery_def engine_panic_free_def NewOcrEngine_def)

lemma mock_round_good: "good_round ''t'' wc mock_round"
  by (simp add: good_round_def connects_def mock_round_def mock_delivery_safe w_Run_def Let_def
      sample_env_def willing_broker_def amqp_do_def amqp_all.simps)

section \<open>Properties\<close>



text \<open>C33: The preprocessor program does not survive a broker it cannot reach: it never crashes, but the
  first round in which Run fails leaves it waiting for a value that nobody sends, and it makes
  no further attempt.\<close>

theorem preprocessor_program_hangs:
  assumes "DefaultConfigFlagsOverride parse flags = Ret rc" "NewPreprocessorRpcWorker tag rc p = Inr pw"
  shows "\<exists>w' trs. preprocessor_main parse tag flags p rds w
      = (w', trs, if \<forall>rd \<in> set rds. snd (pw_Run (rd_broker rd) pw []) = None then Running else Stuck)
    \<and> length trs = min (length rds) (Suc (length (takeWhile (\<lambda>rd. snd (pw_Run (rd_broker rd) pw []) = None) rds)))"
  using preprocessor_rounds_run [OF assms(2), of rds w] assms(1)
  by (simp add: preprocessor_main_def accepted_by_def [abs_def])

theorem preprocessor_program_hangs_witness:
  "\<exists>w' trs. preprocessor_main (\<lambda>_. None) ''t'' default_rabbit_flags ''identity'' [mock_round, dead_round, mock_round] sample_world
      = (w', trs, Stuck) \<and> length trs = 2"
proof -
  obtain rc where rc: "DefaultConfigFlagsOverride (\<lambda>_. None) default_rabbit_flags = Ret rc"
    by (simp add: DefaultConfigFlagsOverride_def default_rabbit_flags_def)
  obtain pw where pw: "NewPreprocessorRpcWorker ''t'' rc ''identity'' = Inr pw"
    using new_preprocessor_known [of "''t''" rc "''identity''"] by (auto simp: preprocessor_names)
  have "snd (pw_Run (rd_broker mock_round) pw []) = None" "snd (pw_Run (rd_broker dead_round) pw []) \<noteq> None"
    by (simp_all add: pw_Run_def mock_round_def dead_round_def willing_broker_def amqp_do_def amqp_all.simps Let_def)
  with preprocessor_program_hangs [OF rc pw, of "[mock_round, dead_round, mock_round]" sample_world]
  show ?thesis by (simp add: numeral_2_eq_2)
qed

end
