(* ===== verification/Ocr_Fleet.thy ===== *)
theory Ocr_Fleet
  imports Cli_Workers Ocr_Pipeline "HOL-Library.Multiset"
begin

text \<open>
  A fleet of OCR workers on one queue: several cli-worker programs whose workers consume the queue
  of the OCR requests, with the deliveries that AMQP documents for a consumer that acknowledges
  by itself. A message is ready, or it is unacknowledged on the channel it was delivered to; an
  acknowledgement takes it off the queue, and when a channel goes, with its connection or with the
  process, its unacknowledged messages are ready again. A step of the fleet is one call of Run, one
  turn of the loop of handle, or something that happens to a connection or a process; broker,
  environment and files are any at every step.
\<close>

section \<open>One turn of the loop of handle\<close>

datatype turn_end =
    Unsent string   \<comment> \<open>the answer could not be sent, the loop is left\<close>
  | AckRefused      \<comment> \<open>the answer is sent, the acknowledgement is not: a warning\<close>
  | Acknowledged

definition handle_one ::
  "broker \<Rightarrow> os_env \<Rightarrow> delivery \<Rightarrow> OcrRpcWorker \<Rightarrow> world \<Rightarrow> amqp_trace
     \<Rightarrow> (OcrRpcWorker \<times> world \<times> amqp_trace \<times> turn_end) outcome" where
  "handle_one br env d wk w tr =
     bind_outcome (resultForDelivery env wk d w)
       (\<lambda>(w1, wk1, ocrResult, _).
          bind_outcome (sendRpcResponse br wk1 ocrResult (d_ReplyTo d) (d_CorrelationId d) tr)
            (\<lambda>(tr1, e). Ret (case e of
                Some err \<Rightarrow> (wk1, w1, tr1, Unsent err)
              | None \<Rightarrow>
                  (case amqp_do br (Ack (d_DeliveryTag d) False) tr1 of
                     (tr2, None) \<Rightarrow> (wk1, w1, tr2, Acknowledged)
                   | (tr2, Some _) \<Rightarrow> (wk1, w1, tr2, AckRefused)))))"

text \<open>The loop is made of these turns.\<close>

lemma w_handle_turns:
  "w_handle br env (d # ds) wk w tr =
     bind_outcome (handle_one br env d wk w tr) (\<lambda>(wk1, w1, tr1, r).
       case r of
         Unsent err \<Rightarrow> Ret ((wk1, w1, tr1), [err, ''handle: deliveries channel closed''])
       | _ \<Rightarrow> w_handle br env ds wk1 w1 tr1)"
proof (cases "resultForDelivery env wk d w")
  case (Ret x)
  obtain w1 wk1 res e where x: "x = (w1, wk1, res, e)" by (cases x)
  show ?thesis
  proof (cases "sendRpcResponse br wk1 res (d_ReplyTo d) (d_CorrelationId d) tr")
    case (Ret y)
    obtain tr1 e1 where y: "y = (tr1, e1)" by (cases y)
    show ?thesis
      using \<open>resultForDelivery env wk d w = Ret x\<close> Ret x y
      by (cases e1; cases "br_answer br tr1 (Ack (d_DeliveryTag d) False)")
        (simp_all add: handle_one_def amqp_do_def)
  qed (simp add: handle_one_def Ret x)
qed (simp add: handle_one_def)

lemma handle_oneE:
  assumes "handle_one br env d wk w tr = Ret (wk', w', tr', r)"
  obtains res e0 tr1 e where "resultForDelivery env wk d w = Ret (w', wk', res, e0)"
    "sendRpcResponse br wk' res (d_ReplyTo d) (d_CorrelationId d) tr = Ret (tr1, e)"
    "\<forall>err. r = Unsent err \<longleftrightarrow> e = Some err"
    "r = Acknowledged \<longleftrightarrow> e = None \<and> br_answer br tr1 (Ack (d_DeliveryTag d) False) = None"
    "tr' = (if e = None then tr1 @ [Ack (d_DeliveryTag d) False] else tr1)"
proof -
  from assms obtain x where r: "resultForDelivery env wk d w = Ret x"
    by (cases "resultForDelivery env wk d w") (simp_all add: handle_one_def)
  obtain w1 wk1 res e0 where x: "x = (w1, wk1, res, e0)" by (cases x)
  from assms r x obtain y where
    s: "sendRpcResponse br wk1 res (d_ReplyTo d) (d_CorrelationId d) tr = Ret y"
    by (cases "sendRpcResponse br wk1 res (d_ReplyTo d) (d_CorrelationId d) tr") (simp_all add: handle_one_def)
  obtain tr1 e where y: "y = (tr1, e)" by (cases y)
  show thesis
    using assms r s x y by (intro that [of res e0 tr1 e])
      (cases e; cases "br_answer br tr1 (Ack (d_DeliveryTag d) False)"; auto simp: handle_one_def amqp_do_def)+
qed

text \<open>What a turn has sent: one answer, for the queue and with the identifier of the delivery.\<close>

definition turn_answers :: "amqp_trace \<Rightarrow> amqp_trace \<Rightarrow> (string \<times> publishing) list" where
  "turn_answers tr tr' = drop (length (published tr)) (published tr')"

lemma handle_one_answer:
  assumes "handle_one br env d wk w tr = Ret (wk', w', tr', r)" "\<forall>err. r \<noteq> Unsent err"
  shows "\<exists>res. turn_answers tr tr' = [(d_ReplyTo d, response res (d_CorrelationId d))]"
  using assms(1)
proof (cases rule: handle_oneE)
  case (1 res e0 tr1 e)
  with assms(2) have "e = None" by (cases e) auto
  with 1(5) sendRpcResponse_trace(2) [OF 1(2)] show ?thesis by (auto simp: turn_answers_def)
qed

section \<open>The fleet\<close>

text \<open>
  A link is the connection that a call of Run has made. What is in the channel of deliveries and
  what the broker holds as unacknowledged are two things: handle takes from the first whether or
  not its acknowledgement arrives. A worker that could not send an answer leaves its link open.
\<close>

type_synonym tagged = "uint64 \<times> publishing"

record link =
  l_owner :: nat                \<comment> \<open>the process\<close>
  l_worker :: OcrRpcWorker
  l_trace :: amqp_trace
  l_todo :: "tagged list"       \<comment> \<open>in the channel of deliveries\<close>
  l_unacked :: "tagged list"    \<comment> \<open>as the broker has it\<close>
  l_open :: bool
  l_live :: bool                \<comment> \<open>handle is in its loop\<close>

record fleet =
  f_ready :: "publishing multiset"
  f_links :: "link list"
  f_down :: "bool list"         \<comment> \<open>the processes that have ended\<close>
  f_sent :: "publishing multiset"                \<comment> \<open>all messages so far\<close>
  f_settled :: "publishing multiset"             \<comment> \<open>those acknowledged\<close>
  f_answers :: "(string \<times> publishing) multiset"  \<comment> \<open>all answers so far\<close>

definition new_fleet :: "nat \<Rightarrow> fleet" where
  "new_fleet n = \<lparr>f_ready = {#}, f_links = [], f_down = replicate n False, f_sent = {#},
     f_settled = {#}, f_answers = {#}\<rparr>"

definition delivery_of :: "tagged \<Rightarrow> delivery" where
  "delivery_of x = (case x of (t, m) \<Rightarrow> (to_delivery m)\<lparr>d_DeliveryTag := t\<rparr>)"

text \<open>The limit that Qos sets: the prefetch count has 16 bits in the protocol, and 0 is no limit.\<close>

definition has_room :: "link \<Rightarrow> bool" where
  "has_room l \<longleftrightarrow>
     (let limit = unat (ucast (wc_NumParallelJobs (w_workerConfig (l_worker l))) :: uint16) in
      limit = 0 \<or> length (l_unacked l) < limit)"

definition close_link :: "link \<Rightarrow> link" where
  "close_link l = l\<lparr>l_unacked := [], l_open := False\<rparr>"

definition unacked_of :: "link \<Rightarrow> publishing multiset" where
  "unacked_of l = mset (map snd (l_unacked l))"

definition all_unacked :: "link list \<Rightarrow> publishing multiset" where
  "all_unacked ls = sum_list (map unacked_of ls)"

text \<open>The end of a process closes its connections.\<close>

definition crash :: "nat \<Rightarrow> fleet \<Rightarrow> fleet" where
  "crash i f =
     f\<lparr>f_ready := f_ready f + all_unacked (filter (\<lambda>l. l_owner l = i) (f_links f)),
       f_links := map (\<lambda>l. if l_owner l = i then (close_link l)\<lparr>l_live := False\<rparr> else l) (f_links f),
       f_down := (f_down f)[i := True]\<rparr>"

definition between_workers :: "fleet \<Rightarrow> nat \<Rightarrow> bool" where
  "between_workers f i \<longleftrightarrow> i < length (f_down f) \<and> \<not> f_down f ! i
     \<and> (\<forall>l \<in> set (f_links f). l_owner l = i \<longrightarrow> \<not> l_live l)"

definition new_link :: "nat \<Rightarrow> OcrRpcWorker \<Rightarrow> amqp_trace \<Rightarrow> link" where
  "new_link i wk tr =
     \<lparr>l_owner = i, l_worker = wk, l_trace = tr, l_todo = [], l_unacked = [], l_open = True, l_live = True\<rparr>"

text \<open>A broker that answers every call with an error, as the client does once the channel is closed.\<close>

definition refuses_all :: "broker \<Rightarrow> bool" where
  "refuses_all br \<longleftrightarrow> (\<forall>tr c. br_answer br tr c \<noteq> None)"

definition at_work :: "fleet \<Rightarrow> nat \<Rightarrow> tagged \<Rightarrow> tagged list \<Rightarrow> broker \<Rightarrow> bool" where
  "at_work f k x rest br \<longleftrightarrow> k < length (f_links f) \<and> l_live (f_links f ! k)
     \<and> l_todo (f_links f ! k) = x # rest \<and> (l_open (f_links f ! k) \<or> refuses_all br)"

text \<open>
  The steps of the programs themselves, with brokers and environments of a kind K. A link that is
  closed leaves its loop; main then creates the next worker, and ends if Run fails.
\<close>

inductive fleet_turn ::
  "(broker \<Rightarrow> os_env \<Rightarrow> bool) \<Rightarrow> string \<Rightarrow> WorkerConfig \<Rightarrow> fleet \<Rightarrow> fleet \<Rightarrow> bool" for K tag wc where
  start: "between_workers f i \<Longrightarrow> K br env \<Longrightarrow> w_Run env br (fst (NewOcrRpcWorker tag wc)) [] = Ret (tr, None) \<Longrightarrow>
    fleet_turn K tag wc f (f\<lparr>f_links := f_links f @ [new_link i (fst (NewOcrRpcWorker tag wc)) tr]\<rparr>)"
| no_start: "between_workers f i \<Longrightarrow> K br env \<Longrightarrow>
    \<forall>tr. w_Run env br (fst (NewOcrRpcWorker tag wc)) [] \<noteq> Ret (tr, None) \<Longrightarrow>
    fleet_turn K tag wc f (crash i f)"
| deliver: "k < length (f_links f) \<Longrightarrow> l = f_links f ! k \<Longrightarrow> l_open l \<Longrightarrow> has_room l \<Longrightarrow>
    m \<in># f_ready f \<Longrightarrow> t \<notin> fst ` set (l_unacked l) \<Longrightarrow>
    fleet_turn K tag wc f (f\<lparr>f_ready := f_ready f - {#m#},
      f_links := (f_links f)[k := l\<lparr>l_todo := l_todo l @ [(t, m)], l_unacked := l_unacked l @ [(t, m)]\<rparr>]\<rparr>)"
| panic: "at_work f k x rest br \<Longrightarrow> l = f_links f ! k \<Longrightarrow> K br env \<Longrightarrow>
    panics (handle_one br env (delivery_of x) (l_worker l) w (l_trace l)) \<Longrightarrow>
    fleet_turn K tag wc f (crash (l_owner l) f)"
| unsent: "at_work f k x rest br \<Longrightarrow> l = f_links f ! k \<Longrightarrow> K br env \<Longrightarrow>
    handle_one br env (delivery_of x) (l_worker l) w (l_trace l) = Ret (wk', w', tr', Unsent err) \<Longrightarrow>
    fleet_turn K tag wc f (f\<lparr>f_links := (f_links f)[k :=
      l\<lparr>l_worker := wk', l_trace := tr', l_todo := rest, l_live := False\<rparr>]\<rparr>)"
| ack_refused: "at_work f k x rest br \<Longrightarrow> l = f_links f ! k \<Longrightarrow> K br env \<Longrightarrow>
    handle_one br env (delivery_of x) (l_worker l) w (l_trace l) = Ret (wk', w', tr', AckRefused) \<Longrightarrow>
    fleet_turn K tag wc f (f\<lparr>f_links := (f_links f)[k :=
        l\<lparr>l_worker := wk', l_trace := tr', l_todo := rest\<rparr>],
      f_answers := f_answers f + mset (turn_answers (l_trace l) tr')\<rparr>)"
| acknowledged: "at_work f k x rest br \<Longrightarrow> l = f_links f ! k \<Longrightarrow> K br env \<Longrightarrow>
    handle_one br env (delivery_of x) (l_worker l) w (l_trace l) = Ret (wk', w', tr', Acknowledged) \<Longrightarrow>
    fleet_turn K tag wc f (f\<lparr>f_links := (f_links f)[k :=
        l\<lparr>l_worker := wk', l_trace := tr', l_todo := rest,
          l_unacked := filter (\<lambda>y. fst y \<noteq> fst x) (l_unacked l)\<rparr>],
      f_settled := f_settled f + {#snd x#},
      f_answers := f_answers f + mset (turn_answers (l_trace l) tr')\<rparr>)"
| finish: "k < length (f_links f) \<Longrightarrow> l = f_links f ! k \<Longrightarrow> \<not> l_open l \<Longrightarrow> l_live l \<Longrightarrow>
    fleet_turn K tag wc f (f\<lparr>f_links := (f_links f)[k := l\<lparr>l_live := False\<rparr>]\<rparr>)"

text \<open>What happens to the fleet: a new message, the loss of a connection, the end of a process.\<close>

definition publish :: "publishing \<Rightarrow> fleet \<Rightarrow> fleet" where
  "publish m f = f\<lparr>f_ready := f_ready f + {#m#}, f_sent := f_sent f + {#m#}\<rparr>"

definition lose :: "nat \<Rightarrow> fleet \<Rightarrow> fleet" where
  "lose k f = f\<lparr>f_ready := f_ready f + unacked_of (f_links f ! k),
     f_links := (f_links f)[k := close_link (f_links f ! k)]\<rparr>"

text \<open>Any run, and a run that meets only brokers and environments of a kind, without such losses.\<close>

inductive fleet_reach :: "string \<Rightarrow> WorkerConfig \<Rightarrow> nat \<Rightarrow> fleet \<Rightarrow> bool" for tag wc n where
  new: "fleet_reach tag wc n (new_fleet n)"
| turn: "fleet_reach tag wc n f \<Longrightarrow> fleet_turn (\<lambda>br env. True) tag wc f f' \<Longrightarrow> fleet_reach tag wc n f'"
| message: "fleet_reach tag wc n f \<Longrightarrow> fleet_reach tag wc n (publish m f)"
| loss: "fleet_reach tag wc n f \<Longrightarrow> k < length (f_links f) \<Longrightarrow> fleet_reach tag wc n (lose k f)"
| killed: "fleet_reach tag wc n f \<Longrightarrow> i < length (f_down f) \<Longrightarrow> fleet_reach tag wc n (crash i f)"

text \<open>A broker that accepts everything, and an environment in which the address can be read.\<close>

definition calm :: "WorkerConfig \<Rightarrow> broker \<Rightarrow> os_env \<Rightarrow> bool" where
  "calm wc br env \<longleftrightarrow> obliging br \<and> (\<exists>u. env_url_parse env (wc_AmqpURI wc) = Inr u)"

inductive calm_reach :: "string \<Rightarrow> WorkerConfig \<Rightarrow> nat \<Rightarrow> fleet \<Rightarrow> bool" for tag wc n where
  new: "calm_reach tag wc n (new_fleet n)"
| turn: "calm_reach tag wc n f \<Longrightarrow> fleet_turn (calm wc) tag wc f f' \<Longrightarrow> calm_reach tag wc n f'"
| message: "calm_reach tag wc n f \<Longrightarrow> calm_reach tag wc n (publish m f)"

section \<open>No message gets lost\<close>

text \<open>Where a message or an answer is addressed to: the queue and the identifier.\<close>

definition addr :: "publishing \<Rightarrow> string \<times> string" where
  "addr m = (p_ReplyTo m, p_CorrelationId m)"

definition answer_addr :: "string \<times> publishing \<Rightarrow> string \<times> string" where
  "answer_addr x = (fst x, p_CorrelationId (snd x))"

lemma answer_addr_turn:
  assumes "handle_one br env (delivery_of x) wk w tr = Ret (wk', w', tr', r)" "\<forall>err. r \<noteq> Unsent err"
  shows "image_mset answer_addr (mset (turn_answers tr tr')) = {#addr (snd x)#}"
  using handle_one_answer [OF assms]
  by (auto simp: answer_addr_def addr_def response_def delivery_of_def to_delivery_def split: prod.splits)

lemma all_unacked_simps [simp]:
  "all_unacked [] = {#}" "all_unacked (l # ls) = unacked_of l + all_unacked ls"
  "all_unacked (ls @ ls') = all_unacked ls + all_unacked ls'"
  by (simp_all add: all_unacked_def)

lemma unacked_of_simps [simp]:
  "unacked_of (close_link l) = {#}" "unacked_of (l\<lparr>l_live := b\<rparr>) = unacked_of l"
  "unacked_of (new_link i wk tr) = {#}"
  by (simp_all add: unacked_of_def close_link_def new_link_def)

lemma all_unacked_update:
  "k < length ls \<Longrightarrow> all_unacked (ls[k := l]) + unacked_of (ls ! k) = all_unacked ls + unacked_of l"
proof (induction ls arbitrary: k)
  case (Cons l0 ls)
  then show ?case by (cases k) (simp_all add: ac_simps)
qed simp

lemma all_unacked_same:
  assumes "k < length ls" "l_unacked l = l_unacked (ls ! k)"
  shows "all_unacked (ls[k := l]) = all_unacked ls"
  using all_unacked_update [OF assms(1), of l] assms(2) by (simp add: unacked_of_def)

lemma all_unacked_close:
  "all_unacked (map (\<lambda>l. if l_owner l = i then (close_link l)\<lparr>l_live := False\<rparr> else l) ls)
     + all_unacked (filter (\<lambda>l. l_owner l = i) ls) = all_unacked ls"
  by (induction ls) (simp_all add: ac_simps)

text \<open>An acknowledgement takes exactly the message of its tag.\<close>

lemma acknowledged_one:
  assumes "(t, m) \<in> set us" "distinct (map fst us)"
  shows "mset (map snd us) = mset (map snd (filter (\<lambda>y. fst y \<noteq> t) us)) + {#m#}"
  using assms
proof (induction us)
  case (Cons u us)
  show ?case
  proof (cases "u = (t, m)")
    case True
    with Cons.prems have "\<forall>y \<in> set us. fst y \<noteq> t" by force
    with True show ?thesis by simp
  next
    case False
    with Cons.prems have "fst u \<noteq> t" by (cases u) (auto simp: rev_image_eqI)
    with False Cons show ?thesis by simp
  qed
qed simp

definition link_ok :: "link \<Rightarrow> bool" where
  "link_ok l \<longleftrightarrow> distinct (map fst (l_unacked l))
     \<and> (if l_open l then distinct (map fst (l_todo l)) \<and> set (l_todo l) \<subseteq> set (l_unacked l)
        else l_unacked l = [])"

definition fleet_inv :: "fleet \<Rightarrow> bool" where
  "fleet_inv f \<longleftrightarrow> f_sent f = f_ready f + all_unacked (f_links f) + f_settled f
     \<and> image_mset addr (f_settled f) \<subseteq># image_mset answer_addr (f_answers f)
     \<and> (\<forall>l \<in> set (f_links f). link_ok l)"

lemma link_ok_close [simp]: "link_ok (close_link l)" "link_ok ((close_link l)\<lparr>l_live := b\<rparr>)"
  by (simp_all add: link_ok_def close_link_def)

lemma link_ok_new [simp]: "link_ok (new_link i wk tr)"
  by (simp add: link_ok_def new_link_def)

lemma fleet_inv_crash:
  assumes "fleet_inv f"
  shows "fleet_inv (crash i f)"
  using assms all_unacked_close [of i "f_links f"]
  by (auto simp: fleet_inv_def crash_def ac_simps)

text \<open>A change of one link that keeps the sum of what is ready, unacknowledged and settled.\<close>

lemma fleet_inv_link:
  assumes "fleet_inv f" "k < length (f_links f)" "link_ok l'" "f_links f' = (f_links f)[k := l']"
    and "f_sent f' = f_sent f"
    and "f_ready f' + unacked_of l' + f_settled f' = f_ready f + unacked_of (f_links f ! k) + f_settled f"
    and "image_mset addr (f_settled f') \<subseteq># image_mset answer_addr (f_answers f')"
  shows "fleet_inv f'"
proof -
  let ?u = "unacked_of (f_links f ! k)" and ?a = "all_unacked (f_links f)"
  have "(f_ready f' + all_unacked (f_links f') + f_settled f') + ?u
      = (f_ready f' + f_settled f') + (all_unacked (f_links f') + ?u)" by (simp add: ac_simps)
  also have "\<dots> = (f_ready f' + f_settled f') + (?a + unacked_of l')"
    using all_unacked_update [OF assms(2), of l'] assms(4) by simp
  also have "\<dots> = ?a + (f_ready f' + unacked_of l' + f_settled f')" by (simp add: ac_simps)
  also have "\<dots> = f_sent f + ?u" using assms(1,6) by (simp add: fleet_inv_def ac_simps)
  finally have "(f_ready f' + all_unacked (f_links f') + f_settled f') + ?u = f_sent f + ?u" .
  then have "f_ready f' + all_unacked (f_links f') + f_settled f' = f_sent f'" using assms(5) by simp
  moreover have "\<forall>l \<in> set (f_links f'). link_ok l"
    using assms(1,3,4) set_update_subset_insert [of "f_links f" k l'] by (auto simp: fleet_inv_def)
  ultimately show ?thesis using assms(7) by (simp add: fleet_inv_def)
qed

lemma fleet_inv_new: "fleet_inv (new_fleet n)"
  by (simp add: fleet_inv_def new_fleet_def)

lemma fleet_turn_inv:
  assumes "fleet_turn K tag wc f f'" "fleet_inv f"
  shows "fleet_inv f'"
  using assms(1)
proof cases
  case (start i br env tr)
  with assms(2) show ?thesis by (auto simp: fleet_inv_def)
next
  case (deliver k l m t)
  have ok: "link_ok l" using assms(2) deliver by (simp add: fleet_inv_def)
  from deliver ok have ok': "link_ok (l\<lparr>l_todo := l_todo l @ [(t, m)], l_unacked := l_unacked l @ [(t, m)]\<rparr>)"
    by (auto simp: link_ok_def)
  with assms(2) deliver show ?thesis
    by (intro fleet_inv_link [where k = k, OF assms(2) _ ok']) (auto simp: unacked_of_def fleet_inv_def ac_simps)
next
  case (unsent k x rest br l env w wk' w' tr' err)
  have ok: "link_ok l" using assms(2) unsent by (simp add: fleet_inv_def at_work_def)
  with unsent have ok': "link_ok (l\<lparr>l_worker := wk', l_trace := tr', l_todo := rest, l_live := False\<rparr>)"
    by (auto simp: link_ok_def at_work_def split: if_splits)
  with assms(2) unsent show ?thesis
    by (intro fleet_inv_link [where k = k, OF assms(2) _ ok']) (auto simp: unacked_of_def fleet_inv_def at_work_def)
next
  case (ack_refused k x rest br l env w wk' w' tr')
  have ok: "link_ok l" using assms(2) ack_refused by (simp add: fleet_inv_def at_work_def)
  with ack_refused have ok': "link_ok (l\<lparr>l_worker := wk', l_trace := tr', l_todo := rest\<rparr>)"
    by (auto simp: link_ok_def at_work_def split: if_splits)
  with assms(2) ack_refused show ?thesis
    by (intro fleet_inv_link [where k = k, OF assms(2) _ ok'])
      (auto simp: unacked_of_def fleet_inv_def at_work_def intro: subset_mset.order_trans)
next
  case (acknowledged k x rest br l env w wk' w' tr')
  have ok: "link_ok l" using assms(2) acknowledged by (simp add: fleet_inv_def at_work_def)
  from acknowledged(5) have "\<not> refuses_all br"
    by (cases rule: handle_oneE) (auto simp: refuses_all_def)
  with acknowledged have o: "l_open l" "l_todo l = x # rest" "k < length (f_links f)" by (auto simp: at_work_def)
  then have x: "(fst x, snd x) \<in> set (l_unacked l)" "distinct (map fst (l_unacked l))"
    "distinct (map fst (l_todo l))" "set (l_todo l) \<subseteq> set (l_unacked l)"
    using ok by (auto simp: link_ok_def)
  have "\<forall>y \<in> set rest. fst y \<noteq> fst x" using x(3) o(2) by (fastforce simp: image_iff)
  with x o have ok': "link_ok (l\<lparr>l_worker := wk', l_trace := tr', l_todo := rest,
      l_unacked := filter (\<lambda>y. fst y \<noteq> fst x) (l_unacked l)\<rparr>)"
    by (auto simp: link_ok_def distinct_map_filter)
  with assms(2) acknowledged o acknowledged_one [OF x(1,2)] answer_addr_turn [OF acknowledged(5)] show ?thesis
    by (intro fleet_inv_link [where k = k, OF assms(2) _ ok'])
      (auto simp: unacked_of_def fleet_inv_def ac_simps)
next
  case (finish k l)
  then have ok': "link_ok (l\<lparr>l_live := False\<rparr>)" using assms(2) by (simp add: fleet_inv_def link_ok_def)
  with assms(2) finish show ?thesis
    by (intro fleet_inv_link [where k = k, OF assms(2) _ ok']) (auto simp: fleet_inv_def)
qed (use fleet_inv_crash [OF assms(2)] in simp_all)

lemma fleet_inv_publish: "fleet_inv f \<Longrightarrow> fleet_inv (publish m f)"
  by (simp add: fleet_inv_def publish_def)

lemma fleet_inv_lose:
  assumes "fleet_inv f" "k < length (f_links f)"
  shows "fleet_inv (lose k f)"
  using assms(1) by (intro fleet_inv_link [OF assms link_ok_close(1)]) (simp_all add: fleet_inv_def lose_def ac_simps)

lemma fleet_reach_inv: "fleet_reach tag wc n f \<Longrightarrow> fleet_inv f"
  by (induction rule: fleet_reach.induct)
    (auto intro: fleet_inv_new fleet_turn_inv fleet_inv_publish fleet_inv_lose fleet_inv_crash)

section \<open>No answer comes from nowhere\<close>

text \<open>An answer to a message: what some worker made of its delivery, for the address that it names.\<close>

definition genuine :: "publishing \<Rightarrow> string \<times> publishing \<Rightarrow> bool" where
  "genuine m x \<longleftrightarrow> fst x = p_ReplyTo m \<and> (\<exists>env wk t w w' wk' res e.
     resultForDelivery env wk (delivery_of (t, m)) w = Ret (w', wk', res, e)
     \<and> snd x = response res (p_CorrelationId m))"

lemma turn_genuine:
  assumes "handle_one br env (delivery_of x) wk w tr = Ret (wk', w', tr', r)" "\<forall>err. r \<noteq> Unsent err"
  shows "\<not> refuses_all br" "\<forall>y \<in> set (turn_answers tr tr'). genuine (snd x) y"
proof -
  obtain t m where x: "x = (t, m)" by (cases x)
  have d: "d_ReplyTo (delivery_of x) = p_ReplyTo m" "d_CorrelationId (delivery_of x) = p_CorrelationId m"
    by (simp_all add: x delivery_of_def to_delivery_def)
  from assms(1) have "\<not> refuses_all br \<and> (\<forall>y \<in> set (turn_answers tr tr'). genuine (snd x) y)"
  proof (cases rule: handle_oneE)
    case (1 res e0 tr1 e)
    with assms(2) have e: "e = None" by (cases e) auto
    with 1(2) have "\<not> refuses_all br"
      by (auto simp: sendRpcResponse_def refuses_all_def amqp_do_def outcome_simps Let_def
          split: if_splits option.splits)
    moreover have "turn_answers tr tr' = [(p_ReplyTo m, response res (p_CorrelationId m))]"
      using sendRpcResponse_trace(2) [OF 1(2) e] 1(5) e d by (simp add: turn_answers_def)
    moreover have "genuine m (p_ReplyTo m, response res (p_CorrelationId m))"
      using 1(1) unfolding x genuine_def fst_conv snd_conv by blast
    ultimately show ?thesis using x by simp
  qed
  then show "\<not> refuses_all br" "\<forall>y \<in> set (turn_answers tr tr'). genuine (snd x) y" by simp_all
qed

lemma at_work_sent:
  assumes "at_work f k x rest br" "\<not> refuses_all br" "fleet_inv f"
  shows "snd x \<in># f_sent f"
proof -
  let ?l = "f_links f ! k"
  from assms(1,2) have k: "k < length (f_links f)" "l_open ?l" "l_todo ?l = x # rest" by (auto simp: at_work_def)
  with assms(3) have "link_ok ?l" by (simp add: fleet_inv_def)
  with k have "x \<in> set (l_unacked ?l)" by (simp add: link_ok_def)
  then have "snd x \<in># unacked_of ?l" by (simp add: unacked_of_def)
  then have "snd x \<in># all_unacked (f_links f)"
    using all_unacked_update [OF k(1), of "close_link ?l"]
    by (metis union_iff unacked_of_simps(1) add_0_right)
  then show ?thesis using assms(3) by (simp add: fleet_inv_def)
qed

lemma turn_all_genuine:
  assumes "fleet_turn K tag wc f f'" "fleet_inv f" "\<forall>y \<in># f_answers f. \<exists>m \<in># f_sent f. genuine m y"
  shows "\<forall>y \<in># f_answers f'. \<exists>m \<in># f_sent f'. genuine m y"
  using assms(1)
proof cases
  case (ack_refused k x rest br l env w wk' w' tr')
  note g = turn_genuine [OF ack_refused(5)]
  have "snd x \<in># f_sent f" using at_work_sent [OF ack_refused(2) _ assms(2)] g(1) by simp
  with ack_refused(1) assms(3) g(2) show ?thesis by auto
next
  case (acknowledged k x rest br l env w wk' w' tr')
  note g = turn_genuine [OF acknowledged(5)]
  have "snd x \<in># f_sent f" using at_work_sent [OF acknowledged(2) _ assms(2)] g(1) by simp
  with acknowledged(1) assms(3) g(2) show ?thesis by auto
qed (use assms(3) in \<open>simp_all add: crash_def\<close>)

lemma fleet_answers_genuine:
  "fleet_reach tag wc n f \<Longrightarrow> \<forall>y \<in># f_answers f. \<exists>m \<in># f_sent f. genuine m y"
proof (induction rule: fleet_reach.induct)
  case (turn f f')
  from turn_all_genuine [OF turn.hyps(2) fleet_reach_inv [OF turn.hyps(1)] turn.IH] show ?case .
next
  case (message f m)
  then show ?case by (auto simp: publish_def)
qed (simp_all add: new_fleet_def lose_def crash_def)

text \<open>For a message with a request the client reads from it what an engine said to that request.\<close>

lemma genuine_engine_answer:
  assumes "genuine m y" "p_Body m = Some (encode_request r)" "wf_request r"
  shows "\<exists>env wc w res. engine_answer env wc r w = Some res
    \<and> unmarshal decode_result (p_Body (snd y)) zero_result = (res, None)
    \<and> p_CorrelationId (snd y) = p_CorrelationId m"
proof -
  from assms(1) obtain env wk t w w' wk' res e where
    "resultForDelivery env wk (delivery_of (t, m)) w = Ret (w', wk', res, e)"
    and y: "snd y = response res (p_CorrelationId m)" by (auto simp: genuine_def)
  moreover have "unmarshal decode_request (d_Body (delivery_of (t, m))) zero_request = (r, None)"
    using unmarshal_request [OF assms(3)] assms(2) by (simp add: delivery_of_def to_delivery_def)
  ultimately have "engine_answer env (w_workerConfig wk) r w = Some res"
    by (auto simp: resultForDelivery_def engine_answer_def outcome_simps split: outcome.splits option.splits)
  moreover have "unmarshal decode_result (p_Body (snd y)) zero_result = (res, None)"
    unfolding y by (rule response_readback)
  moreover have "p_CorrelationId (snd y) = p_CorrelationId m" unfolding y by (simp add: response_def)
  ultimately show ?thesis by blast
qed

end
