(* ===== verification/Ocr_Fleet_Runs.thy ===== *)
theory Ocr_Fleet_Runs
  imports Ocr_Fleet
begin

text \<open>
  The runs of the fleet of OCR workers: runs without losses, which come to rest, and how; and the
  properties of the fleet, also with losses, and of a client that it answers.
\<close>

section \<open>The fleet without losses\<close>

definition poison :: "publishing \<Rightarrow> bool" where
  "poison m \<longleftrightarrow> (\<exists>r. wf_request r \<and> EngineType r \<notin> {EngineMock, EngineTesseract, EngineSandwichTesseract}
     \<and> p_Body m = Some (encode_request r))"

definition safe_message :: "publishing \<Rightarrow> bool" where
  "safe_message m \<longleftrightarrow> safe_delivery (to_delivery m)"

lemma handle_one_poison:
  assumes "poison (snd x)"
  shows "panics (handle_one br env (delivery_of x) wk w tr)"
proof -
  from assms obtain r where r: "wf_request r" "p_Body (snd x) = Some (encode_request r)"
    "EngineType r \<notin> {EngineMock, EngineTesseract, EngineSandwichTesseract}" by (auto simp: poison_def)
  have "d_Body (delivery_of x) = Some (encode_request r)"
    using r(2) by (cases x) (simp add: delivery_of_def to_delivery_def)
  from unknown_engine_panics [OF r(1,3) this, of br env "[]" wk w tr] show ?thesis
    by (cases "handle_one br env (delivery_of x) wk w tr") (auto simp: w_handle_turns simp del: w_handle.simps(2) split: turn_end.splits)
qed

text \<open>With a broker that accepts everything a turn ends with the acknowledgement, or in a panic.\<close>

lemma handle_one_calm:
  assumes "handle_one br env d wk w tr = Ret (wk', w', tr', r)" "calm wc br env"
    and "\<not> wc_Reliable (w_workerConfig wk)"
  shows "r = Acknowledged" "\<not> wc_Reliable (w_workerConfig wk')"
proof -
  have ob: "obliging br" using assms(2) by (simp add: calm_def)
  from assms(1) show "\<not> wc_Reliable (w_workerConfig wk')"
  proof (cases rule: handle_oneE)
    case (1 res e0 tr1 e)
    from resultForDelivery_routing(1) [OF 1(1)] assms(3) show ?thesis by (simp add: same_routing_def)
  qed
  from assms(1) show "r = Acknowledged"
  proof (cases rule: handle_oneE)
    case (1 res e0 tr1 e)
    from 1(2) ob \<open>\<not> wc_Reliable (w_workerConfig wk')\<close> have "e = None"
      by (simp add: sendRpcResponse_def Let_def)
    with 1(4) ob show ?thesis by (simp add: obliging_def)
  qed
qed

lemma handle_one_safe:
  assumes "safe_message (snd x)" "\<not> wc_Reliable (w_workerConfig wk)"
  shows "\<not> panics (handle_one br env (delivery_of x) wk w tr)"
proof -
  have "safe_delivery (delivery_of x)"
    using assms(1) by (auto simp: safe_message_def safe_delivery_def delivery_of_def split: prod.splits)
  with w_handle_total [of "[delivery_of x]" wk br env w tr] assms(2) show ?thesis
    by (cases "handle_one br env (delivery_of x) wk w tr") (simp_all add: w_handle_turns del: w_handle.simps(2))
qed

lemma w_Run_calm: "calm wc br env \<Longrightarrow> \<exists>tr. w_Run env br (fst (NewOcrRpcWorker tag wc)) [] = Ret (tr, None)"
  by (auto simp: calm_def w_Run_def Let_def NewOcrRpcWorker_def)

definition calm_link :: "bool list \<Rightarrow> link \<Rightarrow> bool" where
  "calm_link down l \<longleftrightarrow> l_owner l < length down \<and> \<not> wc_Reliable (w_workerConfig (l_worker l))
     \<and> (if l_live l then l_open l \<and> \<not> down ! l_owner l \<and> l_todo l = l_unacked l else \<not> l_open l)"

definition calm_inv :: "nat \<Rightarrow> fleet \<Rightarrow> bool" where
  "calm_inv n f \<longleftrightarrow> fleet_inv f \<and> length (f_down f) = n
     \<and> image_mset addr (f_settled f) = image_mset answer_addr (f_answers f)
     \<and> (\<forall>l \<in> set (f_links f). calm_link (f_down f) l)"

lemma calm_inv_new: "calm_inv n (new_fleet n)"
  using fleet_inv_new [of n] by (simp add: calm_inv_def new_fleet_def)

lemma calm_link_crash:
  "calm_link down l \<Longrightarrow> calm_link (down[i := True]) (if l_owner l = i then (close_link l)\<lparr>l_live := False\<rparr> else l)"
  by (auto simp: calm_link_def close_link_def)

lemma calm_inv_crash:
  assumes "calm_inv n f"
  shows "calm_inv n (crash i f)"
proof -
  have "\<forall>l \<in> set (f_links f). calm_link ((f_down f)[i := True])
      (if l_owner l = i then (close_link l)\<lparr>l_live := False\<rparr> else l)"
    using assms calm_link_crash by (auto simp only: calm_inv_def)
  then have "\<forall>l \<in> set (f_links (crash i f)). calm_link (f_down (crash i f)) l"
    by (auto simp: crash_def split: if_splits)
  then show ?thesis using assms fleet_inv_crash [of f i] by (simp add: calm_inv_def) (simp add: crash_def)
qed

lemma calm_inv_link:
  assumes "calm_inv n f" "k < length (f_links f)" "calm_link (f_down f) l'"
    and "f_links f' = (f_links f)[k := l']" "f_down f' = f_down f" "fleet_inv f'"
    and "image_mset addr (f_settled f') = image_mset answer_addr (f_answers f')"
  shows "calm_inv n f'"
  using assms set_update_subset_insert [of "f_links f" k l'] by (auto simp: calm_inv_def)

text \<open>In a live link the head of the channel is the oldest unacknowledged message.\<close>

lemma calm_ack:
  assumes "link_ok l" "calm_link down l" "l_live l" "l_todo l = x # rest"
  shows "filter (\<lambda>y. fst y \<noteq> fst x) (l_unacked l) = rest"
proof -
  have u: "l_unacked l = x # rest" using assms by (simp add: calm_link_def)
  with assms(1) have "fst x \<notin> fst ` set rest" by (simp add: link_ok_def)
  then have "\<forall>y \<in> set rest. fst y \<noteq> fst x" by (auto simp: image_iff)
  with u show ?thesis by simp
qed

lemma calm_turn_cases:
  assumes "fleet_turn (calm wc) tag wc f f'" "calm_inv n f" "\<not> wc_Reliable wc"
  obtains (start) i tr where "between_workers f i"
      "f' = f\<lparr>f_links := f_links f @ [new_link i (fst (NewOcrRpcWorker tag wc)) tr]\<rparr>"
  | (deliver) k m t where "k < length (f_links f)" "l_open (f_links f ! k)" "m \<in># f_ready f"
      "f' = f\<lparr>f_ready := f_ready f - {#m#}, f_links := (f_links f)[k := (f_links f ! k)
        \<lparr>l_todo := l_todo (f_links f ! k) @ [(t, m)], l_unacked := l_unacked (f_links f ! k) @ [(t, m)]\<rparr>]\<rparr>"
  | (panic) k x rest br env w where "k < length (f_links f)" "l_live (f_links f ! k)"
      "l_todo (f_links f ! k) = x # rest" "f' = crash (l_owner (f_links f ! k)) f"
      "panics (handle_one br env (delivery_of x) (l_worker (f_links f ! k)) w (l_trace (f_links f ! k)))"
  | (acknowledged) k x rest br env w wk' w' tr' where "k < length (f_links f)" "l_live (f_links f ! k)"
      "l_todo (f_links f ! k) = x # rest" "calm wc br env"
      "handle_one br env (delivery_of x) (l_worker (f_links f ! k)) w (l_trace (f_links f ! k))
        = Ret (wk', w', tr', Acknowledged)"
      "\<not> wc_Reliable (w_workerConfig wk')"
      "f' = f\<lparr>f_links := (f_links f)[k := (f_links f ! k)\<lparr>l_worker := wk', l_trace := tr', l_todo := rest,
          l_unacked := rest\<rparr>], f_settled := f_settled f + {#snd x#},
        f_answers := f_answers f + mset (turn_answers (l_trace (f_links f ! k)) tr')\<rparr>"
  using assms(1)
proof cases
  case (start i br env tr)
  then show ?thesis by (intro that(1) [of i tr])
next
  case (no_start i br env)
  with w_Run_calm [of wc br env tag] show ?thesis by blast
next
  case (deliver k l m t)
  then show ?thesis by (intro that(2) [of k m t]) simp_all
next
  case (panic k x rest br l env w)
  then show ?thesis by (intro that(3) [of k x rest br env w]) (simp_all add: at_work_def)
next
  case (unsent k x rest br l env w wk' w' tr' err)
  have "\<not> wc_Reliable (w_workerConfig (l_worker l))"
    using assms(2) unsent by (auto simp: calm_inv_def calm_link_def at_work_def)
  from handle_one_calm(1) [OF unsent(5,4) this] show ?thesis by simp
next
  case (ack_refused k x rest br l env w wk' w' tr')
  have "\<not> wc_Reliable (w_workerConfig (l_worker l))"
    using assms(2) ack_refused by (auto simp: calm_inv_def calm_link_def at_work_def)
  from handle_one_calm(1) [OF ack_refused(5,4) this] show ?thesis by simp
next
  case (acknowledged k x rest br l env w wk' w' tr')
  then have k: "k < length (f_links f)" "l_live l" "l_todo l = x # rest" by (simp_all add: at_work_def)
  then have l: "link_ok l" "calm_link (f_down f) l"
    using assms(2) acknowledged(3) by (simp_all add: calm_inv_def fleet_inv_def)
  then have "\<not> wc_Reliable (w_workerConfig (l_worker l))" by (simp add: calm_link_def)
  from handle_one_calm(2) [OF acknowledged(5,4) this] calm_ack [OF l k(2,3)] k acknowledged show ?thesis
    by (intro that(4) [of k x rest br env w wk' w' tr']) simp_all
next
  case (finish k l)
  then show ?thesis using assms(2) by (auto simp: calm_inv_def calm_link_def)
qed

lemma calm_turn_inv:
  assumes "fleet_turn (calm wc) tag wc f f'" "calm_inv n f" "\<not> wc_Reliable wc"
  shows "calm_inv n f'"
proof -
  have inv: "fleet_inv f'" using fleet_turn_inv [OF assms(1)] assms(2) by (simp add: calm_inv_def)
  from assms show ?thesis
  proof (cases rule: calm_turn_cases)
    case (start i tr)
    have "\<not> wc_Reliable (w_workerConfig (fst (NewOcrRpcWorker tag wc)))"
      using assms(3) by (simp add: NewOcrRpcWorker_def)
    with start assms(2) inv show ?thesis
      by (auto simp: calm_inv_def calm_link_def new_link_def between_workers_def)
  next
    case (deliver k m t)
    have "calm_link (f_down f) (f_links f ! k)" using assms(2) deliver by (simp add: calm_inv_def)
    with deliver have "calm_link (f_down f) ((f_links f ! k)\<lparr>l_todo := l_todo (f_links f ! k) @ [(t, m)],
        l_unacked := l_unacked (f_links f ! k) @ [(t, m)]\<rparr>)"
      by (auto simp: calm_link_def split: if_splits)
    from calm_inv_link [OF assms(2) deliver(1) this _ _ inv] deliver(4) assms(2) show ?thesis
      by (simp add: calm_inv_def)
  next
    case (panic k x rest br env w)
    then show ?thesis using calm_inv_crash [OF assms(2)] by simp
  next
    case (acknowledged k x rest br env w wk' w' tr')
    have "calm_link (f_down f) (f_links f ! k)" using assms(2) acknowledged by (simp add: calm_inv_def)
    with acknowledged have "calm_link (f_down f) ((f_links f ! k)\<lparr>l_worker := wk', l_trace := tr', l_todo := rest,
        l_unacked := rest\<rparr>)"
      by (auto simp: calm_link_def split: if_splits)
    from calm_inv_link [OF assms(2) acknowledged(1) this _ _ inv] acknowledged(7) assms(2)
      answer_addr_turn [OF acknowledged(5)] show ?thesis
      by (simp add: calm_inv_def)
  qed
qed

lemma calm_reach_inv:
  assumes "calm_reach tag wc n f" "\<not> wc_Reliable wc"
  shows "calm_inv n f"
  using assms(1)
proof (induction rule: calm_reach.induct)
  case (turn f f')
  then show ?case using calm_turn_inv assms(2) by blast
next
  case (message f m)
  then show ?case using fleet_inv_publish [of f m] by (simp add: calm_inv_def publish_def)
qed (rule calm_inv_new)

section \<open>Every run without losses comes to rest\<close>

text \<open>
  What a turn uses up: processes, or messages that are not settled, or workers to be created and
  messages to be delivered.
\<close>

definition ups :: "fleet \<Rightarrow> nat" where
  "ups f = card {i. i < length (f_down f) \<and> \<not> f_down f ! i}"

definition open_messages :: "fleet \<Rightarrow> nat" where
  "open_messages f = size (f_ready f) + size (all_unacked (f_links f))"

definition pending_steps :: "fleet \<Rightarrow> nat" where
  "pending_steps f = card {i. between_workers f i} + size (f_ready f)"

definition fleet_rank :: "(fleet \<times> fleet) set" where
  "fleet_rank = measures [ups, open_messages, pending_steps]"

lemma between_workers_finite [simp]: "finite {i. between_workers f i}"
  by (rule finite_subset [of _ "{..<length (f_down f)}"]) (auto simp: between_workers_def)

lemma between_workers_link:
  assumes "k < length ls" "l_owner l = l_owner (ls ! k)" "l_live l = l_live (ls ! k)" "f_links f = ls"
    and "f_links f' = ls[k := l]" "f_down f' = f_down f"
  shows "between_workers f' i = between_workers f i"
proof -
  have "l_owner (ls[k := l] ! j) = l_owner (ls ! j) \<and> l_live (ls[k := l] ! j) = l_live (ls ! j)" for j
    using assms(1-3) by (cases "j = k") simp_all
  then show ?thesis using assms(4-6) by (simp add: between_workers_def all_set_conv_all_nth)
qed

lemma ups_crash:
  assumes "i < length (f_down f)" "\<not> f_down f ! i"
  shows "ups (crash i f) < ups f"
  unfolding ups_def using assms
  by (intro psubset_card_mono) (auto simp: crash_def nth_list_update split: if_splits)

lemma turn_uses_up:
  assumes "fleet_turn (calm wc) tag wc f f'" "calm_inv n f" "\<not> wc_Reliable wc"
  shows "(f', f) \<in> fleet_rank"
  using assms
proof (cases rule: calm_turn_cases)
  case (start i tr)
  have "{j. between_workers f' j} \<subset> {j. between_workers f j}"
    using start by (auto simp: between_workers_def new_link_def)
  then have "card {j. between_workers f' j} < card {j. between_workers f j}"
    by (intro psubset_card_mono) simp_all
  with start show ?thesis
    by (simp add: fleet_rank_def ups_def open_messages_def pending_steps_def)
next
  case (deliver k m t)
  let ?l = "(f_links f ! k)\<lparr>l_todo := l_todo (f_links f ! k) @ [(t, m)],
      l_unacked := l_unacked (f_links f ! k) @ [(t, m)]\<rparr>"
  have "all_unacked (f_links f') + unacked_of (f_links f ! k)
      = all_unacked (f_links f) + unacked_of (f_links f ! k) + {#m#}"
    using all_unacked_update [OF deliver(1), of ?l] deliver(4) by (simp add: unacked_of_def)
  then have "all_unacked (f_links f') = all_unacked (f_links f) + {#m#}" by simp
  moreover have "size (f_ready f) = Suc (size (f_ready f'))"
    using deliver(3,4) by (simp add: size_Suc_Diff1)
  moreover have "between_workers f' i = between_workers f i" for i
    using between_workers_link [OF deliver(1), of ?l f f'] deliver(4) by simp
  ultimately show ?thesis using deliver(4)
    by (simp add: fleet_rank_def ups_def open_messages_def pending_steps_def)
next
  case (panic k x rest br env w)
  then have "calm_link (f_down f) (f_links f ! k)" using assms(2) by (simp add: calm_inv_def)
  with panic ups_crash [of "l_owner (f_links f ! k)" f] show ?thesis
    by (simp add: fleet_rank_def calm_link_def)
next
  case (acknowledged k x rest br env w wk' w' tr')
  let ?l = "(f_links f ! k)\<lparr>l_worker := wk', l_trace := tr', l_todo := rest, l_unacked := rest\<rparr>"
  have "l_unacked (f_links f ! k) = x # rest"
    using acknowledged(1-3) assms(2) by (auto simp: calm_inv_def calm_link_def)
  then have "all_unacked (f_links f') + {#snd x#} = all_unacked (f_links f)"
    using all_unacked_update [OF acknowledged(1), of ?l] acknowledged(7)
    by (simp add: unacked_of_def)
  then have "Suc (size (all_unacked (f_links f'))) = size (all_unacked (f_links f))"
    by (metis size_add_mset add_mset_add_single)
  with acknowledged(7) show ?thesis
    by (simp add: fleet_rank_def ups_def open_messages_def)
qed

lemma fleet_rank_wf: "wf fleet_rank"
  by (simp add: fleet_rank_def)

section \<open>At rest\<close>

definition at_rest :: "string \<Rightarrow> WorkerConfig \<Rightarrow> fleet \<Rightarrow> bool" where
  "at_rest tag wc f \<longleftrightarrow> (\<forall>f'. \<not> fleet_turn (calm wc) tag wc f f')"

lemma calm_sample: "calm wc willing_broker sample_env"
  by (simp add: calm_def obliging_willing sample_env_def)

lemma at_restI:
  assumes "\<forall>i. \<not> between_workers f i" "f_ready f = {#} \<or> (\<forall>l \<in> set (f_links f). \<not> l_open l)"
    and "\<forall>l \<in> set (f_links f). l_live l \<longrightarrow> l_open l \<and> l_todo l = []"
  shows "at_rest tag wc f"
  unfolding at_rest_def
proof (intro allI notI)
  fix f'
  assume "fleet_turn (calm wc) tag wc f f'"
  moreover have idle: "\<not> at_work f k x rest br" for k x rest br
    using assms(3) by (auto simp: at_work_def)
  ultimately show False
  proof cases
    case (deliver k l m t)
    then have "l \<in> set (f_links f)" by simp
    with assms(2) deliver(4,6) show ?thesis by auto
  next
    case (finish k l)
    then have "l \<in> set (f_links f)" by simp
    with assms(3) finish(4,5) show ?thesis by blast
  qed (use assms(1) idle in blast)+
qed

text \<open>A worker at rest has nothing to do, and neither has the queue unless all processes are down.\<close>

lemma rest_todo:
  assumes "at_rest tag wc f" "calm_inv n f" "l \<in> set (f_links f)"
  shows "l_unacked l = []"
proof (cases "l_live l")
  case True
  from assms(3) obtain k where k: "k < length (f_links f)" "f_links f ! k = l" by (auto simp: in_set_conv_nth)
  have l: "calm_link (f_down f) l" using assms(2,3) by (simp add: calm_inv_def)
  show ?thesis
  proof (rule ccontr)
    assume "l_unacked l \<noteq> []"
    then obtain x rest where x: "l_todo l = x # rest"
      using l True by (cases "l_unacked l") (auto simp: calm_link_def)
    with l True k have work: "at_work f k x rest willing_broker" by (simp add: at_work_def calm_link_def)
    show False
    proof (cases "handle_one willing_broker sample_env (delivery_of x) (l_worker l) sample_world (l_trace l)")
      case (Panic m)
      then have "panics (handle_one willing_broker sample_env (delivery_of x) (l_worker l) sample_world (l_trace l))"
        by simp
      from fleet_turn.panic [where K = "calm wc", OF work k(2) [symmetric] calm_sample this] assms(1) show False
        by (auto simp: at_rest_def)
    next
      case (Ret y)
      obtain wk' w' tr' r where y: "y = (wk', w', tr', r)" by (cases y)
      have "r = Acknowledged"
        using handle_one_calm(1) [OF _ calm_sample] Ret y l by (auto simp: calm_link_def)
      with Ret y have "handle_one willing_broker sample_env (delivery_of x) (l_worker l) sample_world (l_trace l)
          = Ret (wk', w', tr', Acknowledged)" by simp
      from fleet_turn.acknowledged [where K = "calm wc", OF work k(2) [symmetric] calm_sample this] assms(1) show False
        by (auto simp: at_rest_def)
    qed
  qed
next
  case False
  then show ?thesis using assms(2,3) by (auto simp: calm_inv_def fleet_inv_def calm_link_def link_ok_def)
qed

lemma rest_ready:
  assumes "at_rest tag wc f" "calm_inv n f" "i < n" "\<not> f_down f ! i"
  shows "f_ready f = {#}"
proof (rule ccontr)
  assume "f_ready f \<noteq> {#}"
  then obtain m where m: "m \<in># f_ready f" by blast
  have n: "length (f_down f) = n" using assms(2) by (simp add: calm_inv_def)
  obtain tr where "w_Run sample_env willing_broker (fst (NewOcrRpcWorker tag wc)) [] = Ret (tr, None)"
    using w_Run_calm [OF calm_sample] by blast
  from fleet_turn.start [where K = "calm wc", OF _ calm_sample this] assms(1) have "\<not> between_workers f i"
    by (auto simp: at_rest_def)
  with assms(3,4) n obtain l where l: "l \<in> set (f_links f)" "l_live l" by (auto simp: between_workers_def)
  then obtain k where k: "k < length (f_links f)" "l = f_links f ! k" by (auto simp: in_set_conv_nth)
  have "l_unacked l = []" using rest_todo [OF assms(1,2) l(1)] .
  moreover from this have "has_room l"
    by (simp add: has_room_def Let_def) (rule disjCI, simp)
  moreover have "l_open l" using assms(2) l by (auto simp: calm_inv_def calm_link_def split: if_splits)
  ultimately show False
    using fleet_turn.deliver [where K = "calm wc" and t = 0, OF k _ _ m] assms(1) by (auto simp: at_rest_def)
qed

lemma rest_unacked: "at_rest tag wc f \<Longrightarrow> calm_inv n f \<Longrightarrow> all_unacked (f_links f) = {#}"
proof -
  assume rest: "at_rest tag wc f" "calm_inv n f"
  have "\<forall>l \<in> set ls. unacked_of l = {#} \<Longrightarrow> all_unacked ls = {#}" for ls by (induction ls) simp_all
  then show ?thesis using rest_todo [OF rest] by (simp add: unacked_of_def)
qed

text \<open>Safe messages end no process; a poisonous one is never settled.\<close>

lemma safe_turn:
  assumes "fleet_turn (calm wc) tag wc f f'" "calm_inv n f" "\<not> wc_Reliable wc" "\<forall>m \<in># f_sent f. safe_message m"
  shows "f_down f' = f_down f" "f_sent f' = f_sent f"
proof -
  have "f_down f' = f_down f \<and> f_sent f' = f_sent f" using assms(1-3)
  proof (cases rule: calm_turn_cases)
    case (panic k x rest br env w)
    have l: "calm_link (f_down f) (f_links f ! k)" using assms(2) panic by (simp add: calm_inv_def)
    with panic have "at_work f k x rest willing_broker" by (simp add: at_work_def calm_link_def)
    moreover have "\<not> refuses_all willing_broker" by (simp add: refuses_all_def willing_broker_def)
    ultimately have "snd x \<in># f_sent f" using at_work_sent assms(2) by (auto simp: calm_inv_def)
    then have "safe_message (snd x)" using assms(4) by simp
    from handle_one_safe [OF this, of "l_worker (f_links f ! k)" br env w "l_trace (f_links f ! k)"] l panic(5)
    show ?thesis by (simp add: calm_link_def)
  qed simp_all
  then show "f_down f' = f_down f" "f_sent f' = f_sent f" by simp_all
qed

lemma safe_fleet_up:
  assumes "calm_reach tag wc n f" "\<not> wc_Reliable wc" "\<forall>m \<in># f_sent f. safe_message m"
  shows "f_down f = replicate n False"
  using assms(1,3)
proof (induction rule: calm_reach.induct)
  case (turn f f')
  have "f_sent f' = f_sent f" using turn.hyps(2)
    by (cases rule: fleet_turn.cases) (simp_all add: crash_def)
  with turn safe_turn(1) [OF turn.hyps(2) calm_reach_inv [OF turn.hyps(1) assms(2)] assms(2)] show ?case by simp
qed (simp_all add: new_fleet_def publish_def)

lemma poison_turn:
  assumes "fleet_turn K tag wc f f'" "poison m" "m \<notin># f_settled f"
  shows "m \<notin># f_settled f'"
  using assms(1)
proof cases
  case (acknowledged k x rest br l env w wk' w' tr')
  have "\<not> poison (snd x)"
    using handle_one_poison [of x br env "l_worker l" w "l_trace l"] acknowledged(5) by auto
  with acknowledged assms(2,3) show ?thesis by auto
qed (use assms(3) in \<open>simp_all add: crash_def\<close>)

lemma poison_stays: "fleet_reach tag wc n f \<Longrightarrow> poison m \<Longrightarrow> m \<notin># f_settled f"
  by (induction rule: fleet_reach.induct)
    (auto simp: new_fleet_def publish_def lose_def crash_def dest: poison_turn)

lemma fleet_turn_mono:
  assumes "fleet_turn K tag wc f f'"
  shows "fleet_turn (\<lambda>br env. True) tag wc f f'"
  using assms by (induction rule: fleet_turn.induct) (blast intro: fleet_turn.intros)+

lemma calm_reach_fleet_reach: "calm_reach tag wc n f \<Longrightarrow> fleet_reach tag wc n f"
  by (induction rule: calm_reach.induct) (blast intro: fleet_reach.intros fleet_turn_mono)+

section \<open>One process and one message\<close>

definition fleet_message :: "OcrEngineType \<Rightarrow> string \<Rightarrow> publishing" where
  "fleet_message e i =
     \<lparr>p_ContentType = ''text/plain'', p_Body = Some (encode_request (zero_request\<lparr>EngineType := e, RequestID := i\<rparr>)),
      p_DeliveryMode = Transient, p_Priority = 0, p_ReplyTo = i, p_CorrelationId = i\<rparr>"

lemma fleet_message_safe: "safe_message (fleet_message EngineMock i)"
proof -
  have "to_delivery (fleet_message EngineMock i) = mock_delivery i 1"
    by (simp add: to_delivery_def fleet_message_def mock_delivery_def)
  then show ?thesis by (simp add: safe_message_def mock_delivery_safe)
qed

lemma fleet_message_poison: "poison (fleet_message EngineGoTesseract i)"
  unfolding poison_def
  by (intro exI [of _ "zero_request\<lparr>EngineType := EngineGoTesseract, RequestID := i\<rparr>"])
    (simp add: fleet_message_def wf_request_def zero_request_def engine_type_defs)

lemma sample_worker_unreliable: "\<not> wc_Reliable DefaultWorkerConfig" "\<not> wc_Reliable (w_workerConfig sample_worker)"
  by (simp_all add: sample_worker_def NewOcrRpcWorker_def DefaultWorkerConfig_def)

definition one_message :: "link \<Rightarrow> bool \<Rightarrow> publishing \<Rightarrow> fleet" where
  "one_message l b m = \<lparr>f_ready = (if b then {#m#} else {#}), f_links = [l], f_down = [b], f_sent = {#m#},
     f_settled = {#}, f_answers = {#}\<rparr>"

lemma one_delivered:
  obtains l where "calm_reach ''t'' DefaultWorkerConfig 1 (one_message l False m)"
    "l_worker l = sample_worker" "l_todo l = [(1, m)]" "l_unacked l = [(1, m)]" "l_open l" "l_live l" "l_owner l = 0"
proof -
  let ?f = "publish m (new_fleet 1)" and ?wc = DefaultWorkerConfig
  obtain tr where r: "w_Run sample_env willing_broker (fst (NewOcrRpcWorker ''t'' ?wc)) [] = Ret (tr, None)"
    using w_Run_calm [OF calm_sample] by blast
  have f: "calm_reach ''t'' ?wc 1 ?f" by (rule calm_reach.message [OF calm_reach.new])
  have "between_workers ?f 0" by (simp add: between_workers_def publish_def new_fleet_def)
  from fleet_turn.start [where K = "calm ?wc", OF this calm_sample r]
  have 1: "calm_reach ''t'' ?wc 1 (?f\<lparr>f_links := [new_link 0 sample_worker tr]\<rparr>)"
    using calm_reach.turn [OF f] by (simp add: publish_def new_fleet_def sample_worker_def)
  let ?l = "(new_link 0 sample_worker tr)\<lparr>l_todo := [(1, m)], l_unacked := [(1, m)]\<rparr>"
  have "has_room (new_link 0 sample_worker tr)"
    by (simp add: has_room_def new_link_def sample_worker_def NewOcrRpcWorker_def DefaultWorkerConfig_def)
  then have "fleet_turn (calm ?wc) ''t'' ?wc (?f\<lparr>f_links := [new_link 0 sample_worker tr]\<rparr>) (one_message ?l False m)"
    using fleet_turn.deliver [where f = "?f\<lparr>f_links := [new_link 0 sample_worker tr]\<rparr>" and k = 0
        and l = "new_link 0 sample_worker tr" and m = m and t = 1 and K = "calm ?wc" and tag = "''t''" and wc = ?wc]
    by (simp add: publish_def new_fleet_def one_message_def) (simp add: new_link_def)
  from calm_reach.turn [OF 1 this] show thesis
    by (rule that) (simp_all add: new_link_def)
qed

text \<open>The mock engine answers, and an engine that does not exist ends the process.\<close>

definition mock_message :: "publishing \<Rightarrow> bool" where
  "mock_message m \<longleftrightarrow> (\<exists>r. wf_request r \<and> EngineType r = EngineMock \<and> p_Body m = Some (encode_request r))"

lemma fleet_message_is_mock: "mock_message (fleet_message EngineMock i)"
  unfolding mock_message_def
  by (intro exI [of _ "zero_request\<lparr>EngineType := EngineMock, RequestID := i\<rparr>"])
    (simp add: fleet_message_def wf_request_def zero_request_def engine_type_defs)

lemma mock_message_handled:
  assumes "mock_message m" "\<not> wc_Reliable (w_workerConfig wk)"
  obtains tr' where "handle_one willing_broker env (delivery_of (t, m)) wk w tr = Ret (wk, w, tr', Acknowledged)"
    "turn_answers tr tr' = [(p_ReplyTo m, response (zero_result\<lparr>Text := MockEngineResponse\<rparr>) (p_CorrelationId m))]"
proof -
  from assms(1) obtain r where r: "wf_request r" "EngineType r = EngineMock" "p_Body m = Some (encode_request r)"
    by (auto simp: mock_message_def)
  have "unmarshal decode_request (d_Body (delivery_of (t, m))) zero_request = (r, None)"
    using unmarshal_request [OF r(1)] r(3) by (simp add: delivery_of_def to_delivery_def)
  then have res: "resultForDelivery env wk (delivery_of (t, m)) w
      = Ret (w, wk, zero_result\<lparr>Text := MockEngineResponse\<rparr>, None)"
    using r(2) by (simp add: resultForDelivery_def ProcessRequest_def NewOcrEngine_def mock_ProcessRequest_def)
  have d: "d_ReplyTo (delivery_of (t, m)) = p_ReplyTo m" "d_CorrelationId (delivery_of (t, m)) = p_CorrelationId m"
    by (simp_all add: delivery_of_def to_delivery_def)
  let ?p = "response (zero_result\<lparr>Text := MockEngineResponse\<rparr>) (p_CorrelationId m)"
  let ?tr' = "tr @ [Publish (wc_Exchange (w_workerConfig wk)) (p_ReplyTo m) False False ?p,
      Ack (d_DeliveryTag (delivery_of (t, m))) False]"
  have "handle_one willing_broker env (delivery_of (t, m)) wk w tr = Ret (wk, w, ?tr', Acknowledged)"
    using assms(2) obliging_willing by (simp add: handle_one_def res sendRpcResponse_def Let_def d)
  moreover have "turn_answers tr ?tr' = [(p_ReplyTo m, ?p)]" by (simp add: turn_answers_def)
  ultimately show thesis by (rule that)
qed

lemma one_settled:
  assumes "mock_message m"
  obtains f where "calm_reach ''t'' DefaultWorkerConfig 1 f" "at_rest ''t'' DefaultWorkerConfig f"
    "f_sent f = {#m#}" "f_ready f = {#}"
    "f_answers f = {#(p_ReplyTo m, response (zero_result\<lparr>Text := MockEngineResponse\<rparr>) (p_CorrelationId m))#}"
proof -
  let ?wc = DefaultWorkerConfig
  obtain l where l: "calm_reach ''t'' ?wc 1 (one_message l False m)"
    "l_worker l = sample_worker" "l_todo l = [(1, m)]" "l_unacked l = [(1, m)]" "l_open l" "l_live l" "l_owner l = 0"
    using one_delivered by blast
  have work: "at_work (one_message l False m) 0 (1, m) [] willing_broker"
    using l by (simp add: at_work_def one_message_def)
  obtain tr' where h: "handle_one willing_broker sample_env (delivery_of (1, m)) (l_worker l) sample_world (l_trace l)
      = Ret (l_worker l, sample_world, tr', Acknowledged)"
    and ans: "turn_answers (l_trace l) tr'
      = [(p_ReplyTo m, response (zero_result\<lparr>Text := MockEngineResponse\<rparr>) (p_CorrelationId m))]"
    using mock_message_handled [OF assms] sample_worker_unreliable(2) l(2) by metis
  let ?f = "\<lparr>f_ready = {#}, f_links = [l\<lparr>l_trace := tr', l_todo := [], l_unacked := []\<rparr>],
      f_down = [False], f_sent = {#m#}, f_settled = {#m#}, f_answers = mset (turn_answers (l_trace l) tr')\<rparr>"
  have "l = f_links (one_message l False m) ! 0" by (simp add: one_message_def)
  from fleet_turn.acknowledged [where K = "calm ?wc" and tag = "''t''" and wc = ?wc, OF work this calm_sample h]
  have "fleet_turn (calm ?wc) ''t'' ?wc (one_message l False m) ?f"
    using l(4) by (simp add: one_message_def)
  from calm_reach.turn [OF l(1) this] have "calm_reach ''t'' ?wc 1 ?f" .
  moreover have "at_rest ''t'' ?wc ?f"
    using l(5-7) by (intro at_restI) (auto simp: between_workers_def less_Suc_eq)
  ultimately show thesis using that [of ?f] ans by simp
qed

lemma one_poisoned:
  obtains f where "calm_reach ''t'' DefaultWorkerConfig 1 f" "at_rest ''t'' DefaultWorkerConfig f"
    "f_sent f = {#fleet_message EngineGoTesseract i#}"
proof -
  let ?m = "fleet_message EngineGoTesseract i" and ?wc = DefaultWorkerConfig
  obtain l where l: "calm_reach ''t'' ?wc 1 (one_message l False ?m)"
    "l_worker l = sample_worker" "l_todo l = [(1, ?m)]" "l_unacked l = [(1, ?m)]" "l_open l" "l_live l" "l_owner l = 0"
    using one_delivered by blast
  have work: "at_work (one_message l False ?m) 0 (1, ?m) [] willing_broker"
    using l by (simp add: at_work_def one_message_def)
  have h: "panics (handle_one willing_broker sample_env (delivery_of (1, ?m)) (l_worker l) sample_world (l_trace l))"
    by (rule handle_one_poison) (simp add: fleet_message_poison)
  have "l = f_links (one_message l False ?m) ! 0" by (simp add: one_message_def)
  from fleet_turn.panic [where K = "calm ?wc" and tag = "''t''" and wc = ?wc, OF work this calm_sample h]
  have "fleet_turn (calm ?wc) ''t'' ?wc (one_message l False ?m) (one_message ((close_link l)\<lparr>l_live := False\<rparr>) True ?m)"
    using l(4,7) by (simp add: one_message_def crash_def unacked_of_def)
  from calm_reach.turn [OF l(1) this]
  have "calm_reach ''t'' ?wc 1 (one_message ((close_link l)\<lparr>l_live := False\<rparr>) True ?m)" .
  moreover have "at_rest ''t'' ?wc (one_message ((close_link l)\<lparr>l_live := False\<rparr>) True ?m)"
  proof (rule at_restI)
    show "\<forall>i. \<not> between_workers (one_message ((close_link l)\<lparr>l_live := False\<rparr>) True ?m) i"
      by (simp add: between_workers_def one_message_def nth_Cons')
  qed (simp_all add: one_message_def close_link_def)
  ultimately show thesis using that by (force simp: one_message_def)
qed

section \<open>Properties\<close>



text \<open>C15: With brokers that accept everything the fleet cannot go on for ever on the messages it has:
  there is no infinite run of its own steps, whatever the messages are.\<close>

theorem fleet_comes_to_rest:
  assumes "calm_reach tag wc n f" "\<not> wc_Reliable wc"
  shows "\<not> (\<exists>g. g 0 = f \<and> (\<forall>j. fleet_turn (calm wc) tag wc (g j) (g (Suc j))))"
proof
  assume "\<exists>g. g 0 = f \<and> (\<forall>j. fleet_turn (calm wc) tag wc (g j) (g (Suc j)))"
  then obtain g where g: "g 0 = f" and turns: "\<forall>j. fleet_turn (calm wc) tag wc (g j) (g (Suc j))" by blast
  have "calm_reach tag wc n (g j)" for j
    using assms(1) g turns by (induction j) (auto intro: calm_reach.turn)
  then have "calm_inv n (g j)" for j using calm_reach_inv assms(2) by blast
  then have "(g (Suc j), g j) \<in> fleet_rank" for j using turn_uses_up turns assms(2) by blast
  then show False using fleet_rank_wf wf_iff_no_infinite_down_chain by blast
qed

theorem fleet_comes_to_rest_witness:
  "\<not> (\<exists>g. g 0 = publish (fleet_message EngineGoTesseract ''i'') (new_fleet 2)
    \<and> (\<forall>j. fleet_turn (calm DefaultWorkerConfig) ''t'' DefaultWorkerConfig (g j) (g (Suc j))))"
  by (rule fleet_comes_to_rest [OF calm_reach.message [OF calm_reach.new] sample_worker_unreliable(1)])



text \<open>C12: One request for an engine that does not exist ends the whole fleet. It is never settled, and
  when the fleet comes to rest all processes are down and the request is back in the queue.\<close>

theorem poison_ends_fleet:
  assumes "calm_reach tag wc n f" "\<not> wc_Reliable wc" "at_rest tag wc f" "m \<in># f_sent f" "poison m"
  shows "f_down f = replicate n True \<and> m \<in># f_ready f"
proof -
  note inv = calm_reach_inv [OF assms(1,2)]
  have "m \<notin># f_settled f" using poison_stays [OF calm_reach_fleet_reach [OF assms(1)] assms(5)] .
  with assms(4) rest_unacked [OF assms(3) inv] inv have m: "m \<in># f_ready f"
    by (simp add: calm_inv_def fleet_inv_def)
  then have "f_down f ! i" if "i < n" for i using rest_ready [OF assms(3) inv that]
    by (cases "f_down f ! i") simp_all
  moreover have "length (f_down f) = n" using inv by (simp add: calm_inv_def)
  ultimately have "f_down f = replicate n True" by (intro replicate_eqI) (auto simp: in_set_conv_nth)
  with m show ?thesis by simp
qed

theorem poison_ends_fleet_witness:
  "\<exists>f :: fleet. f_sent f = {#fleet_message EngineGoTesseract ''i''#} \<and> f_down f = [True]
    \<and> fleet_message EngineGoTesseract ''i'' \<in># f_ready f"
proof -
  obtain f where f: "calm_reach ''t'' DefaultWorkerConfig 1 f" "at_rest ''t'' DefaultWorkerConfig f"
    "f_sent f = {#fleet_message EngineGoTesseract ''i''#}" using one_poisoned by blast
  have "f_down f = replicate 1 True \<and> fleet_message EngineGoTesseract ''i'' \<in># f_ready f"
    by (rule poison_ends_fleet [OF f(1) sample_worker_unreliable(1) f(2) _ fleet_message_poison]) (simp add: f(3))
  then show ?thesis using f(3) by (intro exI [of _ f]) simp
qed


text \<open>The request of the client and an answer of the mock engine to it.\<close>

definition client_request :: OcrRequest where
  "client_request = zero_request\<lparr>ImgBytes := Some [1], EngineType := EngineMock, RequestID := ''i''\<rparr>"

definition client_message :: publishing where
  "client_message = (fleet_message EngineMock ''i'')
     \<lparr>p_Body := Some (encode_request (set_timeout DefaultTestConfig client_request))\<rparr>"

lemma client_request_sent:
  "wf_request client_request" "EngineType client_request = EngineMock"
  "fetch_image env (set_timeout DefaultTestConfig client_request) = (set_timeout DefaultTestConfig client_request, None)"
  "RequestID client_request = ''i''" "ReplyTo client_request = []" "\<not> Deferred client_request"
  by (simp_all add: fetch_image_def) (simp_all add: client_request_def wf_request_def zero_request_def engine_type_defs)


end
