(* ===== verification/Ocr_Metrics.thy ===== *)
theory Ocr_Metrics
  imports Ocr_Prelude Complex_Main
begin

text \<open>
  prometheus_metrics.go: the four metrics of the package, and what the documentation of the client
  library asks of a metric before it is registered or given to a middleware. The library is a
  parameter; the chain of middlewares that is built with these metrics is in Cli_Httpd, where the
  type of a handler is known.
\<close>

section \<open>The metrics\<close>

text \<open>The options of a metric. A bound of a bucket is the rational number that the code writes.\<close>

record metric =
  m_Name :: string
  m_Help :: string
  m_Labels :: "string list"
  m_Buckets :: "rat list"

definition inFlightGauge_metric :: metric where
  "inFlightGauge_metric =
     \<lparr>m_Name = ''ocr_in_flight_requests'', m_Help = ''Number of currently pending and processed requests.'',
      m_Labels = [], m_Buckets = []\<rparr>"

definition counter_metric :: metric where
  "counter_metric =
     \<lparr>m_Name = ''ocr_api_requests_total'', m_Help = ''A counter for http requests.'',
      m_Labels = [''code'', ''method''], m_Buckets = []\<rparr>"

definition duration_metric :: metric where
  "duration_metric =
     \<lparr>m_Name = ''ocr_request_duration_seconds'', m_Help = ''A histogram of latencies for requests.'',
      m_Labels = [''handler'', ''method''],
      m_Buckets = [1 / 100, 5 / 100, 1 / 10, 25 / 100, 5 / 10, 1, 25 / 10, 5, 10]\<rparr>"

definition requestSize_metric :: metric where
  "requestSize_metric =
     \<lparr>m_Name = ''ocr_request_size_bytes'', m_Help = ''A histogram of response sizes for requests.'',
      m_Labels = [], m_Buckets = [100, 1500, 5000000, 10000000, 25000000, 50000000]\<rparr>"

definition ocr_metrics :: "metric list" where
  "ocr_metrics = [inFlightGauge_metric, counter_metric, duration_metric, requestSize_metric]"

section \<open>What the library asks of a metric\<close>

definition name_start :: "char \<Rightarrow> bool" where
  "name_start c \<longleftrightarrow> c = CHR ''_'' \<or> of_char c \<in> {65 .. 90 :: nat} \<or> of_char c \<in> {97 .. 122 :: nat}"

definition name_char :: "char \<Rightarrow> bool" where
  "name_char c \<longleftrightarrow> name_start c \<or> of_char c \<in> {48 .. 57 :: nat}"

text \<open>The names of labels; a metric may have colons in its name as well. Bounds of buckets increase.\<close>

definition valid_label :: "string \<Rightarrow> bool" where
  "valid_label s \<longleftrightarrow> s \<noteq> [] \<and> name_start (hd s) \<and> list_all name_char s"

definition valid_metric :: "metric \<Rightarrow> bool" where
  "valid_metric m \<longleftrightarrow> valid_label (filter (\<lambda>c. c \<noteq> CHR '':'') (m_Name m))
     \<and> distinct (m_Labels m) \<and> list_all valid_label (m_Labels m) \<and> sorted_wrt (<) (m_Buckets m)"

text \<open>The labels that a middleware can fill: the status code and the method.\<close>

definition fillable :: "metric \<Rightarrow> bool" where
  "fillable m \<longleftrightarrow> set (m_Labels m) \<subseteq> {''code'', ''method''}"

text \<open>A metric with some of its labels set beforehand, of which only the others are left.\<close>

definition curried :: "(string \<times> string) list \<Rightarrow> metric \<Rightarrow> metric" where
  "curried labels m = m\<lparr>m_Labels := filter (\<lambda>l. l \<notin> fst ` set labels) (m_Labels m)\<rparr>"

lemma valid_names:
  "valid_label ''ocr_in_flight_requests''" "valid_label ''ocr_api_requests_total''"
  "valid_label ''ocr_request_duration_seconds''" "valid_label ''ocr_request_size_bytes''"
  "valid_label ''code''" "valid_label ''method''" "valid_label ''handler''"
  by code_simp+

lemma ocr_metrics_valid: "list_all valid_metric ocr_metrics"
  using valid_names
  by (simp add: ocr_metrics_def valid_metric_def inFlightGauge_metric_def counter_metric_def duration_metric_def
      requestSize_metric_def)

lemma ocr_metrics_distinct: "distinct (map m_Name ocr_metrics)"
  by (simp add: ocr_metrics_def inFlightGauge_metric_def counter_metric_def duration_metric_def requestSize_metric_def)

lemma ocr_metrics_fillable:
  "fillable counter_metric" "fillable requestSize_metric"
  "fillable (curried [(''handler'', ''ocr'')] duration_metric)" "\<not> fillable duration_metric"
  "{''handler''} \<subseteq> set (m_Labels duration_metric)"
  by (simp_all add: fillable_def curried_def counter_metric_def duration_metric_def requestSize_metric_def)

end
