(* ===== verification/Cli_Httpd.thy ===== *)
theory Cli_Httpd
  imports Ocr_Http Landing_Page Cli_Workers Ocr_Metrics
begin

text \<open>
  cli-httpd/main.go and prometheus_metrics.go: the program of the HTTP daemon. Its start from
  the flags to the listening server, the routes (a model of http.ServeMux of Go 1.17 for
  patterns without a host), the handlers behind them, and the life of the running daemon as a
  sequence of events. promhttp and pprof are parameters, as is what ListenAndServe returns.
\<close>

section \<open>http.ServeMux\<close>

text \<open>cleanPath of net/http: path.Clean of the rooted path, with the slash at its end kept.\<close>

definition clean_url_path :: "string \<Rightarrow> string" where
  "clean_url_path p0 =
     (if p0 = [] then ''/''
      else let p = (if hd p0 \<noteq> CHR ''/'' then CHR ''/'' # p0 else p0); np = path_clean p in
        if last p = CHR ''/'' \<and> np \<noteq> ''/'' then np @ ''/'' else np)"

text \<open>The patterns in the order of registration, and those that end in a slash, longest first.\<close>

record 'h mux =
  mux_m :: "(string \<times> 'h) list"
  mux_es :: "(string \<times> 'h) list"

fun append_sorted :: "string \<times> 'h \<Rightarrow> (string \<times> 'h) list \<Rightarrow> (string \<times> 'h) list" where
  "append_sorted e [] = [e]"
| "append_sorted e (x # xs) =
     (if length (fst x) < length (fst e) then e # x # xs else x # append_sorted e xs)"

definition mux_Handle :: "'h mux \<Rightarrow> string \<times> 'h \<Rightarrow> 'h mux" where
  "mux_Handle mx e =
     mx\<lparr>mux_m := mux_m mx @ [e],
        mux_es := (if last (fst e) = CHR ''/'' then append_sorted e (mux_es mx) else mux_es mx)\<rparr>"

definition mux_match :: "'h mux \<Rightarrow> string \<Rightarrow> 'h option" where
  "mux_match mx path =
     (case map_of (mux_m mx) path of
        Some h \<Rightarrow> Some h
      | None \<Rightarrow> map_option snd (find (\<lambda>e. has_prefix path (fst e)) (mux_es mx)))"

definition should_redirect :: "'h mux \<Rightarrow> string \<Rightarrow> bool" where
  "should_redirect mx path \<longleftrightarrow> map_of (mux_m mx) path = None \<and> path \<noteq> []
     \<and> map_of (mux_m mx) (path @ ''/'') \<noteq> None \<and> last path \<noteq> CHR ''/''"

datatype 'h dispatched = Handler 'h | MovedPermanently string | NotFoundPage

definition mux_dispatch :: "'h mux \<Rightarrow> string \<Rightarrow> string \<Rightarrow> 'h dispatched" where
  "mux_dispatch mx meth path =
     (let p = (if meth = ''CONNECT'' then path else clean_url_path path) in
      if should_redirect mx p then MovedPermanently (p @ ''/'')
      else if p \<noteq> path then MovedPermanently p
      else (case mux_match mx path of Some h \<Rightarrow> Handler h | None \<Rightarrow> NotFoundPage))"

section \<open>The server and its routes\<close>

datatype route =
    Index | Ocr | FileUpload | OcrStatus | Metrics
  | PprofIndex | PprofCmdline | PprofProfile | PprofSymbol | PprofTrace

text \<open>crypto/tls: the settings of the secure server, with the names of the constants.\<close>

record tls_config =
  tls_MinVersion :: string
  tls_CurvePreferences :: "string list"
  tls_CipherSuites :: "string list"

text \<open>http.Server; durations in nanoseconds.\<close>

record server =
  sv_Addr :: string
  sv_ReadTimeout :: int
  sv_ReadHeaderTimeout :: int
  sv_WriteTimeout :: int
  sv_IdleTimeout :: int
  sv_Handler :: "route mux"
  sv_TLSConfig :: "tls_config option"

definition makeServerFromMux :: "route mux \<Rightarrow> server" where
  "makeServerFromMux mx =
     \<lparr>sv_Addr = [], sv_ReadTimeout = seconds 60, sv_ReadHeaderTimeout = seconds 60,
      sv_WriteTimeout = seconds 60, sv_IdleTimeout = seconds 120, sv_Handler = mx, sv_TLSConfig = None\<rparr>"

definition httpd_mux :: "route mux" where
  "httpd_mux = foldl mux_Handle \<lparr>mux_m = [], mux_es = []\<rparr>
     [(''/'', Index), (''/ocr'', Ocr), (''/ocr-file-upload'', FileUpload), (''/ocr-status'', OcrStatus),
      (''/metrics'', Metrics), (''/debug/pprof/'', PprofIndex), (''/debug/pprof/cmdline'', PprofCmdline),
      (''/debug/pprof/profile'', PprofProfile), (''/debug/pprof/symbol'', PprofSymbol),
      (''/debug/pprof/trace'', PprofTrace)]"

definition makeHTTPServer :: server where
  "makeHTTPServer = makeServerFromMux httpd_mux"

section \<open>The instrumented handler\<close>

text \<open>A request as it arrives, with what its handler draws: an identifier, a channel, a random
  number; and the files it leaves if it panics.\<close>

record arrival =
  ar_method :: string
  ar_path :: string
  ar_body :: body
  ar_upload :: upload
  ar_id :: string
  ar_chan :: nat
  ar_number :: nat
  ar_debris :: world

type_synonym handler =
  "arrival \<Rightarrow> daemon_state \<Rightarrow> (daemon_state \<times> http_response option \<times> goroutine) outcome"

text \<open>
  The client library of Prometheus: the names in its standard registry, the registration, and the
  middlewares with the metric they are given. What the library refuses is a panic.
\<close>

record promhttp =
  prom_registered :: "string list"
  MustRegister :: "metric list \<Rightarrow> string list \<Rightarrow> string list outcome"
  MustCurryWith :: "(string \<times> string) list \<Rightarrow> metric \<Rightarrow> metric outcome"
  InstrumentHandlerInFlight :: "metric \<Rightarrow> handler \<Rightarrow> handler"
  InstrumentHandlerDuration :: "metric \<Rightarrow> handler \<Rightarrow> handler outcome"
  InstrumentHandlerCounter :: "metric \<Rightarrow> handler \<Rightarrow> handler outcome"
  InstrumentHandlerRequestSize :: "metric \<Rightarrow> handler \<Rightarrow> handler outcome"

definition InstrumentHttpStatusHandler ::
  "promhttp \<Rightarrow> string list \<Rightarrow> handler \<Rightarrow> (string list \<times> handler) outcome" where
  "InstrumentHttpStatusHandler pm reg ocrHttpHandler =
     bind_outcome (MustRegister pm
         [inFlightGauge_metric, counter_metric, duration_metric, requestSize_metric] reg) (\<lambda>reg'.
     bind_outcome (MustCurryWith pm [(''handler'', ''ocr'')] duration_metric) (\<lambda>duration.
     bind_outcome (InstrumentHandlerRequestSize pm requestSize_metric ocrHttpHandler) (\<lambda>sized.
     bind_outcome (InstrumentHandlerCounter pm counter_metric sized) (\<lambda>counted.
     bind_outcome (InstrumentHandlerDuration pm duration counted) (\<lambda>timed.
       Ret (reg', InstrumentHandlerInFlight pm inFlightGauge_metric timed))))))"

section \<open>The start of the daemon\<close>

record httpd_flags =
  fl_httpPort :: uint
  fl_debug :: bool
  fl_flgVersion :: bool
  fl_useHttps :: bool
  fl_keyFile :: string
  fl_certFile :: string
  fl_rabbit :: rabbit_flags

definition default_httpd_flags :: httpd_flags where
  "default_httpd_flags =
     \<lparr>fl_httpPort = 8080, fl_debug = False, fl_flgVersion = False, fl_useHttps = False, fl_keyFile = [],
      fl_certFile = [], fl_rabbit = default_rabbit_flags\<rparr>"

definition cryptSettings :: tls_config where
  "cryptSettings =
     \<lparr>tls_MinVersion = ''VersionTLS12'',
      tls_CurvePreferences = [''CurveP521'', ''CurveP384'', ''CurveP256''],
      tls_CipherSuites = [''TLS_AES_256_GCM_SHA384'', ''TLS_CHACHA20_POLY1305_SHA256'',
        ''TLS_ECDHE_RSA_WITH_CHACHA20_POLY1305_SHA256'', ''TLS_ECDHE_RSA_WITH_AES_256_GCM_SHA384'',
        ''TLS_ECDHE_RSA_WITH_AES_128_GCM_SHA256'']\<rparr>"

text \<open>The verb d of package fmt for an unsigned number.\<close>

fun decimal :: "nat \<Rightarrow> string" where
  "decimal n =
     (if n < 10 then [char_of (48 + n)] else decimal (n div 10) @ [char_of (48 + n mod 10)])"

declare decimal.simps [simp del]

text \<open>
  A daemon that has started: its server, the configuration it works with, and the one it has
  logged. listen is what ListenAndServe returns when it cannot serve. url.Parse returns no URL
  beside an error, which is not looked at.
\<close>

datatype started = Ended process | Serving server RabbitConfig RabbitConfig

definition logged_config :: "os_env \<Rightarrow> RabbitConfig \<Rightarrow> RabbitConfig outcome" where
  "logged_config env rabbitConfig =
     (case env_url_parse env (rc_AmqpAPIURI rabbitConfig) of
        Inl _ \<Rightarrow> Panic nil_dereference
      | Inr u \<Rightarrow>
          (let temp = rabbitConfig\<lparr>rc_AmqpAPIURI := StripPasswordFromUrl u\<rparr> in
           case env_url_parse env (rc_AmqpURI temp) of
             Inl _ \<Rightarrow> Panic nil_dereference
           | Inr v \<Rightarrow> Ret (temp\<lparr>rc_AmqpURI := StripPasswordFromUrl v\<rparr>)))"

definition httpd_main ::
  "os_env \<Rightarrow> (string \<Rightarrow> body) \<Rightarrow> promhttp \<Rightarrow> handler \<Rightarrow> (server \<Rightarrow> go_error) \<Rightarrow> httpd_flags \<Rightarrow> started" where
  "httpd_main env parse pm ocrHttpHandler listen f =
     (case DefaultConfigFlagsOverride parse (fl_rabbit f) of
        Panic m \<Rightarrow> Ended (Crashed m)
      | Ret rabbitConfig \<Rightarrow>
          if fl_flgVersion f then Ended (Exited 0)
          else
            (case logged_config env rabbitConfig of
               Panic m \<Rightarrow> Ended (Crashed m)
             | Ret temp \<Rightarrow>
                 (case InstrumentHttpStatusHandler pm (prom_registered pm) ocrHttpHandler of
                    Panic m \<Rightarrow> Ended (Crashed m)
                  | Ret ocrChain \<Rightarrow>
                      (let listenAddr = '':'' @ decimal (unat (fl_httpPort f)) in
                       if fl_useHttps f then
                         if fl_certFile f = [] \<or> fl_keyFile f = [] then
                           Ended (Crashed ''usehttps flag only makes sense if both the private key and a certificate are available'')
                         else
                           (let httpsSrv = makeHTTPServer\<lparr>sv_Addr := listenAddr, sv_TLSConfig := Some cryptSettings\<rparr> in
                            case listen httpsSrv of
                              Some err \<Rightarrow> Ended (Crashed ''cli_https has failed to start'')
                            | None \<Rightarrow> Serving httpsSrv rabbitConfig temp)
                       else
                         (let httpSrv = makeHTTPServer\<lparr>sv_Addr := listenAddr\<rparr> in
                          case listen httpSrv of
                            Some err \<Rightarrow> Ended (Crashed ''cli_http has failed to start'')
                          | None \<Rightarrow> Serving httpSrv rabbitConfig temp)))))"

section \<open>The handlers behind the routes\<close>

text \<open>The running program: its setting, and what its handlers take from elsewhere.\<close>

record program =
  pr_setting :: setting
  pr_parse :: "bytes \<Rightarrow> body"       \<comment> \<open>json.Unmarshal: the whole text\<close>
  pr_decode :: "bytes \<Rightarrow> body"      \<comment> \<open>json.Decoder: the first value of the text\<close>
  pr_media :: "string \<Rightarrow> string"
  pr_fprintf :: "string \<Rightarrow> string"
  pr_prom :: promhttp
  pr_page :: "route \<Rightarrow> http_response"
  pr_version :: string

definition handleIndex :: "resman \<Rightarrow> string \<Rightarrow> nat \<Rightarrow> (string \<times> string) list \<times> http_response" where
  "handleIndex g version number =
     (let appStopLocal = AppStop g;
          txt = GenerateLandingPage appStopLocal (TechnicalErrorResManager g) version number
      in ([(''Strict-Transport-Security'', ''max-age=63072000; includeSubDomains'')],
          \<lparr>hs_status = 200, hs_content = PlainText txt\<rparr>))"

definition ocr_handler :: "program \<Rightarrow> resman \<Rightarrow> handler" where
  "ocr_handler P g = (\<lambda>a s. ServeHTTP (pr_setting P) g (ar_id a) (ar_chan a) (ar_body a) s)"

definition serve_route :: "program \<Rightarrow> resman \<Rightarrow> route \<Rightarrow> handler" where
  "serve_route P g rt a s =
     (case rt of
        Index \<Rightarrow> Ret (s, Some (snd (handleIndex g (pr_version P) (ar_number a))), NoGoroutine)
      | Ocr \<Rightarrow>
          bind_outcome (InstrumentHttpStatusHandler (pr_prom P) (prom_registered (pr_prom P)) (ocr_handler P g))
            (\<lambda>(_, ocrChain). ocrChain a s)
      | FileUpload \<Rightarrow>
          multipart_ServeHTTP (pr_setting P) (pr_decode P) (pr_media P) (pr_fprintf P) (ar_chan a)
            ((ar_upload a)\<lparr>up_method := ar_method a\<rparr>) s
      | OcrStatus \<Rightarrow>
          (case s of (w, st, tr) \<Rightarrow>
           case status_ServeHTTP (ar_body a) st of (st', resp) \<Rightarrow>
             Ret ((w, st', tr), Some resp, NoGoroutine))
      | _ \<Rightarrow> Ret (s, Some (pr_page P rt), NoGoroutine))"

text \<open>What the client sees. net/http recovers a panic of a handler and drops the connection.\<close>

datatype served = Responded "http_response option" | Redirected string | Aborted string

definition serve_request :: "program \<Rightarrow> resman \<Rightarrow> arrival \<Rightarrow> daemon_state \<Rightarrow> daemon_state \<times> served" where
  "serve_request P g a s =
     (case mux_dispatch (sv_Handler makeHTTPServer) (ar_method a) (ar_path a) of
        MovedPermanently p \<Rightarrow> (s, Redirected p)
      | NotFoundPage \<Rightarrow> (s, Responded (Some (http_Error ''404 page not found'' 404)))
      | Handler rt \<Rightarrow>
          (case serve_route P g rt a s of
             Ret (s', resp, _) \<Rightarrow> (s', Responded resp)
           | Panic m \<Rightarrow> (case s of (w, st, tr) \<Rightarrow> ((ar_debris a, st, tr), Aborted m))))"

section \<open>The running daemon\<close>

text \<open>
  The loop of the resource manager and whether it still runs, the value in StopChan, whether
  the goroutine of the signals has been woken, and the state of the handlers.
\<close>

record httpd =
  srv_manager :: loop_state
  srv_managing :: bool
  srv_StopChan :: bool
  srv_signalled :: bool
  srv_state :: daemon_state

text \<open>
  What happens to it: a request, a turn of the resource manager, a signal, a result that a
  goroutine puts into a channel, and a request that a goroutine deletes.
\<close>

datatype httpd_event =
    Arrival arrival | ManagerTurn os_env | Signal | Delivered nat OcrResult | Deleted string

definition on_table :: "(store \<Rightarrow> store) \<Rightarrow> httpd \<Rightarrow> httpd" where
  "on_table f s = (case srv_state s of (w, st, tr) \<Rightarrow> s\<lparr>srv_state := (w, f st, tr)\<rparr>)"

definition httpd_step :: "program \<Rightarrow> httpd_event \<Rightarrow> httpd \<Rightarrow> httpd" where
  "httpd_step P e s =
     (case e of
        Arrival a \<Rightarrow>
          s\<lparr>srv_state := fst (serve_request P (lp_globals (srv_manager s)) a (srv_state s))\<rparr>
      | ManagerTurn env \<Rightarrow>
          if srv_managing s then
            (case SetResManagerState_turn (pr_parse P) (st_config (pr_setting P))
                \<lparr>in_stop = srv_StopChan s, in_env = env, in_store = fst (snd (srv_state s))\<rparr> (srv_manager s) of
               (l', fin) \<Rightarrow> s\<lparr>srv_manager := l', srv_managing := \<not> fin, srv_StopChan := False\<rparr>)
          else s
      | Signal \<Rightarrow>
          if srv_signalled s then s else s\<lparr>srv_StopChan := True, srv_signalled := True\<rparr>
      | Delivered ch r \<Rightarrow> on_table (send_result ch r) s
      | Deleted i \<Rightarrow> on_table (deleteRequestFromQueue i) s)"

definition httpd_run :: "program \<Rightarrow> httpd_event list \<Rightarrow> httpd \<Rightarrow> httpd" where
  "httpd_run P es s = fold (httpd_step P) es s"

definition httpd_init :: "program \<Rightarrow> world \<Rightarrow> httpd" where
  "httpd_init P w =
     \<lparr>srv_manager = SetResManagerState_init (st_config (pr_setting P)) init_resman, srv_managing = True,
      srv_StopChan = False, srv_signalled = False, srv_state = (w, empty_store, [])\<rparr>"


section \<open>Facts about the instrumentation\<close>

text \<open>The handlers of requests only add to the gauge: they commute with any other change of it.\<close>

definition shift_gauge :: "int \<Rightarrow> store \<Rightarrow> store" where
  "shift_gauge d st = st\<lparr>inFlightGauge := inFlightGauge st + d\<rparr>"

lemma shift_gauge_fields [simp]:
  "RequestsTrack (shift_gauge d st) = RequestsTrack st" "chans (shift_gauge d st) = chans st"
  "RequestTrackLength (shift_gauge d st) = RequestTrackLength st"
  "shift_gauge d st\<lparr>chans := c\<rparr> = shift_gauge d (st\<lparr>chans := c\<rparr>)"
  "shift_gauge d (shift_gauge e st) = shift_gauge (e + d) st" "shift_gauge 0 st = st"
  by (simp_all add: shift_gauge_def add.assoc)

lemma send_result_shift [simp]: "send_result ch r (shift_gauge d st) = shift_gauge d (send_result ch r st)"
  by (simp add: send_result_def)

lemma add_shift [simp]:
  "addNewOcrResultToQueue i ch (shift_gauge d st) = shift_gauge d (addNewOcrResultToQueue i ch st)"
  by (simp add: addNewOcrResultToQueue_def shift_gauge_def)

definition shifted :: "int \<Rightarrow> store \<times> 'a \<Rightarrow> store \<times> 'a" where
  "shifted d s = (shift_gauge d (fst s), snd s)"

lemma handleRPCResponse_shift:
  "handleRPCResponse br ds c ch (shift_gauge d st, tr) = shifted d (handleRPCResponse br ds c ch (st, tr))"
  by (induction ds arbitrary: tr) (simp_all add: shifted_def Let_def case_prod_beta)

lemma client_publish_shift:
  "client_publish br peer rc ch q c prio r (shift_gauge d st, tr)
    = (case client_publish br peer rc ch q c prio r (st, tr) of (s', x) \<Rightarrow> (shifted d s', x))"
  by (simp add: client_publish_def handleRPCResponse_shift shifted_def Let_def case_prod_beta
      split: option.splits list.splits)

lemma DecodeImage_shift:
  "DecodeImage env br peer rc tag ch r (shift_gauge d st, tr)
    = bind_outcome (DecodeImage env br peer rc tag ch r (st, tr)) (\<lambda>(s', x). Ret (shifted d s', x))"
  by (simp add: DecodeImage_def client_publish_shift shifted_def Let_def case_prod_beta
      split: option.splits sum.splits)

text \<open>The same for a state of the handlers.\<close>

definition shifted_state :: "int \<Rightarrow> daemon_state \<times> 'a \<Rightarrow> (daemon_state \<times> 'a) outcome" where
  "shifted_state d x = (case x of ((w, st, tr), y) \<Rightarrow> Ret ((w, shift_gauge d st, tr), y))"

lemma HandleOcrRequest_shift:
  "HandleOcrRequest S ch r (w, shift_gauge d st, tr)
    = bind_outcome (HandleOcrRequest S ch r (w, st, tr)) (shifted_state d)"
proof (cases "InplaceDecode r")
  case True
  then show ?thesis
    by (cases "ProcessRequest (NewOcrEngine (EngineType r)) (st_env S) r zero_worker_config w")
      (auto simp: HandleOcrRequest_def shifted_state_def)
next
  case False
  then show ?thesis
    by (cases "DecodeImage (st_env S) (st_broker S) (st_peer S) (st_config S) (st_tag S) ch r (st, tr)")
      (auto simp: HandleOcrRequest_def DecodeImage_shift shifted_state_def shifted_def)
qed

lemma getQueueLen_shift [simp]: "getQueueLen (shift_gauge d st) = getQueueLen st"
  by (simp add: getQueueLen_def)

lemma refused_shift [simp]: "refused g (shift_gauge d st) i = refused g st i"
proof -
  have "schedulerByWorkerNumber g (shift_gauge d st) = schedulerByWorkerNumber g st"
    by (simp add: schedulerByWorkerNumber_def split: option.split)
  then show ?thesis by (simp only: refused_def)
qed

lemma ServeHTTP_shift:
  "ServeHTTP S g i ch b (w, shift_gauge d st, tr)
    = bind_outcome (ServeHTTP S g i ch b (w, st, tr)) (shifted_state d)"
proof (cases "refused g st i")
  case (Ret x)
  obtain r e where u: "unmarshal decode_request b (zero_request\<lparr>RequestID := i\<rparr>) = (r, e)" by fastforce
  show ?thesis
  proof (cases "x = None \<and> e = None")
    case True
    then show ?thesis using Ret u
      by (cases "HandleOcrRequest S ch r (w, st, tr)")
        (auto simp: ServeHTTP_def HandleOcrRequest_shift shifted_state_def)
  next
    case False
    then show ?thesis using Ret u
      by (cases x; cases e) (auto simp: ServeHTTP_def shifted_state_def)
  qed
qed (simp add: ServeHTTP_def)

text \<open>
  What the library documents: a registration refuses invalid metrics and names that are taken;
  MustCurryWith refuses labels that the metric does not have; a middleware refuses a metric with
  labels it cannot fill, and else leaves the handler as it is, but for the gauge.
\<close>

definition registers :: "(metric list \<Rightarrow> string list \<Rightarrow> string list outcome) \<Rightarrow> bool" where
  "registers f \<longleftrightarrow> (\<forall>ms reg.
     if list_all valid_metric ms \<and> distinct (map m_Name ms @ reg) then f ms reg = Ret (map m_Name ms @ reg)
     else panics (f ms reg))"

definition curries :: "((string \<times> string) list \<Rightarrow> metric \<Rightarrow> metric outcome) \<Rightarrow> bool" where
  "curries f \<longleftrightarrow> (\<forall>labels m.
     if fst ` set labels \<subseteq> set (m_Labels m) then f labels m = Ret (curried labels m) else panics (f labels m))"

definition transparent :: "(metric \<Rightarrow> handler \<Rightarrow> handler outcome) \<Rightarrow> bool" where
  "transparent f \<longleftrightarrow> (\<forall>m h. if fillable m then f m h = Ret h else panics (f m h))"

definition counts_in_flight :: "(handler \<Rightarrow> handler) \<Rightarrow> bool" where
  "counts_in_flight f \<longleftrightarrow> (\<forall>h a w st tr.
     f h a (w, st, tr) = bind_outcome (h a (w, shift_gauge 1 st, tr)) (shifted_state (- 1)))"

definition documented_promhttp :: "promhttp \<Rightarrow> bool" where
  "documented_promhttp pm \<longleftrightarrow> registers (MustRegister pm) \<and> curries (MustCurryWith pm)
     \<and> counts_in_flight (InstrumentHandlerInFlight pm inFlightGauge_metric)
     \<and> transparent (InstrumentHandlerDuration pm) \<and> transparent (InstrumentHandlerCounter pm)
     \<and> transparent (InstrumentHandlerRequestSize pm)"

text \<open>The names of the metrics are not in the registry before the program registers them.\<close>

definition fresh_registry :: "string list \<Rightarrow> bool" where
  "fresh_registry reg \<longleftrightarrow> distinct (map m_Name ocr_metrics @ reg)"

lemma instrumented_handler:
  assumes "documented_promhttp pm"
  shows "if fresh_registry reg
    then InstrumentHttpStatusHandler pm reg h
      = Ret (map m_Name ocr_metrics @ reg, InstrumentHandlerInFlight pm inFlightGauge_metric h)
    else panics (InstrumentHttpStatusHandler pm reg h)"
proof -
  have r: "if fresh_registry reg then MustRegister pm ocr_metrics reg = Ret (map m_Name ocr_metrics @ reg)
      else panics (MustRegister pm ocr_metrics reg)"
    using assms ocr_metrics_valid by (simp add: documented_promhttp_def registers_def fresh_registry_def)
  have c: "MustCurryWith pm [(''handler'', ''ocr'')] duration_metric
      = Ret (curried [(''handler'', ''ocr'')] duration_metric)"
    using assms ocr_metrics_fillable(5) by (simp add: documented_promhttp_def curries_def)
  have m: "InstrumentHandlerRequestSize pm requestSize_metric h' = Ret h'"
    "InstrumentHandlerCounter pm counter_metric h' = Ret h'"
    "InstrumentHandlerDuration pm (curried [(''handler'', ''ocr'')] duration_metric) h' = Ret h'" for h'
    using assms ocr_metrics_fillable by (simp_all add: documented_promhttp_def transparent_def)
  show ?thesis
  proof (cases "fresh_registry reg")
    case True
    with r c m show ?thesis by (simp add: InstrumentHttpStatusHandler_def ocr_metrics_def)
  next
    case False
    with r show ?thesis
      by (cases "MustRegister pm ocr_metrics reg") (simp_all add: InstrumentHttpStatusHandler_def ocr_metrics_def)
  qed
qed

lemma in_flight_ocr_handler:
  assumes "documented_promhttp pm"
  shows "InstrumentHandlerInFlight pm inFlightGauge_metric (ocr_handler P g) a s = ocr_handler P g a s"
proof -
  obtain w st tr where s: "s = (w, st, tr)" by (cases s)
  have "InstrumentHandlerInFlight pm inFlightGauge_metric (ocr_handler P g) a s
    = bind_outcome (ocr_handler P g a (w, shift_gauge 1 st, tr)) (shifted_state (- 1))"
    using assms by (simp add: documented_promhttp_def counts_in_flight_def s)
  then show ?thesis
    by (cases "ocr_handler P g a s") (auto simp: ocr_handler_def s ServeHTTP_shift shifted_state_def)
qed

section \<open>Facts about the routes\<close>

lemma path_clean_rooted:
  assumes "p \<noteq> []" "hd p = CHR ''/''"
  shows "path_clean p = CHR ''/'' # join_slash (clean_elems p)"
    "path_clean (path_clean p) = path_clean p" "path_clean (path_clean p @ ''/'') = path_clean p"
proof -
  show c: "path_clean p = CHR ''/'' # join_slash (clean_elems p)"
    using assms by (simp add: path_clean_def)
  have e: "clean_elems (path_clean p) = clean_elems p"
    unfolding c by (rule clean_elems_join [OF clean_elems_plain [OF assms]])
  show "path_clean (path_clean p) = path_clean p"
    using e by (simp add: path_clean_def [of "path_clean p"]) (simp add: c)
  show "path_clean (path_clean p @ ''/'') = path_clean p"
    using e clean_elems_trailing_slash [of "path_clean p"]
    by (simp add: path_clean_def [of "path_clean p @ _"]) (simp add: c)
qed

lemma root_clean: "path_clean ''/'' = ''/''"
  by code_simp

lemma clean_url_path_clean: "clean_url_path (clean_url_path p0) = clean_url_path p0"
proof (cases "p0 = []")
  case True
  with root_clean show ?thesis by (simp add: clean_url_path_def)
next
  case False
  define p where "p = (if hd p0 \<noteq> CHR ''/'' then CHR ''/'' # p0 else p0)"
  have p: "p \<noteq> []" "hd p = CHR ''/''" using False by (simp_all add: p_def)
  note clean = path_clean_rooted [OF p]
  have c: "clean_url_path p0 = (if last p = CHR ''/'' \<and> path_clean p \<noteq> ''/'' then path_clean p @ ''/'' else path_clean p)"
    using False by (simp add: clean_url_path_def p_def Let_def)
  have r: "path_clean p \<noteq> []" "hd (path_clean p) = CHR ''/''" using clean(1) by simp_all
  show ?thesis
  proof (cases "last p = CHR ''/'' \<and> path_clean p \<noteq> ''/''")
    case True
    with c have "clean_url_path p0 = path_clean p @ ''/''" by simp
    moreover have "clean_url_path (path_clean p @ ''/'') = path_clean p @ ''/''"
      using True r clean(3) by (simp add: clean_url_path_def)
    ultimately show ?thesis by simp
  next
    case False
    have "last (path_clean p) \<noteq> CHR ''/'' \<or> path_clean p = ''/''"
      using last_join_slash [of "clean_elems p"] clean_elems_plain [OF p] clean(1)
      by (cases "clean_elems p = []") auto
    then have "clean_url_path (path_clean p) = path_clean p"
      using r clean(2) root_clean
      by (cases "path_clean p = ''/''") (simp_all add: clean_url_path_def)
    moreover have "clean_url_path p0 = path_clean p" using False c by auto
    ultimately show ?thesis by simp
  qed
qed

lemma clean_url_path_rooted: "clean_url_path p \<noteq> [] \<and> hd (clean_url_path p) = CHR ''/''"
  by (auto simp: clean_url_path_def path_clean_rooted(1) Let_def)

lemma httpd_mux_eq:
  "mux_m httpd_mux = [(''/'', Index), (''/ocr'', Ocr), (''/ocr-file-upload'', FileUpload), (''/ocr-status'', OcrStatus),
      (''/metrics'', Metrics), (''/debug/pprof/'', PprofIndex), (''/debug/pprof/cmdline'', PprofCmdline),
      (''/debug/pprof/profile'', PprofProfile), (''/debug/pprof/symbol'', PprofSymbol),
      (''/debug/pprof/trace'', PprofTrace)]"
  "mux_es httpd_mux = [(''/debug/pprof/'', PprofIndex), (''/'', Index)]"
  by (simp_all add: httpd_mux_def mux_Handle_def)

text \<open>The handler of a path that is clean.\<close>

definition route_of :: "string \<Rightarrow> route" where
  "route_of p =
     (case map_of (mux_m httpd_mux) p of
        Some rt \<Rightarrow> rt
      | None \<Rightarrow> if has_prefix p ''/debug/pprof/'' then PprofIndex else Index)"

lemma mux_match_httpd:
  assumes "p \<noteq> []" "hd p = CHR ''/''"
  shows "mux_match httpd_mux p = Some (route_of p)"
proof -
  have "has_prefix p ''/''" using assms by (cases p) (simp_all add: has_prefix_def)
  then show ?thesis by (simp add: mux_match_def route_of_def httpd_mux_eq(2) split: option.split)
qed

lemma should_redirect_httpd: "should_redirect httpd_mux p \<longleftrightarrow> p = ''/debug/pprof''"
proof
  assume r: "should_redirect httpd_mux p"
  then have "p @ ''/'' \<in> fst ` set (mux_m httpd_mux)"
    by (auto simp: should_redirect_def dest!: map_of_SomeD intro: rev_image_eqI)
  then have "p @ ''/'' = ''/'' \<or> p @ ''/'' = ''/debug/pprof/''"
    unfolding httpd_mux_eq by (auto dest: arg_cong [where f = last])
  then show "p = ''/debug/pprof''"
    using r append_same_eq [of p "''/''" "''/debug/pprof''"] by (auto simp: should_redirect_def)
qed (simp add: should_redirect_def httpd_mux_eq)


section \<open>Facts about the running daemon\<close>

text \<open>
  The resource manager's loop runs until the service is stopped, and a signal has been passed on
  or is still in the channel.
\<close>

definition srv_inv :: "httpd \<Rightarrow> bool" where
  "srv_inv s \<longleftrightarrow> loop_inv (srv_manager s) \<and> (srv_managing s \<longleftrightarrow> \<not> AppStop (lp_globals (srv_manager s)))
     \<and> (srv_signalled s \<longrightarrow> srv_StopChan s \<or> AppStop (lp_globals (srv_manager s)))"

abbreviation stopped :: "httpd \<Rightarrow> bool" where
  "stopped s \<equiv> AppStop (lp_globals (srv_manager s))"

lemma on_table_keeps [simp]:
  "srv_manager (on_table f s) = srv_manager s" "srv_managing (on_table f s) = srv_managing s"
  "srv_StopChan (on_table f s) = srv_StopChan s" "srv_signalled (on_table f s) = srv_signalled s"
  by (simp_all add: on_table_def split: prod.splits)

lemma srv_inv_init: "srv_inv (httpd_init P w)"
  by (simp add: srv_inv_def httpd_init_def loop_inv_init init_resman_def)
    (simp add: SetResManagerState_init_def)

lemma srv_inv_step:
  assumes "srv_inv s"
  shows "srv_inv (httpd_step P e s)"
proof (cases e)
  case (ManagerTurn env)
  show ?thesis
  proof (cases "srv_managing s")
    case True
    obtain l fin where t: "SetResManagerState_turn (pr_parse P) (st_config (pr_setting P))
        \<lparr>in_stop = srv_StopChan s, in_env = env, in_store = fst (snd (srv_state s))\<rparr> (srv_manager s) = (l, fin)"
      by fastforce
    have "loop_inv (srv_manager s)" using assms by (simp add: srv_inv_def)
    from loop_inv_turn [OF this t] assms True show ?thesis
      by (auto simp: httpd_step_def ManagerTurn t srv_inv_def)
  qed (use assms in \<open>simp add: httpd_step_def ManagerTurn\<close>)
qed (use assms in \<open>auto simp: httpd_step_def srv_inv_def\<close>)

lemma stopped_step:
  assumes "srv_inv s" "stopped s"
  shows "srv_manager (httpd_step P e s) = srv_manager s"
  using assms by (cases e) (simp_all add: httpd_step_def srv_inv_def)

text \<open>After a signal the next turn of the resource manager stops the service.\<close>

lemma signalled_turn_stops:
  assumes "srv_inv s" "srv_signalled s"
  shows "stopped (httpd_step P (ManagerTurn env) s)"
proof (cases "stopped s")
  case True
  with stopped_step [OF assms(1), of P] show ?thesis by simp
next
  case False
  then show ?thesis
    using assms by (auto simp: srv_inv_def httpd_step_def SetResManagerState_turn_def)
qed

lemma signalled_step: "srv_signalled s \<Longrightarrow> srv_signalled (httpd_step P e s)"
  by (cases e) (auto simp: httpd_step_def split: prod.splits)

lemma httpd_run_append: "httpd_run P (es @ es') s = httpd_run P es' (httpd_run P es s)"
  by (simp add: httpd_run_def)

lemma httpd_run_simps [simp]:
  "httpd_run P [] s = s" "httpd_run P (e # es) s = httpd_run P es (httpd_step P e s)"
  by (simp_all add: httpd_run_def)

lemma srv_inv_run: "srv_inv s \<Longrightarrow> srv_inv (httpd_run P es s)"
  by (induction es arbitrary: s) (simp_all add: srv_inv_step)

lemma signalled_run: "srv_signalled s \<Longrightarrow> srv_signalled (httpd_run P es s)"
  by (induction es arbitrary: s) (simp_all add: signalled_step)

lemma stopped_run:
  "srv_inv s \<Longrightarrow> stopped s \<Longrightarrow> srv_manager (httpd_run P es s) = srv_manager s"
  by (induction es arbitrary: s) (simp_all add: stopped_step srv_inv_step)

lemma stopped_after_signal:
  assumes "srv_inv s"
  shows "stopped (httpd_run P (es1 @ Signal # es2 @ ManagerTurn env # es3) s)"
proof -
  let ?s1 = "httpd_run P es2 (httpd_step P Signal (httpd_run P es1 s))"
  have inv: "srv_inv ?s1" by (intro srv_inv_run srv_inv_step assms)
  have "srv_signalled (httpd_step P Signal s')" for s' by (simp add: httpd_step_def)
  then have "stopped (httpd_step P (ManagerTurn env) ?s1)"
    by (intro signalled_turn_stops inv signalled_run)
  with stopped_run [OF srv_inv_step [OF inv] this] show ?thesis
    by (simp add: httpd_run_append)
qed

text \<open>What a stopped service leaves alone: files and broker; and the table, but for deletions.\<close>

fun only_deletes :: "daemon_state \<Rightarrow> daemon_state \<Rightarrow> bool" where
  "only_deletes (w, st, tr) (w', st', tr') \<longleftrightarrow>
     w' = w \<and> tr' = tr \<and> RequestsTrack st' \<subseteq>\<^sub>m RequestsTrack st"

lemma only_deletes_refl: "only_deletes s s"
  by (cases s) simp

lemma only_deletes_trans: "only_deletes s s' \<Longrightarrow> only_deletes s' s'' \<Longrightarrow> only_deletes s s''"
  by (cases s; cases s'; cases s'') (auto intro: map_le_trans)

lemma delete_map_le: "RequestsTrack (deleteRequestFromQueue i st) \<subseteq>\<^sub>m RequestsTrack st"
  by (simp add: ocr_table.lookup_del map_le_def)

lemma status_map_le: "RequestsTrack (fst (CheckOcrStatusByID i st)) \<subseteq>\<^sub>m RequestsTrack st"
  by (simp add: CheckOcrStatusByID_def ocr_table.lookup_del map_le_def split: option.split list.split)

text \<open>The library of the program keeps to its documentation and finds the names free at the start.\<close>

definition ready_promhttp :: "promhttp \<Rightarrow> bool" where
  "ready_promhttp pm \<longleftrightarrow> documented_promhttp pm \<and> fresh_registry (prom_registered pm)"

abbreviation dispatch :: "arrival \<Rightarrow> route dispatched" where
  "dispatch a \<equiv> mux_dispatch (sv_Handler makeHTTPServer) (ar_method a) (ar_path a)"

lemma serve_route_ocr:
  "ready_promhttp (pr_prom P) \<Longrightarrow> serve_route P g Ocr a s = ocr_handler P g a s"
  using instrumented_handler [of "pr_prom P" "prom_registered (pr_prom P)" "ocr_handler P g"]
  by (simp add: serve_route_def ready_promhttp_def in_flight_ocr_handler)

lemma stopped_refuses:
  assumes "ready_promhttp (pr_prom P)" "gate_inv g" "AppStop g" "dispatch a = Handler Ocr"
  shows "\<exists>resp. serve_request P g a s = (s, Responded (Some resp)) \<and> hs_status resp = 503"
proof -
  obtain w st tr where s: "s = (w, st, tr)" by (cases s)
  have "\<not> accepts g st" using assms(2,3) by (simp add: gate_inv_def accepts_def)
  from serve_refuses [OF assms(2) this] obtain resp where
    "ServeHTTP (pr_setting P) g (ar_id a) (ar_chan a) (ar_body a) (w, st, tr)
      = Ret ((w, st, tr), Some resp, NoGoroutine)" "hs_status resp = 503" by blast
  then show ?thesis
    by (simp add: serve_request_def assms(4) serve_route_ocr [OF assms(1)] ocr_handler_def s)
qed

lemma stopped_only_deletes:
  assumes "ready_promhttp (pr_prom P)" "gate_inv g" "AppStop g" "dispatch a \<noteq> Handler FileUpload"
  shows "only_deletes s (fst (serve_request P g a s))"
proof (cases "dispatch a")
  case (Handler rt)
  obtain w st tr where s: "s = (w, st, tr)" by (cases s)
  show ?thesis
  proof (cases rt)
    case Ocr
    with stopped_refuses [OF assms(1-3)] Handler show ?thesis by (metis fst_conv only_deletes_refl)
  next
    case OcrStatus
    then show ?thesis using Handler status_map_le [of _ st]
      by (auto simp: serve_request_def serve_route_def s status_ServeHTTP_def split: prod.splits option.splits bool.splits)
         (metis fst_conv)+
  qed (use Handler assms(4) in \<open>simp_all add: serve_request_def serve_route_def only_deletes_refl\<close>)
qed (simp_all add: serve_request_def only_deletes_refl)

lemma stopped_step_only_deletes:
  assumes "ready_promhttp (pr_prom P)" "srv_inv s" "stopped s"
    and "\<And>a. e = Arrival a \<Longrightarrow> dispatch a \<noteq> Handler FileUpload"
  shows "only_deletes (srv_state s) (srv_state (httpd_step P e s))"
proof -
  obtain w st tr where st: "srv_state s = (w, st, tr)" by (cases "srv_state s")
  have g: "gate_inv (lp_globals (srv_manager s))" using assms(2) by (simp add: srv_inv_def loop_inv_gate)
  show ?thesis
  proof (cases e)
    case (Arrival a)
    with stopped_only_deletes [OF assms(1) g assms(3) assms(4)] show ?thesis by (simp add: httpd_step_def)
  next
    case (ManagerTurn env)
    then show ?thesis using assms(2,3) by (simp add: httpd_step_def srv_inv_def only_deletes_refl)
  qed (use st delete_map_le in \<open>simp_all add: httpd_step_def on_table_def only_deletes_refl send_result_def\<close>)
qed

lemma stopped_run_only_deletes:
  assumes "ready_promhttp (pr_prom P)" "srv_inv s" "stopped s"
    and "\<forall>a. Arrival a \<in> set es \<longrightarrow> dispatch a \<noteq> Handler FileUpload"
  shows "only_deletes (srv_state s) (srv_state (httpd_run P es s))"
  using assms(2-4)
proof (induction es arbitrary: s)
  case (Cons e es)
  have "only_deletes (srv_state s) (srv_state (httpd_step P e s))"
    by (rule stopped_step_only_deletes [OF assms(1) Cons.prems(1,2)]) (use Cons.prems(3) in auto)
  moreover have "stopped (httpd_step P e s)"
    using stopped_step [OF Cons.prems(1,2)] Cons.prems(2) by simp
  ultimately show ?case
    using Cons.IH [OF srv_inv_step [OF Cons.prems(1)]] Cons.prems(3) by (auto intro: only_deletes_trans)
qed (simp add: only_deletes_refl)


section \<open>Smaller facts\<close>

text \<open>An upload does not look at the gate.\<close>

lemma upload_ignores_gate: "serve_route P g FileUpload a s = serve_route P g' FileUpload a s"
  by (simp add: serve_route_def)

text \<open>A synchronous request may wait for its answer for eight hours by default; the server gives up the
  connection after a minute.\<close>

lemma answer_outlives_connection:
  "sv_WriteTimeout makeHTTPServer = seconds 60
    \<and> (DefaultConfigFlagsOverride parse default_rabbit_flags = Ret rc \<longrightarrow> rc_ResponseCacheTimeout rc = 28800)"
  by (auto simp: makeHTTPServer_def makeServerFromMux_def DefaultConfigFlagsOverride_def default_rabbit_flags_def)

lemma ocr_handler_deferred:
  assumes "ocr_handler P g a (w, st, tr) = Ret ((w', st', tr'), resp, gr)" "gr \<noteq> NoGoroutine"
  shows "\<exists>i. st' = addNewOcrResultToQueue i (ar_chan a) st"
proof -
  from assms obtain r s' out where
    h: "HandleOcrRequest (pr_setting P) (ar_chan a) r (w, st, tr) = Ret (s', out, gr)" "s' = (w', st', tr')"
    by (auto simp: ocr_handler_def ServeHTTP_def bind_outcome_Ret_iff split: option.splits prod.splits)
  with assms(2) have "\<not> InplaceDecode r"
    by (auto simp: HandleOcrRequest_def bind_outcome_Ret_iff split: if_splits)
  with h obtain r' out' where
    "DecodeImage (st_env (pr_setting P)) (st_broker (pr_setting P)) (st_peer (pr_setting P)) (st_config (pr_setting P))
       (st_tag (pr_setting P)) (ar_chan a) r (st, tr) = Ret ((st', tr'), r', out', gr)"
    by (auto simp: HandleOcrRequest_def bind_outcome_Ret_iff)
  from DecodeImage_table [OF this assms(2)] show ?thesis by auto
qed

section \<open>A sample program\<close>

definition sample_promhttp :: promhttp where
  "sample_promhttp =
     (let refuse = ''panic''; pass = (\<lambda>m h. if fillable m then Ret h else Panic refuse) in
      \<lparr>prom_registered = [''go_goroutines''],
       MustRegister = (\<lambda>ms reg. if list_all valid_metric ms \<and> distinct (map m_Name ms @ reg)
         then Ret (map m_Name ms @ reg) else Panic refuse),
       MustCurryWith = (\<lambda>labels m. if fst ` set labels \<subseteq> set (m_Labels m)
         then Ret (curried labels m) else Panic refuse),
       InstrumentHandlerInFlight = (\<lambda>m h a (w, st, tr).
         bind_outcome (h a (w, shift_gauge 1 st, tr)) (shifted_state (- 1))),
       InstrumentHandlerDuration = pass, InstrumentHandlerCounter = pass, InstrumentHandlerRequestSize = pass\<rparr>)"

definition sample_program :: program where
  "sample_program = \<lparr>pr_setting = sample_setting, pr_parse = (\<lambda>_. None), pr_decode = (\<lambda>_. None), pr_media = (\<lambda>h. h),
     pr_fprintf = (\<lambda>t. t), pr_prom = sample_promhttp, pr_page = (\<lambda>_. http_Error [] 200), pr_version = []\<rparr>"

definition sample_arrival :: "string \<Rightarrow> arrival" where
  "sample_arrival p = \<lparr>ar_method = ''POST'', ar_path = p, ar_body = Some (JObj [(''deferred'', JBool True)]),
     ar_upload = \<lparr>up_method = ''POST'', up_content_type = [], up_parts = []\<rparr>, ar_id = ''i'', ar_chan = 0,
     ar_number = 0, ar_debris = sample_world\<rparr>"

lemma sample_promhttp_documented: "documented_promhttp sample_promhttp" "ready_promhttp sample_promhttp"
  by (simp_all add: ready_promhttp_def documented_promhttp_def sample_promhttp_def transparent_def counts_in_flight_def
      registers_def curries_def fresh_registry_def Let_def)
    (simp_all add: ocr_metrics_def inFlightGauge_metric_def counter_metric_def duration_metric_def requestSize_metric_def)

section \<open>Properties\<close>






text \<open>C26: The metrics do not change what the service does. Their definitions are such that the library accepts
  them, once: building the instrumented handler does not panic as long as their names are free, and
  panics when it is done again. With the middlewares as documented the handler so built answers
  and leaves the state, the gauge of pending requests included, as the handler of OCR requests
  itself does. But while a deferred request is being handled that gauge counts it twice, as a
  running call and as a pending request.\<close>

theorem instrumentation_transparent:
  assumes "documented_promhttp pm" "fresh_registry reg"
  shows "\<exists>reg' ocrChain. InstrumentHttpStatusHandler pm reg (ocr_handler P g) = Ret (reg', ocrChain)
    \<and> ocrChain a s = ocr_handler P g a s
    \<and> panics (InstrumentHttpStatusHandler pm reg' h)
    \<and> (ocr_handler P g a (w, shift_gauge 1 st, tr) = Ret ((w', st', tr'), resp, gr) \<and> gr \<noteq> NoGoroutine \<longrightarrow>
        inFlightGauge st' = inFlightGauge st + 2 \<and> RequestTrackLength st' = RequestTrackLength st + 1)"
proof -
  let ?reg = "map m_Name ocr_metrics @ reg"
  have "\<not> fresh_registry ?reg" by (simp add: fresh_registry_def ocr_metrics_def)
  then have again: "panics (InstrumentHttpStatusHandler pm ?reg h)"
    using instrumented_handler [OF assms(1), of ?reg h] by simp
  show ?thesis
    using instrumented_handler [OF assms(1), of reg "ocr_handler P g"] assms again
      ocr_handler_deferred [of P g a w "shift_gauge 1 st" tr w' st' tr' resp gr]
    by (auto simp: in_flight_ocr_handler addNewOcrResultToQueue_def shift_gauge_def)
qed

theorem instrumentation_transparent_witness:
  "\<exists>reg ocrChain. InstrumentHttpStatusHandler sample_promhttp [''go_goroutines''] (ocr_handler sample_program ready_resman)
      = Ret (reg, ocrChain)
    \<and> ocrChain (sample_arrival ''/ocr'') (sample_world, empty_store, [])
      = ocr_handler sample_program ready_resman (sample_arrival ''/ocr'') (sample_world, empty_store, [])
    \<and> panics (InstrumentHttpStatusHandler sample_promhttp reg (ocr_handler sample_program ready_resman))"
proof -
  have "fresh_registry [''go_goroutines'']"
    using sample_promhttp_documented(2) by (simp add: ready_promhttp_def sample_promhttp_def Let_def)
  from instrumentation_transparent [OF sample_promhttp_documented(1) this] show ?thesis by blast
qed

end
