(* ===== verification/Spec2Isabelle.thy ===== *)
theory Spec2Isabelle
  imports Ocr_Pipeline Ocr_Store_Conc Ocr_Lifecycle Ocr_Connections Ocr_Admission Ocr_Fleet_Runs Cli_Httpd
begin

text \<open>
  Verification library of open-ocr, a service that runs optical character recognition for
  HTTP clients: a daemon takes requests over HTTP and puts them into a message broker
  (RabbitMQ), workers take them from there, run external programs on the image and send the
  text back. The Go package ocrworker (the files at the top of the repository) holds both
  sides; the programs under cli-httpd, cli-worker and cli-preprocessor start them.

  \<^bold>\<open>How a request travels\<close>

  OcrHTTPStatusHandler.ServeHTTP (ocr_http_handler.go) looks at the gate, decodes the body and
  calls HandleOcrRequest. An in-place request goes to an engine directly. Any other goes to
  OcrRpcClient.DecodeImage (ocr_rpc_client.go), which fetches the image, declares a callback
  queue named after the request and publishes the request under the routing key of the last
  preprocessor of its chain or of the OCR workers. A preprocessor worker
  (preprocessor_rpc_worker.go) changes the image and publishes to the next key of the chain; an
  OCR worker (ocr_rpc_worker.go) runs the engine of the request and publishes the result to
  the callback queue. handleRPCResponse puts it into a channel of the daemon, where DecodeImage
  waits for it. A deferred request is answered at once; its channel goes into the table of
  ocr_results_storage.go, from which OcrHttpStatusHandler (polling), a goroutine that lets the
  request decay, or a goroutine that posts the result to a reply address (ocr_postback_client.go)
  takes it. Beside that, SetResManagerState (ocr_res_manager.go) asks the broker for its
  statistics in a loop and opens and closes the gate.

  \<^bold>\<open>The theories, and what they model\<close>

  Ocr_Prelude: machine words, Go's error results and panics (the type outcome), bytes and
  strings, durations, and the collections of rewrite rules.
  Go_Strings, Go_Base64, Go_Json: what the code uses of the standard library: strings and
  path/filepath, base64.StdEncoding, and encoding/json on parsed documents. Their round trips
  are proved there and carry the codecs of the messages (the locale json_codec).
  Ocr_Util: ocr_util.go over a world (files, identifiers drawn) and an environment (HTTP
  servers, external programs, clocks, net/url and package fmt as functions).
  Ocr_Messages: ocr_request.go, the engine type of ocr_engine.go and OcrResult: the structs,
  their JSON tags, decoding and encoding, and the methods of a request.
  Ocr_Config: rabbit_config.go and worker_config.go.
  Ocr_Store: ocr_results_storage.go, its operations run alone (the locale request_table), and
  an abstract table of arrived results that polling refines. Ocr_Store_Conc: its additions and
  deletions as interleaved atomic actions of threads, a step relation with its invariant.
  Ocr_Lifecycle: all that shares the table (registrations, the goroutines of deferred
  requests, polls, the receivers of answers) as interleaved atomic actions.
  Ocr_ResManager: ocr_res_manager.go, the statistics in 64 bit words, both schedulers, the
  decision, and the loop with its stop signal.
  Tesseract_Engine, Sandwich_Engine: tesseract_engine.go and sandwich_engine.go, from the
  temporary input file to the result, with all external commands. Ocr_Engine: ocr_engine.go
  and mock_engine.go; the interface OcrEngine is the locale ocr_engine, interpreted for each
  engine and for the dispatch over them, and the worker rests on that interpretation.
  Ocr_Preprocessor: preprocessor.go, convert-pdf.go and stroke_width_transform.go; the
  interface Preprocessor is the locale preprocessor.
  Ocr_Amqp: the calls of the AMQP client. A broker answers every call; a component's dealings
  with it are the trace of its calls, over which publications and acknowledgements are defined.
  Preprocessor_Worker, Ocr_Worker: the two workers: Run, handle and what it calls, Shutdown.
  Ocr_Client: DecodeImage with its callback queue, the decay goroutine and the postback
  goroutine. Ocr_Http: the three HTTP handlers and the shutdown of cli-httpd/main.go.
  Landing_Page: generate_landing_page.go. Cli_Workers: cli-worker/main.go and
  cli-preprocessor/main.go, each round of their endless loops (the locale restart_loop) being a
  connection to a broker.
  Cli_Httpd: cli-httpd/main.go and prometheus_metrics.go: the start, the server and its routes,
  and the running daemon as a sequence of requests, turns of the resource manager and signals.
  Ocr_Connections: the calls of DecodeImage that leave its connection open.
  Ocr_Metrics: the metrics of prometheus_metrics.go and what the client library asks of them; the
  chain of middlewares built with them is in Cli_Httpd.
  Ocr_Admission: handlers between the gate and their registration, as a step relation over the
  table and the variables of the resource manager, with a bound on the pending requests.
  Ocr_Fleet, Ocr_Fleet_Runs: any number of worker programs on one queue. A turn of the loop of handle is
  handle_one, of which w_handle is made (w_handle_turns); the broker's side is what AMQP documents of
  acknowledgements and of channels that go. fleet_turn has the steps of the programs; fleet_reach
  adds new messages, lost connections and killed processes, calm_reach only new messages.
  Ocr_Pipeline: client, preprocessor workers and OCR worker around a broker with a direct
  exchange. It gives DecodeImage the deliveries that its other side makes of a message; this
  theory closes the circle from the HTTP request to the HTTP response.

  Names are those of the code, with a prefix where two methods have one name (tesseract_,
  sandwich_, pw_ for the preprocessor worker, w_ for the OCR worker, rc_ and wc_ for the fields
  of the configurations). A method that changes its receiver returns it.

  \<^bold>\<open>What the lemmas show\<close>

  End to end: request_served, deferred_request_served and deferred_result_delivered below, for a
  client that waits, polls, or has a reply address; and started_system_connected: what the programs publish and
  what they subscribe to fit together. Safety of the gate and of the resource manager
  (gate_decides, acceptance_exact, stop_is_final), how far concurrent requests can exceed its limit
  (admission_limit), and the end of the daemon
  (stopping_daemon_drains, shutdown_when_drained). The table: polling as
  a refinement (status_check_refines_poll), the counter as the number of pending requests for
  operations run alone and for interleaved ones (queue_length_exact, counter_exact_when_quiet),
  and the race that breaks it (double_delete_wraps). Deferred requests in any interleaving: none
  is forgotten, all can come to an end, a result is handed out once (requests_looked_after,
  can_always_drain, results_handed_once); the interleaved actions add up to the sequential
  operations (actions_make_operations). The programs: worker_program_survives,
  preprocessor_program_hangs, daemon_serves_its_flags, every_path_has_a_handler, and the
  instrumentation as an identity (instrumentation_transparent). Messages: round trips, types, routes
  (request_roundtrip, decoded_requests_wf, route_is_reverse_chain). Workers: an acknowledgement
  only after an answer (acknowledged_after_answer), what an answer says (worker_reports_engine),
  when a worker panics (worker_never_panics, unknown_engine_panics), relaying
  (preprocessor_worker_relays). Many workers: no request is lost and no answer comes from nowhere
  (fleet_keeps_requests), a client gets the answer to its own request (fleet_serves_client), a fleet
  without losses comes to rest (fleet_comes_to_rest) and has then answered everything
  (fleet_answers_everything), or is down after a request for an engine that does not exist
  (poison_ends_fleet). The client: one message for a request
  (decode_sends_one_message), the end of its connection (connection_closed_by_answer), time limits,
  reply addresses, and the end of both goroutines (decay_ends, postback_ends). Engines and
  preprocessors: results and the files left behind (sandwich_delivers, tesseract_done_leaves_files, tiff_conversion_fallback,
  preprocess_only_image). Several theorems state behaviour that the code hardly means to have;
  their text says so.

  \<^bold>\<open>Bounds\<close>

  forward, the way of a message through the preprocessors, has a bound on the hops. The length of the
  chain and one is enough (forward_chain): each hop shortens the chain by one element.
  decay_loop may run for ever and is an option; decay_ends shows that it does not once the
  clock has passed the deadline. post_loop ends by the measure numRetries - tryCounter.
  SetResManagerState and shutdown_loop run over the list of what they meet in each turn, the
  worker programs over the list of their rounds and httpd_run over the list of events.
  Integers of the code are words of their width (uint is 64 bit) and wrap around; durations
  are signed 64 bit nanoseconds, read as integers (seconds, postback_timeout).

  \<^bold>\<open>What is not modelled\<close>

  Logging, what the client library of Prometheus does with an observation (the gauge is kept), the
  profiler, and what the TLS settings mean: the first is text for people, the others belong
  to libraries. The flags after flag.Parse are records. JSON texts are parsed values: the bytes of a document, the
  replacement of invalid UTF-8 and the offsets in error messages are left out, and a slice that
  is decoded again does not show elements beyond its length that an earlier, longer document
  left in its memory. Map iteration is in the order of the bindings; Go's is any order, and no
  property depends on it. sync.Map, atomic additions and channel operations are single steps
  in Ocr_Store_Conc and Ocr_Lifecycle and functions elsewhere: a handler there runs without
  interference of others, whose effects between two turns of a goroutine are arguments
  (decay_loop, loop_in); in Cli_Httpd a request is one event. The fleet has no order of delivery: the
  priorities of messages are the broker's business, and every order is possible. A process that
  has ended stays so; who starts it again belongs to the deployment. Time does not pass in
  Ocr_Lifecycle: a timer fires at any moment. The time limits of http.Server are part of the
  server and have no effect on the model's answers.
  External programs, HTTP servers, the broker and the K-sortable identifiers are parameters.
\<close>

section \<open>The service as a whole\<close>


text \<open>A request for the mock engine after the identity preprocessor, on a daemon with all its workers.\<close>

definition sample_system :: setting where
  "sample_system = sample_setting\<lparr>st_peer := system_peer willing_broker sample_env sample_workers sample_worker
     (Suc (length (chain_of sample_request))) sample_world\<rparr>"

definition sample_body :: body where
  "sample_body = Some (JObj [(''img_bytes'', JStr ''AQ==''), (''engine'', JStr ''Mock''),
     (''preprocessors'', JArr [JStr ''identity''])])"

lemma sample_decoded:
  "unmarshal decode_request sample_body (zero_request\<lparr>RequestID := ''i''\<rparr>) = (sample_request, None)"
proof -
  have "b64_decode ''AQ=='' = Some [1]" "UnmarshalJSON_string ''Mock'' = EngineMock" by code_simp+
  then show ?thesis
    by (simp add: sample_body_def sample_request_def zero_request_def decode_request_def decode_struct_def
        request_field_of at_field_def)
qed




section \<open>Deferred requests as a whole\<close>

text \<open>Everything that a deferred request needs on its way: the assumptions of the two theorems below.\<close>

definition way_is_open ::
  "setting \<Rightarrow> resman \<Rightarrow> store \<Rightarrow> (string \<rightharpoonup> PreprocessorRpcWorker) \<Rightarrow> OcrRpcWorker \<Rightarrow> OcrRequest \<Rightarrow> bool" where
  "way_is_open S g st workers wk r \<longleftrightarrow> gate_inv g \<and> accepts g st \<and> obliging (st_broker S)
     \<and> (\<exists>u. env_url_parse (st_env S) (rc_AmqpURI (st_config S)) = Inr u)
     \<and> \<not> rc_Reliable (st_config S) \<and> \<not> wc_Reliable (w_workerConfig wk)
     \<and> wc_RoutingKey (w_workerConfig wk) = rc_RoutingKey (st_config S)
     \<and> serves workers (rc_RoutingKey (st_config S)) (chain_of r)"

text \<open>What handleRPCResponse makes of the deliveries that the system sends for a message.\<close>

definition after_answer ::
  "setting \<Rightarrow> (string \<rightharpoonup> PreprocessorRpcWorker) \<Rightarrow> OcrRpcWorker \<Rightarrow> world \<Rightarrow> OcrRequest \<Rightarrow> nat
     \<Rightarrow> string \<times> publishing \<Rightarrow> store \<times> amqp_trace \<Rightarrow> store" where
  "after_answer S workers wk ww r ch m s =
     fst (handleRPCResponse (st_broker S)
       (system_peer (st_broker S) (st_env S) workers wk (Suc (length (chain_of r))) ww (fst m) (snd m))
       (RequestID r) ch s)"

text \<open>An answer of the engine to the request as it arrives at the OCR worker.\<close>

definition engine_says :: "setting \<Rightarrow> OcrRpcWorker \<Rightarrow> OcrRequest \<Rightarrow> OcrResult \<Rightarrow> bool" where
  "engine_says S wk r res \<longleftrightarrow>
     (\<exists>r4 w4. arrived r r4 \<and> engine_answer (st_env S) (w_workerConfig wk) r4 w4 = Some res)"

lemma deferred_request_accepted:
  assumes "way_is_open S g st workers wk r"
    and "unmarshal decode_request b (zero_request\<lparr>RequestID := i\<rparr>) = (r, None)" "\<not> InplaceDecode r"
    and "check_reply_to (st_env S) r = Inr r1" "Deferred r1"
    and "fetch_image (st_env S) (set_timeout (st_config S) r1) = (r3, None)"
  obtains tr1 m where "ServeHTTP S g i ch b (w, st, tr)
      = Ret ((w, addNewOcrResultToQueue (RequestID r) ch st, tr1),
          Some (write_json \<lparr>Text = [], Status = ''processing'', ID = RequestID r\<rparr>),
          if ReplyTo r1 = [] then DecayAfter (seconds (TimeOut r3 + 10)) (RequestID r)
          else PostBack (RequestID r) (ReplyTo r1))"
    and "published tr1 = published tr @ [m]"
    and "\<not> answered (st_env S) workers (w_workerConfig wk) r3
          \<and> after_answer S workers wk ww r ch m (addNewOcrResultToQueue (RequestID r) ch st, tr1)
              = addNewOcrResultToQueue (RequestID r) ch st \<or>
       (\<exists>res. engine_says S wk r3 res
          \<and> after_answer S workers wk ww r ch m (addNewOcrResultToQueue (RequestID r) ch st, tr1)
              = send_result ch (res\<lparr>ID := RequestID r\<rparr>) (addNewOcrResultToQueue (RequestID r) ch st))"
proof -
  have wf: "wf_request r" using decoded_wf [OF assms(2)] by simp
  obtain u where way: "gate_inv g" "accepts g st" "obliging (st_broker S)"
    "env_url_parse (st_env S) (rc_AmqpURI (st_config S)) = Inr u"
    "\<not> rc_Reliable (st_config S)" "\<not> wc_Reliable (w_workerConfig wk)"
    "wc_RoutingKey (w_workerConfig wk) = rc_RoutingKey (st_config S)"
    "serves workers (rc_RoutingKey (st_config S)) (chain_of r)"
    using assms(1) by (auto simp: way_is_open_def)
  obtain tr1 r' key pub where d: "DecodeImage (st_env S) (st_broker S) (st_peer S) (st_config S) (st_tag S) ch r (st, tr)
      = Ret ((addNewOcrResultToQueue (RequestID r) ch st, tr1), r',
          Some (zero_result\<lparr>Status := ''processing'', ID := RequestID r\<rparr>, 200, None),
          if ReplyTo r1 = [] then DecayAfter (seconds (TimeOut r3 + 10)) (RequestID r)
          else PostBack (RequestID r) (ReplyTo r1))"
    and tr1: "published tr1 = published tr @ [(key, pub)]"
    and ds: "system_peer (st_broker S) (st_env S) workers wk (Suc (length (chain_of r))) ww key pub = []
          \<and> \<not> answered (st_env S) workers (w_workerConfig wk) r3 \<or>
       (\<exists>r4 w4 res. arrived r3 r4 \<and> engine_answer (st_env S) (w_workerConfig wk) r4 w4 = Some res
          \<and> system_peer (st_broker S) (st_env S) workers wk (Suc (length (chain_of r))) ww key pub
              = [to_delivery (response res (RequestID r))])"
    using deferred_registered [OF way(3-7) wf assms(4-6) way(8), of "st_peer S" "st_tag S" ch st tr ww] by blast
  show thesis
  proof (rule that [of tr1 "(key, pub)"])
    show "ServeHTTP S g i ch b (w, st, tr)
      = Ret ((w, addNewOcrResultToQueue (RequestID r) ch st, tr1),
          Some (write_json \<lparr>Text = [], Status = ''processing'', ID = RequestID r\<rparr>),
          if ReplyTo r1 = [] then DecayAfter (seconds (TimeOut r3 + 10)) (RequestID r)
          else PostBack (RequestID r) (ReplyTo r1))"
      using assms(3) by (simp add: serve_accepted [OF way(1,2) assms(2)] HandleOcrRequest_def d handled_def
          answer_def zero_result_def)
    show "\<not> answered (st_env S) workers (w_workerConfig wk) r3
          \<and> after_answer S workers wk ww r ch (key, pub) (addNewOcrResultToQueue (RequestID r) ch st, tr1)
              = addNewOcrResultToQueue (RequestID r) ch st \<or>
       (\<exists>res. engine_says S wk r3 res
          \<and> after_answer S workers wk ww r ch (key, pub) (addNewOcrResultToQueue (RequestID r) ch st, tr1)
              = send_result ch (res\<lparr>ID := RequestID r\<rparr>) (addNewOcrResultToQueue (RequestID r) ch st))"
      using ds
    proof (elim disjE exE conjE)
      fix r4 w4 res
      assume "arrived r3 r4" "engine_answer (st_env S) (w_workerConfig wk) r4 w4 = Some res"
        "system_peer (st_broker S) (st_env S) workers wk (Suc (length (chain_of r))) ww key pub
          = [to_delivery (response res (RequestID r))]"
      then have "engine_says S wk r3 res"
        "after_answer S workers wk ww r ch (key, pub) (addNewOcrResultToQueue (RequestID r) ch st, tr1)
          = send_result ch (res\<lparr>ID := RequestID r\<rparr>) (addNewOcrResultToQueue (RequestID r) ch st)"
        by (auto simp: engine_says_def after_answer_def to_delivery_def response_def decode_encode_result)
      then show ?thesis by blast
    qed (simp add: after_answer_def)
  qed (rule tr1)
qed

text \<open>C2: A deferred request from end to end, for a client that polls. While the service accepts, the
  request is answered at once as processing, one message is sent for it, and polls say processing.
  When the system has answered the message, the next poll gives what the engine says to the request,
  under its identifier, and the one after that does not find it any more. Only when a
  preprocessor can drop the request or the engine can panic on it may polls go on saying
  processing until it decays.\<close>

theorem deferred_request_served:
  assumes "way_is_open S g st workers wk r"
    and "unmarshal decode_request b (zero_request\<lparr>RequestID := i\<rparr>) = (r, None)" "\<not> InplaceDecode r"
    and "Deferred r" "ReplyTo r = []" "chans st ch = []"
    and "fetch_image (st_env S) (set_timeout (st_config S) r) = (r3, None)"
  shows "\<exists>st1 tr1 m st2. ServeHTTP S g i ch b (w, st, tr)
      = Ret ((w, st1, tr1), Some (write_json \<lparr>Text = [], Status = ''processing'', ID = RequestID r\<rparr>),
          DecayAfter (seconds (TimeOut r3 + 10)) (RequestID r))
    \<and> published tr1 = published tr @ [m]
    \<and> status_ServeHTTP (poll_body (RequestID r)) st1
        = (st1, write_json \<lparr>Text = [], Status = ''processing'', ID = RequestID r\<rparr>)
    \<and> after_answer S workers wk ww r ch m (st1, tr1) = st2
    \<and> ((\<exists>res st3. engine_says S wk r3 res
          \<and> status_ServeHTTP (poll_body (RequestID r)) st2 = (st3, write_json (res\<lparr>ID := RequestID r\<rparr>))
          \<and> status_ServeHTTP (poll_body (RequestID r)) st3
              = (st3, write_json \<lparr>Text = [], Status = ''not found'', ID = RequestID r\<rparr>)) \<or>
        \<not> answered (st_env S) workers (w_workerConfig wk) r3
          \<and> status_ServeHTTP (poll_body (RequestID r)) st2
              = (st2, write_json \<lparr>Text = [], Status = ''processing'', ID = RequestID r\<rparr>))"
proof -
  let ?st1 = "addNewOcrResultToQueue (RequestID r) ch st"
  have rt: "check_reply_to (st_env S) r = Inr r" using assms(5) by (simp add: check_reply_to_def)
  obtain tr1 m where serve: "ServeHTTP S g i ch b (w, st, tr)
      = Ret ((w, ?st1, tr1), Some (write_json \<lparr>Text = [], Status = ''processing'', ID = RequestID r\<rparr>),
          if ReplyTo r = [] then DecayAfter (seconds (TimeOut r3 + 10)) (RequestID r) else PostBack (RequestID r) (ReplyTo r))"
    "published tr1 = published tr @ [m]"
    and ans: "\<not> answered (st_env S) workers (w_workerConfig wk) r3
          \<and> after_answer S workers wk ww r ch m (?st1, tr1) = ?st1 \<or>
       (\<exists>res. engine_says S wk r3 res
          \<and> after_answer S workers wk ww r ch m (?st1, tr1) = send_result ch (res\<lparr>ID := RequestID r\<rparr>) ?st1)"
    using deferred_request_accepted [OF assms(1-3) rt assms(4,7), of ch w tr ww] by blast
  have in_table: "RequestsTrack ?st1 (RequestID r) = Some ch" "chans ?st1 ch = []"
    using assms(6) by (simp_all add: addNewOcrResultToQueue_def)
  note waiting = status_processing [OF in_table]
  have ready: "\<exists>st3. status_ServeHTTP (poll_body (RequestID r)) (send_result ch x ?st1) = (st3, write_json x)
      \<and> status_ServeHTTP (poll_body (RequestID r)) st3
        = (st3, write_json \<lparr>Text = [], Status = ''not found'', ID = RequestID r\<rparr>)" for x
  proof -
    have "RequestsTrack (send_result ch x ?st1) (RequestID r) = Some ch" "chans (send_result ch x ?st1) ch = x # []"
      using in_table by (simp_all add: send_result_def)
    from status_ready [OF this] status_unknown show ?thesis by blast
  qed
  from ans have "(\<exists>res st3. engine_says S wk r3 res
          \<and> status_ServeHTTP (poll_body (RequestID r)) (after_answer S workers wk ww r ch m (?st1, tr1))
              = (st3, write_json (res\<lparr>ID := RequestID r\<rparr>))
          \<and> status_ServeHTTP (poll_body (RequestID r)) st3
              = (st3, write_json \<lparr>Text = [], Status = ''not found'', ID = RequestID r\<rparr>)) \<or>
        \<not> answered (st_env S) workers (w_workerConfig wk) r3
          \<and> status_ServeHTTP (poll_body (RequestID r)) (after_answer S workers wk ww r ch m (?st1, tr1))
              = (after_answer S workers wk ww r ch m (?st1, tr1),
                 write_json \<lparr>Text = [], Status = ''processing'', ID = RequestID r\<rparr>)"
    using waiting ready by (elim disjE exE conjE) auto
  with serve assms(5) waiting show ?thesis
    by (intro exI [of _ ?st1] exI [of _ tr1] exI [of _ m]
        exI [of _ "after_answer S workers wk ww r ch m (?st1, tr1)"]) simp
qed

text \<open>The same for the mock engine after the identity preprocessor, with and without a reply address.\<close>

definition deferred_sample :: "string \<Rightarrow> OcrRequest" where
  "deferred_sample rt = sample_request\<lparr>Deferred := True, ReplyTo := rt\<rparr>"

definition deferred_body :: "string \<Rightarrow> body" where
  "deferred_body rt = Some (JObj [(''img_bytes'', JStr ''AQ==''), (''engine'', JStr ''Mock''),
     (''preprocessors'', JArr [JStr ''identity'']), (''deferred'', JBool True), (''reply_to'', JStr rt)])"

lemma deferred_decoded:
  "unmarshal decode_request (deferred_body rt) (zero_request\<lparr>RequestID := ''i''\<rparr>) = (deferred_sample rt, None)"
proof -
  have "b64_decode ''AQ=='' = Some [1]" "UnmarshalJSON_string ''Mock'' = EngineMock" by code_simp+
  then show ?thesis
    by (simp add: deferred_body_def deferred_sample_def sample_request_def zero_request_def decode_request_def
        decode_struct_def request_field_of at_field_def)
qed

lemma deferred_sample_fields:
  "RequestID (deferred_sample rt) = ''i''" "Deferred (deferred_sample rt)" "\<not> InplaceDecode (deferred_sample rt)"
  "ReplyTo (deferred_sample rt) = rt" "chain_of (deferred_sample rt) = [''identity'']"
  "EngineType (deferred_sample rt) = EngineMock"
  "fetch_image env (set_timeout rc (deferred_sample rt)) = (set_timeout rc (deferred_sample rt), None)"
  by (simp_all add: deferred_sample_def sample_request_def zero_request_def chain_of_def fetch_image_def)

lemma deferred_sample_way:
  "way_is_open sample_setting ready_resman empty_store sample_workers sample_worker (deferred_sample rt)"
proof -
  have "serves sample_workers ''decode-ocr'' [''identity'']"
    using sample_serves by (simp add: sample_request_def chain_of_def)
  then show ?thesis
    by (simp add: way_is_open_def ready_accepts sample_setting_def obliging_willing deferred_sample_fields
        sample_worker_def NewOcrRpcWorker_def DefaultWorkerConfig_def DefaultTestConfig_def sample_env_def)
qed

lemma deferred_sample_engine:
  assumes "engine_says S wk (set_timeout rc (deferred_sample rt)) res"
  shows "res = zero_result\<lparr>Text := MockEngineResponse\<rparr>"
proof -
  from assms obtain r4 w4 where r4: "arrived (set_timeout rc (deferred_sample rt)) r4"
    "engine_answer (st_env S) (w_workerConfig wk) r4 w4 = Some res" by (auto simp: engine_says_def)
  have "EngineType r4 = EngineMock" using arrived_keeps(2) [OF r4(1)] by (simp add: deferred_sample_fields)
  with r4(2) show ?thesis
    by (simp add: engine_answer_def ProcessRequest_def NewOcrEngine_def mock_ProcessRequest_def)
qed

lemma deferred_sample_answered:
  "answered sample_env sample_workers wc (set_timeout rc (deferred_sample rt))"
proof -
  have "engine_answer sample_env wc r4 w4 \<noteq> None" if "arrived (set_timeout rc (deferred_sample rt)) r4" for r4 w4
    using arrived_keeps(2) [OF that]
    by (simp add: deferred_sample_fields engine_answer_def ProcessRequest_def NewOcrEngine_def mock_ProcessRequest_def)
  moreover have "gets_through sample_env sample_workers [''identity'']"
  proof -
    have "chain_of sample_request = [''identity'']" by (simp add: sample_request_def chain_of_def)
    then show ?thesis using sample_answered by (simp add: answered_def)
  qed
  ultimately show ?thesis by (simp add: answered_def deferred_sample_fields)
qed

theorem deferred_request_served_witness:
  "\<exists>st1 tr1 m st3. ServeHTTP sample_setting ready_resman ''i'' 0 (deferred_body []) (sample_world, empty_store, [])
      = Ret ((sample_world, st1, tr1), Some (write_json \<lparr>Text = [], Status = ''processing'', ID = ''i''\<rparr>),
          DecayAfter (seconds (TimeOut (set_timeout DefaultTestConfig (deferred_sample [])) + 10)) ''i'')
    \<and> published tr1 = [m]
    \<and> status_ServeHTTP (poll_body ''i'')
        (after_answer sample_setting sample_workers sample_worker sample_world (deferred_sample []) 0 m (st1, tr1))
      = (st3, write_json \<lparr>Text = MockEngineResponse, Status = [], ID = ''i''\<rparr>)"
proof -
  have env: "st_env sample_setting = sample_env" "st_config sample_setting = DefaultTestConfig"
    by (simp_all add: sample_setting_def)
  note served = deferred_request_served [OF deferred_sample_way deferred_decoded deferred_sample_fields(3,2,4) _
      deferred_sample_fields(7), of 0 sample_world "[]" sample_world, unfolded env deferred_sample_fields]
  have "chans empty_store 0 = []" by (simp add: empty_store_def)
  from served [OF this] deferred_sample_answered show ?thesis
    by (fastforce dest: deferred_sample_engine simp: zero_result_def)
qed

text \<open>C18: A deferred request from end to end, for a client with a reply address. The request is answered
  at once as processing, and when the system has answered its message the postback goroutine
  sends what the engine says to the request, under its identifier, to that address, in up to
  three attempts; in the end the request is out of the table. Only when a preprocessor can drop the request or
  the engine can panic on it there may be nothing to send.\<close>

theorem deferred_result_delivered:
  assumes "way_is_open S g st workers wk r"
    and "unmarshal decode_request b (zero_request\<lparr>RequestID := i\<rparr>) = (r, None)" "\<not> InplaceDecode r"
    and "check_reply_to (st_env S) r = Inr r1" "ReplyTo r1 \<noteq> []" "reachable_reply (st_env S) (ReplyTo r1)"
    and "fetch_image (st_env S) (set_timeout (st_config S) r1) = (r3, None)" "chans st ch = []"
  shows "\<exists>st1 tr1 m st2. ServeHTTP S g i ch b (w, st, tr)
      = Ret ((w, st1, tr1), Some (write_json \<lparr>Text = [], Status = ''processing'', ID = RequestID r\<rparr>),
          PostBack (RequestID r) (ReplyTo r1))
    \<and> published tr1 = published tr @ [m]
    \<and> after_answer S workers wk ww r ch m (st1, tr1) = st2
    \<and> ((\<exists>res st3. engine_says S wk r3 res
          \<and> postback (st_env S) post (RequestID r) (ReplyTo r1) ch False st2
              = Ret (st3, post_attempts post (res\<lparr>ID := RequestID r\<rparr>) (ReplyTo r1))
          \<and> RequestsTrack st3 = (RequestsTrack st)(RequestID r := None)) \<or>
        \<not> answered (st_env S) workers (w_workerConfig wk) r3 \<and> chans st2 ch = [])"
proof -
  let ?st1 = "addNewOcrResultToQueue (RequestID r) ch st"
  have "Deferred r1" using check_reply_to_keeps [OF assms(4)] assms(5) by auto
  then obtain tr1 m where serve: "ServeHTTP S g i ch b (w, st, tr)
      = Ret ((w, ?st1, tr1), Some (write_json \<lparr>Text = [], Status = ''processing'', ID = RequestID r\<rparr>),
          if ReplyTo r1 = [] then DecayAfter (seconds (TimeOut r3 + 10)) (RequestID r) else PostBack (RequestID r) (ReplyTo r1))"
    "published tr1 = published tr @ [m]"
    and ans: "\<not> answered (st_env S) workers (w_workerConfig wk) r3
          \<and> after_answer S workers wk ww r ch m (?st1, tr1) = ?st1 \<or>
       (\<exists>res. engine_says S wk r3 res
          \<and> after_answer S workers wk ww r ch m (?st1, tr1) = send_result ch (res\<lparr>ID := RequestID r\<rparr>) ?st1)"
    using deferred_request_accepted [OF assms(1-4) _ assms(7), of ch w tr ww] by blast
  have empty: "chans ?st1 ch = []" using assms(8) by (simp add: addNewOcrResultToQueue_def)
  have posted: "\<exists>st3. postback (st_env S) post (RequestID r) (ReplyTo r1) ch False (send_result ch x ?st1)
        = Ret (st3, post_attempts post x (ReplyTo r1))
      \<and> RequestsTrack st3 = (RequestsTrack st)(RequestID r := None)" for x
    using empty by (simp add: postback_def send_result_def post_loop_attempts [OF assms(6)] ocr_table.lookup_del)
      (simp add: addNewOcrResultToQueue_def)
  from ans have "(\<exists>res st3. engine_says S wk r3 res
          \<and> postback (st_env S) post (RequestID r) (ReplyTo r1) ch False (after_answer S workers wk ww r ch m (?st1, tr1))
              = Ret (st3, post_attempts post (res\<lparr>ID := RequestID r\<rparr>) (ReplyTo r1))
          \<and> RequestsTrack st3 = (RequestsTrack st)(RequestID r := None)) \<or>
        \<not> answered (st_env S) workers (w_workerConfig wk) r3
          \<and> chans (after_answer S workers wk ww r ch m (?st1, tr1)) ch = []"
    using posted empty by (elim disjE exE conjE) auto
  with serve assms(5) show ?thesis
    by (intro exI [of _ ?st1] exI [of _ tr1] exI [of _ m]
        exI [of _ "after_answer S workers wk ww r ch m (?st1, tr1)"]) simp
qed

theorem deferred_result_delivered_witness:
  "\<exists>st1 tr1 m st3. ServeHTTP sample_setting ready_resman ''i'' 0 (deferred_body ''http://h'') (sample_world, empty_store, [])
      = Ret ((sample_world, st1, tr1), Some (write_json \<lparr>Text = [], Status = ''processing'', ID = ''i''\<rparr>),
          PostBack ''i'' ''http://h'')
    \<and> postback sample_env (\<lambda>n u b. if n = 2 then HttpOk 200 [] else HttpFail ''refused'') ''i'' ''http://h'' 0 False
        (after_answer sample_setting sample_workers sample_worker sample_world (deferred_sample ''http://h'') 0 m (st1, tr1))
      = Ret (st3, [(1, Some ''refused''), (2, None)])"
proof -
  let ?r = "deferred_sample ''http://h''"
  let ?post = "\<lambda>n u b. if n = (2 :: uint) then HttpOk 200 [] else HttpFail ''refused''"
  have env: "st_env sample_setting = sample_env" "st_config sample_setting = DefaultTestConfig"
    by (simp_all add: sample_setting_def)
  have reply: "check_reply_to (st_env sample_setting) ?r = Inr ?r"
    by (simp add: check_reply_to_def checkURLForReplyTo_def sample_env_def env deferred_sample_def)
  have reach: "ReplyTo ?r \<noteq> []" "reachable_reply (st_env sample_setting) (ReplyTo ?r)"
    by (simp_all add: deferred_sample_fields reachable_reply_def env sample_env_def)
  have empty: "chans empty_store 0 = []" by (simp add: empty_store_def)
  note delivered = deferred_result_delivered [where w = sample_world and tr = "[]" and ww = sample_world and post = ?post,
      OF deferred_sample_way deferred_decoded deferred_sample_fields(3) reply reach deferred_sample_fields(7) empty]
  have "post_attempts ?post x u = [(1, Some ''refused''), (2, None)]" for x u
    by (simp add: post_attempts_def post_error_def)
  with delivered deferred_sample_answered show ?thesis
    by (simp add: env deferred_sample_fields) blast
qed

end
